(* ===== verification/Go_Base.thy ===== *)
theory Go_Base
  imports Main "HOL-Library.Word"
begin

text \<open>
  The prelude of the development: the machine integers of Go at their widths, Go strings as
  byte strings, the value/error/panic results of Go calls, and the generic lemmas about
  words, lists and maps that the component theories share.

  A Go function \<^verbatim>\<open>f(...) (T, error)\<close> becomes a function into \<open>T outcome\<close>: \<open>Ok\<close> is a
  return with a nil error, \<open>Err\<close> a return with a non-nil error, and \<open>Panic\<close> a run-time
  panic. A Go function that may loop forever returns \<open>T outcome option\<close>, where \<open>None\<close> is
  the call that never returns.
\<close>

unbundle bit_operations_syntax

type_synonym u8 = "8 word"
type_synonym u32 = "32 word"
type_synonym i32 = "32 word"
type_synonym u64 = "64 word"
type_synonym i64 = "64 word"

text \<open>A Go string is an immutable sequence of bytes; a \<open>char\<close> of HOL is a byte.\<close>

type_synonym gostring = string

text \<open>A Go slice as JSON sees it: a nil slice, which is None, is \<^verbatim>\<open>null\<close>.\<close>

type_synonym 'a slice = "'a list option"

abbreviation elements :: "'a slice \<Rightarrow> 'a list" where
  "elements xs \<equiv> (case xs of None \<Rightarrow> [] | Some ys \<Rightarrow> ys)"

named_theorems reader_simps \<open>how the reader operations act on a reader split at its position\<close>
named_theorems repo_simps \<open>the effect of a repository operation on each table\<close>
named_theorems handler_simps \<open>unfolding of the HTTP handlers on one branch\<close>

section \<open>Results of Go calls\<close>

datatype go_error =
    EOF                       \<comment> \<open>\<^verbatim>\<open>io.EOF\<close>\<close>
  | UnexpectedEOF             \<comment> \<open>\<^verbatim>\<open>io.ErrUnexpectedEOF\<close>\<close>
  | VarintOverflow            \<comment> \<open>\<^verbatim>\<open>binary: varint overflows a 64-bit integer\<close>\<close>
  | NegativePosition          \<comment> \<open>\<^verbatim>\<open>bytes.Reader.Seek: negative position\<close>\<close>
  | UnsupportedWireType u64   \<comment> \<open>\<^verbatim>\<open>unsupported wire type: %d\<close>\<close>
  | DeviceNotFound            \<comment> \<open>\<^verbatim>\<open>storage.ErrDeviceNotFound\<close>\<close>
  | OtherError gostring

datatype 'a outcome = Ok 'a | Err go_error | Panic

primrec bind_outcome :: "'a outcome \<Rightarrow> ('a \<Rightarrow> 'b outcome) \<Rightarrow> 'b outcome" where
  "bind_outcome (Ok x) f = f x"
| "bind_outcome (Err e) f = Err e"
| "bind_outcome Panic f = Panic"

lemma bind_outcome_Ok_iff:
  "bind_outcome m f = Ok y \<longleftrightarrow> (\<exists>x. m = Ok x \<and> f x = Ok y)"
  by (cases m) auto

lemma bind_outcome_Panic_iff:
  "bind_outcome m f = Panic \<longleftrightarrow> m = Panic \<or> (\<exists>x. m = Ok x \<and> f x = Panic)"
  by (cases m) auto

section \<open>Decimal rendering, as \<^verbatim>\<open>%d\<close> of package fmt\<close>

fun show_nat :: "nat \<Rightarrow> gostring" where
  "show_nat n =
     (if n < 10 then [char_of (48 + n)] else show_nat (n div 10) @ [char_of (48 + n mod 10)])"

declare show_nat.simps [simp del]

definition show_int :: "int \<Rightarrow> gostring" where
  "show_int i = (if i < 0 then CHR ''-'' # show_nat (nat (- i)) else show_nat (nat i))"

lemma show_nat_nonempty [simp]: "show_nat n \<noteq> []"
  by (subst show_nat.simps) simp

section \<open>String literals outside ASCII\<close>

text \<open>Go source is UTF-8: a literal is the UTF-8 encoding of its code points.\<close>

definition utf8_char :: "nat \<Rightarrow> gostring" where
  "utf8_char c = map char_of
     (if c < 0x80 then [c]
      else if c < 0x800 then [0xC0 + c div 0x40, 0x80 + c mod 0x40]
      else if c < 0x10000 then [0xE0 + c div 0x1000, 0x80 + c div 0x40 mod 0x40, 0x80 + c mod 0x40]
      else [0xF0 + c div 0x40000, 0x80 + c div 0x1000 mod 0x40, 0x80 + c div 0x40 mod 0x40,
            0x80 + c mod 0x40])"

definition utf8 :: "nat list \<Rightarrow> gostring" where
  "utf8 cs = concat (map utf8_char cs)"

section \<open>Texts of the errors, as \<^verbatim>\<open>%v\<close> of package fmt prints them\<close>

primrec error_text :: "go_error \<Rightarrow> gostring" where
  "error_text EOF = ''EOF''"
| "error_text UnexpectedEOF = ''unexpected EOF''"
| "error_text VarintOverflow = ''binary: varint overflows a 64-bit integer''"
| "error_text NegativePosition = ''bytes.Reader.Seek: negative position''"
| "error_text (UnsupportedWireType w) = ''unsupported wire type: '' @ show_nat (unat w)"
| "error_text DeviceNotFound = ''device not found''"
| "error_text (OtherError msg) = msg"

text \<open>\<^verbatim>\<open>fmt.Errorf("...: %w", err)\<close>\<close>

definition wrap_error :: "gostring \<Rightarrow> go_error \<Rightarrow> go_error" where
  "wrap_error msg e = OtherError (msg @ '': '' @ error_text e)"

section \<open>Bytes and characters\<close>

definition bytes_to_string :: "u8 list \<Rightarrow> gostring" where
  "bytes_to_string bs = map (\<lambda>b. char_of (unat b)) bs"

definition string_to_bytes :: "gostring \<Rightarrow> u8 list" where
  "string_to_bytes s = map (\<lambda>c. word_of_nat (of_char c)) s"

lemma of_char_less_256 [simp]: "(of_char c :: nat) < 256"
  by (cases c) (simp add: of_char_def)

lemma bytes_string_bytes [simp]: "bytes_to_string (string_to_bytes s) = s"
proof -
  have "char_of (unat (word_of_nat (of_char c) :: u8)) = c" for c
    by (simp add: unat_of_nat take_bit_nat_def)
  then show ?thesis
    by (simp add: bytes_to_string_def string_to_bytes_def comp_def)
qed

lemma length_string_to_bytes [simp]: "length (string_to_bytes s) = length s"
  by (simp add: string_to_bytes_def)

lemma length_bytes_to_string [simp]: "length (bytes_to_string bs) = length bs"
  by (simp add: bytes_to_string_def)

section \<open>Lists split at a position\<close>

lemma take_drop_window:
  "take n (drop (length pre) (pre @ mid @ post)) = mid" if "n = length mid"
  using that by simp

lemma drop_drop_add: "drop m (drop n xs) = drop (m + n) xs"
  by simp

lemma set_map_filter: "y \<in> set (List.map_filter f xs) \<longleftrightarrow> (\<exists>x \<in> set xs. f x = Some y)"
  by (induction xs) (auto simp: List.map_filter_simps split: option.splits)

lemma length_map_filter_le: "length (List.map_filter f xs) \<le> length xs"
  by (induction xs) (auto simp: List.map_filter_simps split: option.splits)

section \<open>Bits of the varint masks\<close>

lemma low_bits: "(0x7F :: u64) = mask 7" "(0x7F :: u8) = mask 7" "(0x80 :: u64) = 2 ^ 7" "(0x80 :: u8) = 2 ^ 7"
  by (simp_all add: mask_eq_exp_minus_1)

lemma bit_0x7F: "bit (0x7F :: u64) n \<longleftrightarrow> n < 7" "bit (0x7F :: u8) n \<longleftrightarrow> n < 7"
  unfolding low_bits by (auto simp: bit_mask_iff)

lemma bit_127_int: "bit (127 :: int) n \<longleftrightarrow> n < 7" "bit (128 :: int) n \<longleftrightarrow> n = 7"
proof -
  have "(127 :: int) = mask 7" "(128 :: int) = 2 ^ 7" by (simp_all add: mask_eq_exp_minus_1)
  then show "bit (127 :: int) n \<longleftrightarrow> n < 7" "bit (128 :: int) n \<longleftrightarrow> n = 7"
    by (simp_all only: bit_mask_iff bit_exp_iff) auto
qed

lemma bit_0x80: "bit (0x80 :: u64) n \<longleftrightarrow> n = 7" "bit (0x80 :: u8) n \<longleftrightarrow> n = 7"
  unfolding low_bits by (auto simp only: bit_exp_iff) simp_all

end
