(* ===== verification/Go_Float.thy ===== *)
theory Go_Float
  imports Go_Base
begin

text \<open>
  The part of IEEE 754 arithmetic that the server uses, on bit patterns: a \<^verbatim>\<open>float64\<close> is a
  64-bit word and a \<^verbatim>\<open>float32\<close> a 32-bit word. Modelled are the comparisons \<^verbatim>\<open><\<close> and \<^verbatim>\<open>>\<close>
  (rule engine, handlers), the widening \<^verbatim>\<open>float64(math.Float32frombits(raw))\<close> (protobuf
  decoder), the conversion \<^verbatim>\<open>uint32(f)\<close> (handlers) and the rendering \<^verbatim>\<open>%.Nf\<close> (alert
  messages). A finite value is read as an exact integer multiple of the smallest
  subnormal: \<open>f64_scaled\<close> is the value times \<open>2 ^ 1074\<close>, \<open>f32_scaled\<close> the value times
  \<open>2 ^ 149\<close>. The main facts are that the comparison of the bit patterns is the comparison of
  those values, and that the widening is exact.
\<close>

type_synonym f64 = "64 word"
type_synonym f32 = "32 word"

section \<open>Fields of the bit patterns\<close>

definition f64_neg :: "f64 \<Rightarrow> bool" where
  "f64_neg x \<longleftrightarrow> 2 ^ 63 \<le> unat x"

definition f64_mag :: "f64 \<Rightarrow> nat" where
  "f64_mag x = unat x mod 2 ^ 63"

definition f64_inf_mag :: nat where
  "f64_inf_mag = 2047 * 2 ^ 52"

definition f64_is_nan :: "f64 \<Rightarrow> bool" where
  "f64_is_nan x \<longleftrightarrow> f64_inf_mag < f64_mag x"

definition f64_finite :: "f64 \<Rightarrow> bool" where
  "f64_finite x \<longleftrightarrow> f64_mag x < f64_inf_mag"

definition signed_mag :: "bool \<Rightarrow> nat \<Rightarrow> int" where
  "signed_mag neg m = (if neg then - int m else int m)"

text \<open>The comparison \<^verbatim>\<open>a < b\<close>: false when an operand is NaN, otherwise the order of
  sign-magnitude patterns, in which both zeros are equal.\<close>

definition f64_lt :: "f64 \<Rightarrow> f64 \<Rightarrow> bool" where
  "f64_lt a b \<longleftrightarrow> \<not> f64_is_nan a \<and> \<not> f64_is_nan b \<and>
     signed_mag (f64_neg a) (f64_mag a) < signed_mag (f64_neg b) (f64_mag b)"

definition f64_gt :: "f64 \<Rightarrow> f64 \<Rightarrow> bool" where
  "f64_gt a b = f64_lt b a"

section \<open>Values of finite numbers\<close>

definition mag_value :: "nat \<Rightarrow> nat \<Rightarrow> nat" where
  \<comment> \<open>\<open>p\<close> fraction bits: exponent 0 is subnormal, otherwise the leading one is implicit\<close>
  "mag_value p m = (if m div 2 ^ p = 0 then m mod 2 ^ p
                    else (2 ^ p + m mod 2 ^ p) * 2 ^ (m div 2 ^ p - 1))"

definition f64_scaled :: "f64 \<Rightarrow> int" where
  "f64_scaled x = signed_mag (f64_neg x) (mag_value 52 (f64_mag x))"

definition f32_neg :: "f32 \<Rightarrow> bool" where
  "f32_neg x \<longleftrightarrow> 2 ^ 31 \<le> unat x"

definition f32_mag :: "f32 \<Rightarrow> nat" where
  "f32_mag x = unat x mod 2 ^ 31"

definition f32_finite :: "f32 \<Rightarrow> bool" where
  "f32_finite x \<longleftrightarrow> f32_mag x < 255 * 2 ^ 23"

definition f32_scaled :: "f32 \<Rightarrow> int" where
  "f32_scaled x = signed_mag (f32_neg x) (mag_value 23 (f32_mag x))"

section \<open>Widening float32 to float64\<close>

fun msb_pos :: "nat \<Rightarrow> nat" where
  "msb_pos n = (if n < 2 then 0 else Suc (msb_pos (n div 2)))"

declare msb_pos.simps [simp del]

definition widen_fields :: "nat \<Rightarrow> nat \<Rightarrow> nat" where
  "widen_fields e f =
     (if e = 255 then
        \<comment> \<open>infinity, or NaN with its payload, made quiet\<close>
        2047 * 2 ^ 52 + (if f = 0 then 0 else (if f < 2 ^ 22 then f + 2 ^ 22 else f) * 2 ^ 29)
      else if e = 0 then
        \<comment> \<open>zero, or a subnormal that becomes normal\<close>
        (if f = 0 then 0
         else (msb_pos f + 874) * 2 ^ 52 + (f * 2 ^ (52 - msb_pos f) - 2 ^ 52))
      else (e + 896) * 2 ^ 52 + f * 2 ^ 29)"

definition widen_mag :: "nat \<Rightarrow> nat" where
  "widen_mag m = widen_fields (m div 2 ^ 23) (m mod 2 ^ 23)"

definition f32_to_f64 :: "f32 \<Rightarrow> f64" where
  "f32_to_f64 x = word_of_nat ((if f32_neg x then 2 ^ 63 else 0) + widen_mag (f32_mag x))"

section \<open>Truncation to uint32\<close>

text \<open>
  \<^verbatim>\<open>uint32(f)\<close> truncates towards zero. Go leaves the result for a value that does not fit
  (NaN, infinities, at most -1, at least \<open>2 ^ 32\<close>) to the implementation: \<open>oor\<close> stands for
  what the compiler in use produces there.
\<close>

definition f64_to_u32 :: "(f64 \<Rightarrow> u32) \<Rightarrow> f64 \<Rightarrow> u32" where
  "f64_to_u32 oor x =
     (let t = mag_value 52 (f64_mag x) div 2 ^ 1074
      in if \<not> f64_finite x \<or> (f64_neg x \<and> 0 < t) \<or> 2 ^ 32 \<le> t then oor x
         else word_of_nat t)"

section \<open>Decimal rendering, as \<^verbatim>\<open>%.Nf\<close> of package fmt\<close>

text \<open>The exact value is rounded to \<open>p\<close> decimals, ties to even, as strconv does.\<close>

definition round_half_even :: "nat \<Rightarrow> nat \<Rightarrow> nat" where
  "round_half_even a b =
     (let q = a div b; r = a mod b
      in if 2 * r < b \<or> (2 * r = b \<and> even q) then q else q + 1)"

definition pad_zeros :: "nat \<Rightarrow> gostring \<Rightarrow> gostring" where
  "pad_zeros n s = replicate (n - length s) CHR ''0'' @ s"

definition show_f64 :: "nat \<Rightarrow> f64 \<Rightarrow> gostring" where
  "show_f64 p x =
     (if f64_is_nan x then ''NaN''
      else if \<not> f64_finite x then (if f64_neg x then ''-Inf'' else ''+Inf'')
      else let n = round_half_even (mag_value 52 (f64_mag x) * 10 ^ p) (2 ^ 1074)
           in (if f64_neg x then ''-'' else []) @ show_nat (n div 10 ^ p) @
              (if p = 0 then [] else CHR ''.'' # pad_zeros p (show_nat (n mod 10 ^ p))))"

text \<open>Evaluation of closed float expressions by the simplifier.\<close>

lemmas f64_eval = f32_to_f64_def f32_neg_def f32_mag_def widen_mag_def widen_fields_def msb_pos.simps Let_def
  f64_to_u32_def f64_finite_def f64_inf_mag_def f64_neg_def f64_mag_def mag_value_def f64_is_nan_def
  show_f64_def round_half_even_def pad_zeros_def show_nat.simps f64_scaled_def signed_mag_def
lemma msb_pos_bounds: "0 < n \<Longrightarrow> 2 ^ msb_pos n \<le> n \<and> n < 2 ^ Suc (msb_pos n)"
proof (induction n rule: msb_pos.induct)
  case (1 n)
  show ?case
  proof (cases "n < 2")
    case True
    with "1.prems" show ?thesis by (subst (1 2) msb_pos.simps) auto
  next
    case False
    with "1.IH" have "2 ^ msb_pos (n div 2) \<le> n div 2 \<and> n div 2 < 2 ^ Suc (msb_pos (n div 2))"
      by auto
    with False show ?thesis by (subst (1 2) msb_pos.simps) auto
  qed
qed

section \<open>Order and values\<close>

lemma mag_value_less:
  assumes "m < m'"
  shows "mag_value p m < mag_value p m'"
proof -
  define e f e' f' where d: "e = m div 2 ^ p" "f = m mod 2 ^ p" "e' = m' div 2 ^ p" "f' = m' mod 2 ^ p"
  have fb: "f < 2 ^ p" "f' < 2 ^ p" by (simp_all add: d)
  have ee: "e \<le> e'" using assms by (simp add: d div_le_mono)
  show ?thesis
  proof (cases "e = e'")
    case True
    have "m = e * 2 ^ p + f" "m' = e' * 2 ^ p + f'" by (simp_all only: d div_mult_mod_eq)
    with assms True have "f < f'" by simp
    with True show ?thesis by (simp add: mag_value_def flip: d)
  next
    case False
    with ee have lt: "e < e'" by simp
    have up: "mag_value p m < 2 ^ p * 2 ^ e"
    proof (cases e)
      case 0
      then show ?thesis using fb by (simp add: mag_value_def flip: d)
    next
      case (Suc k)
      have "(2 ^ p + f) * 2 ^ k < (2 ^ p + 2 ^ p) * 2 ^ k" using fb by simp
      then show ?thesis using Suc by (simp add: mag_value_def flip: d)
    qed
    have "2 ^ p * 2 ^ e \<le> (2 ^ p :: nat) * 2 ^ (e' - 1)"
      using lt by (intro mult_left_mono power_increasing) auto
    also have "\<dots> \<le> (2 ^ p + f') * 2 ^ (e' - 1)" by simp
    also have "\<dots> = mag_value p m'" using lt by (simp add: mag_value_def flip: d)
    finally show ?thesis using up by simp
  qed
qed

lemma mag_value_less_iff [simp]: "mag_value p m < mag_value p m' \<longleftrightarrow> m < m'"
  by (metis mag_value_less linorder_neqE_nat order_less_asym)

lemma mag_value_0_iff [simp]: "mag_value p m = 0 \<longleftrightarrow> m = 0"
proof -
  have "mag_value p 0 = 0" by (simp add: mag_value_def)
  then show ?thesis by (metis mag_value_less_iff neq0_conv not_less0)
qed

lemma signed_mag_value_less_iff:
  "signed_mag s (mag_value p m) < signed_mag t (mag_value p n) \<longleftrightarrow> signed_mag s m < signed_mag t n"
proof -
  have "0 < mag_value p k \<longleftrightarrow> 0 < k" for k by (simp only: zero_less_iff_neq_zero mag_value_0_iff)
  note pos = this
  have le: "0 < mag_value p m + mag_value p n \<longleftrightarrow> 0 < m + n"
    by (simp only: add_gr_0 pos)
  show ?thesis
    using pos[of m] pos[of n] le mag_value_less_iff[of p m n] mag_value_less_iff[of p n m]
    unfolding signed_mag_def by (simp del: mag_value_less_iff mag_value_0_iff) linarith
qed

lemma f64_finite_not_nan: "f64_finite x \<Longrightarrow> \<not> f64_is_nan x"
  by (simp add: f64_finite_def f64_is_nan_def)

lemma f64_lt_value:
  "f64_finite a \<Longrightarrow> f64_finite b \<Longrightarrow> f64_lt a b \<longleftrightarrow> f64_scaled a < f64_scaled b"
  by (simp add: f64_lt_def f64_scaled_def f64_finite_not_nan signed_mag_value_less_iff)


section \<open>The widening is exact\<close>

lemma mag_value_join:
  "f < 2 ^ p \<Longrightarrow> mag_value p (e * 2 ^ p + f) = (if e = 0 then f else (2 ^ p + f) * 2 ^ (e - 1))"
  by (simp add: mag_value_def)

lemma widen_subnormal:
  assumes "2 ^ p \<le> f" and "f < 2 ^ Suc p" and "p + k = n"
  shows "mag_value n ((p + Suc c) * 2 ^ n + (f * 2 ^ k - 2 ^ n)) = f * 2 ^ (n + c)"
    and "(p + Suc c) * 2 ^ n + (f * 2 ^ k - 2 ^ n) < (p + Suc (Suc c)) * 2 ^ n"
proof -
  have lo: "2 ^ n \<le> f * 2 ^ k"
    using mult_right_mono[OF assms(1), of "2 ^ k"] assms(3) by (simp flip: power_add)
  have "f * 2 ^ k < 2 ^ Suc p * 2 ^ k" using assms(2) by simp
  also have "\<dots> = 2 * 2 ^ n" using assms(3) by (simp flip: power_add)
  finally have hi: "f * 2 ^ k - 2 ^ n < 2 ^ n" using lo by simp
  have "mag_value n ((p + Suc c) * 2 ^ n + (f * 2 ^ k - 2 ^ n)) = f * 2 ^ k * 2 ^ (p + c)"
    using lo by (simp only: mag_value_join[OF hi]) simp
  also have "\<dots> = f * 2 ^ (n + c)"
    using assms(3) by (simp only: mult.assoc flip: power_add) (simp add: add_ac)
  finally show "mag_value n ((p + Suc c) * 2 ^ n + (f * 2 ^ k - 2 ^ n)) = f * 2 ^ (n + c)" .
  show "(p + Suc c) * 2 ^ n + (f * 2 ^ k - 2 ^ n) < (p + Suc (Suc c)) * 2 ^ n"
    using hi by simp
qed

lemma widen_normal:
  assumes "f < 2 ^ q" and "q + k = n" and "0 < e"
  shows "mag_value n ((e + Suc c) * 2 ^ n + f * 2 ^ k) = (2 ^ q + f) * 2 ^ (e - 1) * 2 ^ (k + Suc c)"
    and "(e + Suc c) * 2 ^ n + f * 2 ^ k < (e + Suc (Suc c)) * 2 ^ n"
proof -
  have "f * 2 ^ k < 2 ^ q * 2 ^ k" using assms(1) by simp
  then have g: "f * 2 ^ k < 2 ^ n" using assms(2) by (simp flip: power_add)
  have "2 ^ n + f * 2 ^ k = (2 ^ q + f) * 2 ^ k"
    using assms(2) by (simp add: algebra_simps flip: power_add)
  then have "mag_value n ((e + Suc c) * 2 ^ n + f * 2 ^ k) = (2 ^ q + f) * 2 ^ k * 2 ^ (e + c)"
    by (simp only: mag_value_join[OF g]) simp
  also have "\<dots> = (2 ^ q + f) * (2 ^ (e - 1) * 2 ^ (k + Suc c))"
    using assms(3) by (simp only: mult.assoc flip: power_add) (simp add: add_ac)
  finally show "mag_value n ((e + Suc c) * 2 ^ n + f * 2 ^ k) = (2 ^ q + f) * 2 ^ (e - 1) * 2 ^ (k + Suc c)"
    by (simp only: mult.assoc)
  show "(e + Suc c) * 2 ^ n + f * 2 ^ k < (e + Suc (Suc c)) * 2 ^ n"
    using g by simp
qed

lemma widen_mag_zero: "widen_mag 0 = 0"
  by (simp add: widen_mag_def widen_fields_def)

lemma widen_mag_value:
  assumes "m < 255 * 2 ^ 23"
  shows "mag_value 52 (widen_mag m) = mag_value 23 m * 2 ^ 925 \<and> widen_mag m < f64_inf_mag"
proof -
  define e f where d: "e = m div 2 ^ 23" "f = m mod 2 ^ 23"
  have e: "e < 255" using assms by (simp add: d less_mult_imp_div_less)
  have f: "f < 2 ^ 23" by (simp add: d)
  have bound: "x < q * 2 ^ 52 \<Longrightarrow> q \<le> 2047 \<Longrightarrow> x < f64_inf_mag" for x q
    using mult_right_mono[of q 2047 "2 ^ 52"] by (simp add: f64_inf_mag_def)
  consider (zero) "m = 0" | (sub) "e = 0" "0 < f" | (normal) "0 < e"
    by (metis d div_mult_mod_eq gr0I add_0 mult_0)
  then show ?thesis
  proof cases
    case zero
    then show ?thesis by (simp add: widen_mag_zero f64_inf_mag_def mag_value_def)
  next
    case sub
    define p where "p = msb_pos f"
    have b: "2 ^ p \<le> f" "f < 2 ^ Suc p"
      using msb_pos_bounds[OF sub(2)] by (auto simp: p_def)
    have "p < 23"
      using order_le_less_trans[OF b(1) f] by (simp only: power_strict_increasing_iff)
    have c: "(52::nat) + 873 = 925" by simp
    from \<open>p < 23\<close> have k: "p + (52 - p) = 52" and q: "p + Suc (Suc 873) \<le> 2047" by simp_all
    have w: "widen_mag m = (p + Suc 873) * 2 ^ 52 + (f * 2 ^ (52 - p) - 2 ^ 52)"
      using sub by (simp only: widen_mag_def p_def flip: d) (simp add: widen_fields_def)
    have v: "mag_value 23 m = f" using sub by (simp only: mag_value_def flip: d) simp
    show ?thesis
      unfolding w v using widen_subnormal[OF b k, of 873] bound[OF _ q] unfolding c by blast
  next
    case normal
    have w: "widen_mag m = (e + Suc 895) * 2 ^ 52 + f * 2 ^ 29"
      using normal e by (simp only: widen_mag_def flip: d) (simp add: widen_fields_def)
    have v: "mag_value 23 m = (2 ^ 23 + f) * 2 ^ (e - 1)"
      using normal by (simp only: mag_value_def flip: d) simp
    have k: "(23::nat) + 29 = 52" and q: "e + Suc (Suc 895) \<le> 2047" using e by simp_all
    have c: "(29::nat) + Suc 895 = 925" by simp
    show ?thesis
      unfolding w v using widen_normal[OF f k normal, of 895] bound[OF _ q] unfolding c by blast
  qed
qed


lemma f64_inf_mag_less: "f64_inf_mag < 2 ^ 63"
  by (simp add: f64_inf_mag_def)

lemma widen_mag_less: "m < 2 ^ 31 \<Longrightarrow> widen_mag m < 2 ^ 63"
proof (cases "m < 255 * 2 ^ 23")
  case True
  from widen_mag_value[OF True] f64_inf_mag_less show ?thesis by (meson order_less_trans)
next
  case False
  assume "m < 2 ^ 31"
  with False have "m div 2 ^ 23 = 255" by simp
  moreover have "m mod 2 ^ 23 < 2 ^ 23" by simp
  ultimately show ?thesis
    by (simp only: widen_mag_def) (simp add: widen_fields_def)
qed

lemma f32_mag_less: "f32_mag x < 2 ^ 31"
  by (simp add: f32_mag_def)

lemma f32_to_f64_fields:
  "f64_neg (f32_to_f64 x) = f32_neg x" "f64_mag (f32_to_f64 x) = widen_mag (f32_mag x)"
proof -
  define w where "w = widen_mag (f32_mag x)"
  have w: "w < 2 ^ 63" unfolding w_def by (rule widen_mag_less[OF f32_mag_less])
  have small: "(if f32_neg x then 2 ^ 63 else 0) + w < 2 ^ 64"
    using w by simp
  have "unat (f32_to_f64 x) = (if f32_neg x then 2 ^ 63 else 0) + w"
    by (simp only: f32_to_f64_def unat_of_nat flip: w_def)
       (rule mod_less, use small in simp)
  with w show "f64_neg (f32_to_f64 x) = f32_neg x" "f64_mag (f32_to_f64 x) = widen_mag (f32_mag x)"
    by (auto simp: f64_neg_def f64_mag_def simp flip: w_def)
qed

lemma f32_to_f64_finite: "f32_finite x \<Longrightarrow> f64_finite (f32_to_f64 x)"
  unfolding f32_finite_def f64_finite_def f32_to_f64_fields using widen_mag_value by blast

lemma f32_to_f64_exact:
  assumes "f32_finite x"
  shows "f64_scaled (f32_to_f64 x) = f32_scaled x * 2 ^ 925"
proof -
  have "mag_value 52 (widen_mag (f32_mag x)) = mag_value 23 (f32_mag x) * 2 ^ 925"
    using assms widen_mag_value unfolding f32_finite_def by blast
  then show ?thesis
    unfolding f64_scaled_def f32_scaled_def f32_to_f64_fields signed_mag_def
    by (simp only: of_nat_mult of_nat_power of_nat_numeral) simp
qed

lemma f32_to_f64_lt:
  "f32_finite x \<Longrightarrow> f32_finite y \<Longrightarrow>
     f64_lt (f32_to_f64 x) (f32_to_f64 y) \<longleftrightarrow> f32_scaled x < f32_scaled y"
  by (simp add: f64_lt_value f32_to_f64_finite f32_to_f64_exact)

lemma f32_to_f64_nan:
  assumes "f32_mag x > 255 * 2 ^ 23"
  shows "f64_is_nan (f32_to_f64 x)"
proof -
  have "f32_mag x div 2 ^ 23 = 255" using assms f32_mag_less[of x] by simp
  moreover have "f32_mag x = f32_mag x div 2 ^ 23 * 2 ^ 23 + f32_mag x mod 2 ^ 23"
    by (simp only: div_mult_mod_eq)
  ultimately have "f32_mag x div 2 ^ 23 = 255" and "f32_mag x mod 2 ^ 23 \<noteq> 0"
    using assms by (auto simp only: add_0_right)
  then have "widen_mag (f32_mag x) > f64_inf_mag"
    by (simp only: widen_mag_def) (simp add: widen_fields_def f64_inf_mag_def)
  then show ?thesis by (simp add: f64_is_nan_def f32_to_f64_fields)
qed

section \<open>Order laws\<close>

lemma f64_lt_irrefl [simp]: "\<not> f64_lt a a"
  by (simp add: f64_lt_def)

lemma f64_lt_trans: "f64_lt a b \<Longrightarrow> f64_lt b c \<Longrightarrow> f64_lt a c"
  by (auto simp: f64_lt_def)

lemma f64_lt_asym: "f64_lt a b \<Longrightarrow> \<not> f64_lt b a"
  by (auto simp: f64_lt_def)

lemma f64_lt_nan [simp]: "f64_is_nan a \<Longrightarrow> \<not> f64_lt a b" "f64_is_nan b \<Longrightarrow> \<not> f64_lt a b"
  by (simp_all add: f64_lt_def)

text \<open>The truncation is the integer part of a value that fits.\<close>

lemma f64_to_u32_floor:
  assumes "f64_finite x" and "0 \<le> f64_scaled x" and "f64_scaled x < 2 ^ 32 * 2 ^ 1074"
  shows "int (unat (f64_to_u32 oor x)) = f64_scaled x div 2 ^ 1074"
proof -
  define v where "v = mag_value 52 (f64_mag x)"
  have sc: "f64_scaled x = signed_mag (f64_neg x) v" by (simp add: f64_scaled_def v_def)
  have pos: "f64_scaled x = int v"
    using assms(2) sc by (cases "f64_neg x") (simp_all add: signed_mag_def)
  have vb: "v < 2 ^ 32 * 2 ^ 1074"
  proof -
    have "int v < int (2 ^ 32 * 2 ^ 1074)" using assms(3) pos
      by (simp only: of_nat_mult of_nat_power of_nat_numeral)
    then show ?thesis by (simp only: of_nat_less_iff)
  qed
  then have t: "v div 2 ^ 1074 < 2 ^ 32" by (rule less_mult_imp_div_less)
  have neg: "f64_neg x \<Longrightarrow> v = 0"
    using sc pos by (simp add: signed_mag_def)
  have "f64_to_u32 oor x = word_of_nat (v div 2 ^ 1074)"
    using assms(1) t neg
    by (simp only: f64_to_u32_def Let_def flip: v_def) (auto simp del: power_numeral)
  then have "unat (f64_to_u32 oor x) = v div 2 ^ 1074"
    using t by (simp only: unat_of_nat) (simp add: take_bit_nat_eq_self)
  then show ?thesis
    unfolding pos by (simp only: of_nat_div of_nat_power of_nat_numeral)
qed

end
