(* ===== verification/Models.thy ===== *)
theory Models
  imports Go_Float
begin

text \<open>
  The data model of package \<^verbatim>\<open>models\<close> (server/storage/models/types.go). Structs are records
  with the fields in the source's order, \<^verbatim>\<open>*T\<close> fields that are only read are \<open>'t option\<close>
  (None is nil), and \<^verbatim>\<open>float64\<close> fields hold the IEEE 754 bit pattern (see theory
  Go_Float). A \<^verbatim>\<open>map[string]interface{}\<close> holds the values that package encoding/json
  produces for \<^verbatim>\<open>interface{}\<close>; a nil map is None.
\<close>

datatype json_value =
    JNull
  | JBool bool
  | JNumber f64          \<comment> \<open>encoding/json decodes every number to float64\<close>
  | JString gostring
  | JArray "json_value list"
  | JObject "(gostring \<times> json_value) list"
  | JUint u32                 \<comment> \<open>a Go \<^verbatim>\<open>uint32\<close> boxed by the server itself\<close>
  | JInt i32                  \<comment> \<open>a Go \<^verbatim>\<open>int32\<close> boxed by the server itself\<close>

text \<open>A Go map keyed by strings, as an association list with distinct keys; \<open>map_of\<close> is the
  lookup.\<close>

type_synonym json_map = "(gostring \<times> json_value) list"

record message_header =
  DeviceID :: gostring
  Timestamp :: i64
  SeqNo :: u32
  FirmwareVersion :: gostring
  BootCount :: u32

record metrics_data =
  Temperature :: f64
  Humidity :: f64
  BatteryVoltage :: f64
  BatteryLevelPct :: u32
  RSSI :: i32
  IntervalSec :: u32
  CustomValues :: "json_map option"

record device_status =
  State :: gostring
  UptimeSec :: u32
  FreeHeapBytes :: u32

record telemetry_payload =
  Header :: message_header
  Metrics :: metrics_data
  Status :: "device_status option"

record event_detail =
  EventType :: gostring
  Severity :: gostring
  EvMessage :: gostring
  Details :: "json_map option"

record event_payload =
  EvHeader :: message_header
  Event :: event_detail

record ota_info =
  Available :: bool
  TargetVersion :: gostring
  PackageURL :: gostring
  SHA256 :: gostring
  SizeBytes :: u32
  Mandatory :: bool

record device_command =
  CommandID :: gostring
  Action :: gostring
  Params :: "json_map option"

record api_response =
  RespStatus :: gostring
  RespMessage :: gostring
  ServerTime :: i64
  SleepIntervalSec :: u32
  OTA :: "ota_info option"
  Commands :: "device_command list"

text \<open>Times are the \<^verbatim>\<open>time.Time\<close> instants as nanoseconds since the epoch; the zero
  \<^verbatim>\<open>time.Time\<close> of a fresh struct is a constant of its own.\<close>

type_synonym time = int

definition zero_time :: time where
  "zero_time = - 62135596800 * 1000000000"

text \<open>\<^verbatim>\<open>time.Unix()\<close>: whole seconds, rounded down, as an \<^verbatim>\<open>int64\<close>.\<close>

definition unix_seconds :: "time \<Rightarrow> i64" where
  "unix_seconds t = word_of_int (t div 1000000000)"

record device_state =
  DevID :: gostring
  DevFirmware :: gostring
  LastSeenAt :: time
  LastSeqNo :: u32
  LastMetrics :: metrics_data
  LastStatus :: "device_status option"
  DevStatus :: gostring
  TotalTelemetries :: u64
  PendingCommandsCount :: int
  CurrentIntervalSec :: u32

section \<open>Zero values of the structs\<close>

definition zero_header :: message_header where
  "zero_header = \<lparr>DeviceID = [], Timestamp = 0, SeqNo = 0, FirmwareVersion = [], BootCount = 0\<rparr>"

definition zero_metrics :: metrics_data where
  "zero_metrics = \<lparr>Temperature = 0, Humidity = 0, BatteryVoltage = 0, BatteryLevelPct = 0,
     RSSI = 0, IntervalSec = 0, CustomValues = None\<rparr>"

definition zero_status :: device_status where
  "zero_status = \<lparr>State = [], UptimeSec = 0, FreeHeapBytes = 0\<rparr>"

definition zero_ota :: ota_info where
  "zero_ota = \<lparr>Available = False, TargetVersion = [], PackageURL = [], SHA256 = [],
     SizeBytes = 0, Mandatory = False\<rparr>"

definition zero_response :: api_response where
  "zero_response = \<lparr>RespStatus = [], RespMessage = [], ServerTime = 0, SleepIntervalSec = 0,
     OTA = None, Commands = []\<rparr>"

definition zero_device :: device_state where
  "zero_device = \<lparr>DevID = [], DevFirmware = [], LastSeenAt = zero_time, LastSeqNo = 0,
     LastMetrics = zero_metrics, LastStatus = None, DevStatus = [], TotalTelemetries = 0,
     PendingCommandsCount = 0, CurrentIntervalSec = 0\<rparr>"

end
