(* ===== verification/Repository.thy ===== *)
theory Repository
  imports Models
begin

text \<open>
  The interface \<^verbatim>\<open>storage.Repository\<close> (server/storage/repository.go): a Go interface value is
  the record of its methods over the implementation's state \<open>'s\<close>. A method takes the current
  time where its implementations read the clock, and returns its result with the new state;
  the methods that only read return no state.

  The locale \<open>repository_contract\<close> states what the HTTP handlers and the rule engine rely on
  in an implementation. The implementations interpret it (Memory_Repo).
\<close>

record 's repository =
  SaveTelemetry :: "time \<Rightarrow> telemetry_payload \<Rightarrow> 's \<Rightarrow> unit outcome \<times> 's"
  GetDevice :: "gostring \<Rightarrow> 's \<Rightarrow> device_state outcome"
  ListDevices :: "'s \<Rightarrow> device_state slice"
  SaveEvent :: "time \<Rightarrow> event_payload \<Rightarrow> 's \<Rightarrow> unit outcome \<times> 's"
  GetTelemetryHistory :: "gostring \<Rightarrow> int \<Rightarrow> 's \<Rightarrow> telemetry_payload slice outcome"
  QueueCommand :: "time \<Rightarrow> gostring \<Rightarrow> device_command \<Rightarrow> 's \<Rightarrow> unit outcome \<times> 's"
  GetPendingCommands :: "time \<Rightarrow> gostring \<Rightarrow> 's \<Rightarrow> device_command list outcome \<times> 's"
  AckCommand :: "time \<Rightarrow> gostring \<Rightarrow> gostring \<Rightarrow> gostring \<Rightarrow> 's \<Rightarrow> unit outcome \<times> 's"

abbreviation payload_id :: "telemetry_payload \<Rightarrow> gostring" where
  "payload_id t \<equiv> DeviceID (Header t)"

text \<open>The device entry that a saved telemetry leaves behind.\<close>

definition reports :: "time \<Rightarrow> telemetry_payload \<Rightarrow> device_state \<Rightarrow> bool" where
  "reports now t d \<longleftrightarrow> DevID d = payload_id t \<and> DevFirmware d = FirmwareVersion (Header t) \<and>
     LastSeenAt d = now \<and> LastSeqNo d = SeqNo (Header t) \<and>
     BatteryLevelPct (LastMetrics d) = BatteryLevelPct (Metrics t) \<and>
     RSSI (LastMetrics d) = RSSI (Metrics t) \<and> DevStatus d = ''ONLINE''"

locale repository_contract =
  fixes ops :: "'s repository"
    and inv :: "'s \<Rightarrow> bool"
  assumes inv_save: "inv s \<Longrightarrow> inv (snd (SaveTelemetry ops now t s))"
    and inv_event: "inv s \<Longrightarrow> inv (snd (SaveEvent ops now e s))"
    and inv_queue: "inv s \<Longrightarrow> inv (snd (QueueCommand ops now dev c s))"
    and inv_pending: "inv s \<Longrightarrow> inv (snd (GetPendingCommands ops now dev s))"
    and inv_ack: "inv s \<Longrightarrow> inv (snd (AckCommand ops now dev cid res s))"
    and save_failed: "inv s \<Longrightarrow> SaveTelemetry ops now t s = (r, s') \<Longrightarrow> r \<noteq> Ok () \<Longrightarrow> s' = s"
    and save_reports: "inv s \<Longrightarrow> SaveTelemetry ops now t s = (Ok (), s') \<Longrightarrow>
      \<exists>d. GetDevice ops (payload_id t) s' = Ok d \<and> reports now t d"
    and save_counts: "inv s \<Longrightarrow> SaveTelemetry ops now t s = (Ok (), s') \<Longrightarrow>
      GetDevice ops (payload_id t) s = Ok d \<Longrightarrow> GetDevice ops (payload_id t) s' = Ok d' \<Longrightarrow>
      TotalTelemetries d' = TotalTelemetries d + 1"
    and save_other: "inv s \<Longrightarrow> SaveTelemetry ops now t s = (r, s') \<Longrightarrow> dev \<noteq> payload_id t \<Longrightarrow>
      GetDevice ops dev s' = GetDevice ops dev s"
    and event_device: "inv s \<Longrightarrow> GetDevice ops dev (snd (SaveEvent ops now e s)) = GetDevice ops dev s"
    and queue_device: "inv s \<Longrightarrow> GetDevice ops dev (snd (QueueCommand ops now dev' c s)) = GetDevice ops dev s"
    and pending_device: "inv s \<Longrightarrow> GetDevice ops dev (snd (GetPendingCommands ops now dev' s)) = GetDevice ops dev s"
    and ack_device: "inv s \<Longrightarrow> GetDevice ops dev (snd (AckCommand ops now dev' cid res s)) = GetDevice ops dev s"
    and ack_removes: "inv s \<Longrightarrow> AckCommand ops now dev cid res s = (Ok (), s') \<Longrightarrow>
      GetPendingCommands ops now' dev s' = (Ok cs, s'') \<Longrightarrow> c \<in> set cs \<Longrightarrow> CommandID c \<noteq> cid"

end
