(* ===== verification/Memory_Repo.thy ===== *)
theory Memory_Repo
  imports Repository
begin

text \<open>
  \<^verbatim>\<open>InMemoryRepository\<close> (server/storage/repository.go). The \<^verbatim>\<open>devices\<close> map holds pointers:
  \<^verbatim>\<open>GetDevice\<close> and \<^verbatim>\<open>ListDevices\<close> hand out the live entries, which later calls of
  \<^verbatim>\<open>SaveTelemetry\<close> mutate. So the device entries are in a heap, and the map goes from ids to
  addresses. The other three maps are appended to and never mutated in place: their slices
  are lists. (The \<^verbatim>\<open>*DeviceCommand\<close> pointers of the commands map are never written through,
  so the commands themselves stand for them.) Every method holds the repository's lock for
  its whole body, so a method is one step.
\<close>

type_synonym addr = nat

record mem_repo =
  devices :: "(gostring \<times> addr) list"
  heap :: "addr \<rightharpoonup> device_state"
  next_addr :: addr
  telemetries :: "gostring \<rightharpoonup> telemetry_payload list"
  events :: "gostring \<rightharpoonup> event_payload list"
  commands :: "gostring \<rightharpoonup> device_command list"

definition NewInMemoryRepository :: mem_repo where
  "NewInMemoryRepository = \<lparr>devices = [], heap = Map.empty, next_addr = 0,
     telemetries = Map.empty, events = Map.empty, commands = Map.empty\<rparr>"

text \<open>A read of a missing key of a map of slices is the nil slice.\<close>

definition slice_of :: "('k \<rightharpoonup> 'v list) \<Rightarrow> 'k \<Rightarrow> 'v list" where
  "slice_of m k = (case m k of None \<Rightarrow> [] | Some xs \<Rightarrow> xs)"

definition append_at :: "('k \<rightharpoonup> 'v list) \<Rightarrow> 'k \<Rightarrow> 'v \<Rightarrow> ('k \<rightharpoonup> 'v list)" where
  "append_at m k v = m(k \<mapsto> slice_of m k @ [v])"

section \<open>The methods\<close>

text \<open>The assignments of \<^verbatim>\<open>SaveTelemetry\<close> to the entry; the counter wraps at 64 bits.\<close>

definition update_device :: "time \<Rightarrow> telemetry_payload \<Rightarrow> device_state \<Rightarrow> device_state" where
  "update_device now t dev = dev\<lparr>DevFirmware := FirmwareVersion (Header t), LastSeenAt := now,
     LastSeqNo := SeqNo (Header t), LastMetrics := Metrics t, LastStatus := Status t,
     DevStatus := ''ONLINE'', TotalTelemetries := TotalTelemetries dev + 1\<rparr>"

text \<open>The entry of a device, created when the map has none.\<close>

definition device_entry :: "gostring \<Rightarrow> mem_repo \<Rightarrow> addr \<times> mem_repo" where
  "device_entry dev r =
     (case map_of (devices r) dev of
        Some p \<Rightarrow> (p, r)
      | None \<Rightarrow> (next_addr r,
          r\<lparr>devices := devices r @ [(dev, next_addr r)],
            heap := (heap r)(next_addr r \<mapsto> zero_device\<lparr>DevID := dev\<rparr>),
            next_addr := Suc (next_addr r)\<rparr>))"

definition mem_SaveTelemetry :: "time \<Rightarrow> telemetry_payload \<Rightarrow> mem_repo \<Rightarrow> unit outcome \<times> mem_repo" where
  "mem_SaveTelemetry now t r =
     (let dev = payload_id t; (p, r1) = device_entry dev r
      in (Ok (), r1\<lparr>heap := (heap r1)(p := map_option (update_device now t) (heap r1 p)),
                     telemetries := append_at (telemetries r1) dev t\<rparr>))"

definition mem_SaveEvent :: "event_payload \<Rightarrow> mem_repo \<Rightarrow> unit outcome \<times> mem_repo" where
  "mem_SaveEvent e r = (Ok (), r\<lparr>events := append_at (events r) (DeviceID (EvHeader e)) e\<rparr>)"

text \<open>The pointer that \<^verbatim>\<open>GetDevice\<close> returns, and what a read through a pointer sees.\<close>

definition mem_GetDevice :: "gostring \<Rightarrow> mem_repo \<Rightarrow> addr outcome" where
  "mem_GetDevice dev r = (case map_of (devices r) dev of None \<Rightarrow> Err DeviceNotFound | Some p \<Rightarrow> Ok p)"

definition deref :: "mem_repo \<Rightarrow> addr \<Rightarrow> device_state outcome" where
  "deref r p = (case heap r p of None \<Rightarrow> Panic | Some d \<Rightarrow> Ok d)"

text \<open>The order of a \<^verbatim>\<open>range\<close> over a Go map is not specified: \<open>order\<close> permutes the keys.\<close>

definition mem_ListDevices :: "(gostring list \<Rightarrow> gostring list) \<Rightarrow> mem_repo \<Rightarrow> addr list" where
  "mem_ListDevices order r =
     List.map_filter (map_of (devices r)) (order (map fst (devices r)))"

definition mem_GetTelemetryHistory :: "gostring \<Rightarrow> int \<Rightarrow> mem_repo \<Rightarrow> telemetry_payload slice outcome" where
  "mem_GetTelemetryHistory dev limit r =
     (case telemetries r dev of
        None \<Rightarrow> Ok (Some [])
      | Some hist \<Rightarrow>
          if 0 < limit \<and> limit < int (length hist)
          then Ok (Some (drop (length hist - nat limit) hist))
          else Ok (Some hist))"

definition mem_QueueCommand :: "gostring \<Rightarrow> device_command \<Rightarrow> mem_repo \<Rightarrow> unit outcome \<times> mem_repo" where
  "mem_QueueCommand dev c r = (Ok (), r\<lparr>commands := append_at (commands r) dev c\<rparr>)"

definition mem_GetPendingCommands :: "gostring \<Rightarrow> mem_repo \<Rightarrow> device_command list outcome" where
  "mem_GetPendingCommands dev r =
     (case commands r dev of None \<Rightarrow> Ok [] | Some cmds \<Rightarrow> Ok cmds)"

definition mem_AckCommand :: "gostring \<Rightarrow> gostring \<Rightarrow> mem_repo \<Rightarrow> unit outcome \<times> mem_repo" where
  "mem_AckCommand dev cid r =
     (Ok (), r\<lparr>commands := (commands r)(dev \<mapsto> filter (\<lambda>c. CommandID c \<noteq> cid) (slice_of (commands r) dev))\<rparr>)"

text \<open>The method table. A caller that uses a device pointer at once sees the entry itself.\<close>

definition read_device :: "gostring \<Rightarrow> mem_repo \<Rightarrow> device_state outcome" where
  "read_device dev r = bind_outcome (mem_GetDevice dev r) (deref r)"

definition mem_ops :: "(gostring list \<Rightarrow> gostring list) \<Rightarrow> mem_repo repository" where
  "mem_ops order = \<lparr>
     SaveTelemetry = mem_SaveTelemetry,
     GetDevice = read_device,
     ListDevices = (\<lambda>r. Some (List.map_filter (heap r) (mem_ListDevices order r))),
     SaveEvent = (\<lambda>now. mem_SaveEvent),
     GetTelemetryHistory = mem_GetTelemetryHistory,
     QueueCommand = (\<lambda>now. mem_QueueCommand),
     GetPendingCommands = (\<lambda>now dev r. (mem_GetPendingCommands dev r, r)),
     AckCommand = (\<lambda>now dev cid res. mem_AckCommand dev cid)\<rparr>"

section \<open>The invariant\<close>

text \<open>
  What every operation keeps: the addresses of the entries are distinct, allocated and below
  the next free one; an entry carries its key as id; the entry's counter is the number of
  stored telemetries (modulo \<open>2 ^ 64\<close>) and its last values are those of the newest one; and
  every stored telemetry and event is filed under its own device id.
\<close>

definition entry_ok :: "mem_repo \<Rightarrow> gostring \<Rightarrow> device_state \<Rightarrow> bool" where
  "entry_ok r dev d \<longleftrightarrow> DevID d = dev \<and> DevStatus d = ''ONLINE'' \<and>
     slice_of (telemetries r) dev \<noteq> [] \<and>
     TotalTelemetries d = word_of_nat (length (slice_of (telemetries r) dev)) \<and>
     (let t = last (slice_of (telemetries r) dev)
      in DevFirmware d = FirmwareVersion (Header t) \<and> LastSeqNo d = SeqNo (Header t) \<and>
         LastMetrics d = Metrics t \<and> LastStatus d = Status t)"

definition mem_inv :: "mem_repo \<Rightarrow> bool" where
  "mem_inv r \<longleftrightarrow> distinct (map fst (devices r)) \<and> distinct (map snd (devices r)) \<and>
     (\<forall>(dev, p) \<in> set (devices r). p < next_addr r \<and> (\<exists>d. heap r p = Some d \<and> entry_ok r dev d)) \<and>
     (\<forall>dev. dev \<notin> fst ` set (devices r) \<longrightarrow> slice_of (telemetries r) dev = []) \<and>
     (\<forall>dev. \<forall>t \<in> set (slice_of (telemetries r) dev). payload_id t = dev) \<and>
     (\<forall>dev. \<forall>e \<in> set (slice_of (events r) dev). DeviceID (EvHeader e) = dev)"

section \<open>Lookups after updates\<close>

lemma slice_of_append_at [simp]:
  "slice_of (append_at m k v) k' = (if k' = k then slice_of m k @ [v] else slice_of m k')"
  by (simp add: slice_of_def append_at_def)

lemma slice_of_upd [simp]: "slice_of (m(k \<mapsto> xs)) k' = (if k' = k then xs else slice_of m k')"
  by (simp add: slice_of_def)

lemma slice_of_empty [simp]: "slice_of Map.empty k = []"
  by (simp add: slice_of_def)

lemma mem_inv_new: "mem_inv NewInMemoryRepository"
  by (simp add: mem_inv_def NewInMemoryRepository_def)

text \<open>An address belongs to one device only.\<close>

lemma mem_inv_entry:
  assumes "mem_inv r" and "map_of (devices r) dev = Some p"
  shows "p < next_addr r" and "\<exists>d. heap r p = Some d \<and> entry_ok r dev d"
    and "map_of (devices r) dev' = Some p \<Longrightarrow> dev' = dev"
proof -
  from map_of_SomeD[OF assms(2)] assms(1)
  show "p < next_addr r" "\<exists>d. heap r p = Some d \<and> entry_ok r dev d"
    by (auto simp: mem_inv_def)
  assume "map_of (devices r) dev' = Some p"
  then have "(dev', p) \<in> set (devices r)" "(dev, p) \<in> set (devices r)"
    using assms(2) by (auto dest: map_of_SomeD)
  moreover have "inj_on snd (set (devices r))" using assms(1) by (simp add: mem_inv_def distinct_map)
  ultimately show "dev' = dev" by (metis fst_conv snd_conv inj_onD)
qed

lemma mem_inv_no_entry:
  "mem_inv r \<Longrightarrow> map_of (devices r) dev = None \<Longrightarrow> slice_of (telemetries r) dev = []"
  by (auto simp: mem_inv_def map_of_eq_None_iff)

text \<open>\<^verbatim>\<open>SaveTelemetry\<close> on the lookups it changes: one equation per branch.\<close>

lemma save_result [simp]: "fst (mem_SaveTelemetry now t r) = Ok ()"
  by (simp add: mem_SaveTelemetry_def Let_def case_prod_beta)

lemma save_tables [repo_simps]:
  "telemetries (snd (mem_SaveTelemetry now t r)) = append_at (telemetries r) (payload_id t) t"
  "events (snd (mem_SaveTelemetry now t r)) = events r"
  "commands (snd (mem_SaveTelemetry now t r)) = commands r"
  by (auto simp: mem_SaveTelemetry_def device_entry_def Let_def split: option.splits)

lemma save_known [repo_simps]:
  assumes "map_of (devices r) (payload_id t) = Some p"
  shows "devices (snd (mem_SaveTelemetry now t r)) = devices r"
    and "next_addr (snd (mem_SaveTelemetry now t r)) = next_addr r"
    and "heap (snd (mem_SaveTelemetry now t r)) = (heap r)(p := map_option (update_device now t) (heap r p))"
  using assms by (simp_all add: mem_SaveTelemetry_def device_entry_def Let_def)

lemma save_unknown [repo_simps]:
  assumes "map_of (devices r) (payload_id t) = None"
  shows "devices (snd (mem_SaveTelemetry now t r)) = devices r @ [(payload_id t, next_addr r)]"
    and "next_addr (snd (mem_SaveTelemetry now t r)) = Suc (next_addr r)"
    and "heap (snd (mem_SaveTelemetry now t r)) =
      (heap r)(next_addr r \<mapsto> update_device now t (zero_device\<lparr>DevID := payload_id t\<rparr>))"
  using assms by (simp_all add: mem_SaveTelemetry_def device_entry_def Let_def)

lemma entry_ok_updated:
  assumes "DevID d = payload_id t"
    and "TotalTelemetries d = word_of_nat (length (slice_of (telemetries r) (payload_id t)))"
  shows "entry_ok (snd (mem_SaveTelemetry now t r)) (payload_id t) (update_device now t d)"
  using assms by (simp add: entry_ok_def update_device_def save_tables)

lemma entry_ok_other:
  "dev \<noteq> payload_id t \<Longrightarrow> entry_ok (snd (mem_SaveTelemetry now t r)) dev d = entry_ok r dev d"
  by (simp add: entry_ok_def save_tables)

lemma mem_inv_save: 
  assumes inv: "mem_inv r"
  shows "mem_inv (snd (mem_SaveTelemetry now t r))"
proof (cases "map_of (devices r) (payload_id t)")
  case None
  let ?r = "snd (mem_SaveTelemetry now t r)"
  have new: "payload_id t \<notin> fst ` set (devices r)" using None by (simp add: map_of_eq_None_iff)
  have old: "p < next_addr r \<and> (\<exists>d. heap ?r p = Some d \<and> entry_ok ?r dev d)"
    if "(dev, p) \<in> set (devices r)" for dev p
  proof -
    have "dev \<noteq> payload_id t" using new that by force
    with that inv show ?thesis
      by (force simp: mem_inv_def save_unknown[OF None] entry_ok_other)
  qed
  have "entry_ok ?r (payload_id t) (update_device now t (zero_device\<lparr>DevID := payload_id t\<rparr>))"
    using mem_inv_no_entry[OF inv None] by (intro entry_ok_updated) (simp_all add: zero_device_def)
  then have new_ok: "\<exists>d. heap ?r (next_addr r) = Some d \<and> entry_ok ?r (payload_id t) d"
    by (simp add: save_unknown(3)[OF None])
  have addrs: "next_addr r \<notin> snd ` set (devices r)" using inv by (auto simp: mem_inv_def)
  show ?thesis
    unfolding mem_inv_def
  proof (intro conjI)
    show "distinct (map fst (devices ?r))" "distinct (map snd (devices ?r))"
      using inv new addrs by (simp_all add: save_unknown[OF None] mem_inv_def)
    show "\<forall>(dev, p) \<in> set (devices ?r). p < next_addr ?r \<and> (\<exists>d. heap ?r p = Some d \<and> entry_ok ?r dev d)"
      unfolding save_unknown(1,2)[OF None] using old new_ok by (auto simp: less_SucI)
  qed (use inv in \<open>auto simp: save_unknown(1)[OF None] save_tables mem_inv_def\<close>)
next
  case (Some p)
  let ?r = "snd (mem_SaveTelemetry now t r)"
  note e = mem_inv_entry[OF inv Some]
  from e(2) obtain d where d: "heap r p = Some d" "entry_ok r (payload_id t) d" by blast
  have up: "entry_ok ?r (payload_id t) (update_device now t d)"
    using d(2) by (intro entry_ok_updated) (simp_all add: entry_ok_def)
  have old: "q < next_addr r \<and> (\<exists>d. heap ?r q = Some d \<and> entry_ok ?r dev d)"
    if q: "(dev, q) \<in> set (devices r)" for dev q
  proof -
    have m: "map_of (devices r) dev = Some q" using q inv by (simp add: mem_inv_def)
    show ?thesis
    proof (cases "dev = payload_id t")
      case True
      with m Some d up e(1) show ?thesis by (simp add: save_known[OF Some])
    next
      case False
      then have "q \<noteq> p" using e(3) m by auto
      with False q inv show ?thesis
        by (force simp: mem_inv_def save_known[OF Some] entry_ok_other)
    qed
  qed
  have dom: "payload_id t \<in> fst ` set (devices r)"
    using Some by (force dest: map_of_SomeD)
  show ?thesis
    unfolding mem_inv_def
  proof (intro conjI)
    show "\<forall>(dev, p) \<in> set (devices ?r). p < next_addr ?r \<and> (\<exists>d. heap ?r p = Some d \<and> entry_ok ?r dev d)"
      unfolding save_known(1,2)[OF Some] using old by blast
  qed (use inv dom in \<open>auto simp: save_known(1)[OF Some] save_tables mem_inv_def\<close>)
qed

lemma mem_inv_other_ops:
  assumes "mem_inv r"
  shows "mem_inv (snd (mem_SaveEvent e r))" and "mem_inv (snd (mem_QueueCommand dev c r))"
    and "mem_inv (snd (mem_AckCommand dev cid r))"
  using assms
  by (auto simp: mem_inv_def mem_SaveEvent_def mem_QueueCommand_def mem_AckCommand_def entry_ok_def)

lemma read_device_cases:
  "read_device dev r = (case map_of (devices r) dev of None \<Rightarrow> Err DeviceNotFound | Some p \<Rightarrow> deref r p)"
  by (simp add: read_device_def mem_GetDevice_def split: option.splits)

lemma read_device_save:
  assumes "mem_inv r"
  shows "read_device dev (snd (mem_SaveTelemetry now t r)) =
    (if dev = payload_id t then
       Ok (update_device now t (case read_device dev r of Ok d \<Rightarrow> d | _ \<Rightarrow> zero_device\<lparr>DevID := dev\<rparr>))
     else read_device dev r)"
proof (cases "map_of (devices r) (payload_id t)")
  case None
  have "map_of (devices r) dev = Some p \<Longrightarrow> p \<noteq> next_addr r" for p
    using mem_inv_entry(1)[OF assms] by blast
  then have keep: "deref (snd (mem_SaveTelemetry now t r)) p = deref r p"
    if "map_of (devices r) dev = Some p" for p
    using that by (simp add: deref_def save_unknown(3)[OF None])
  have d: "map_of (devices (snd (mem_SaveTelemetry now t r))) dev =
      (if dev = payload_id t then Some (next_addr r) else map_of (devices r) dev)"
    using None by (simp add: save_unknown(1)[OF None] map_add_def split: option.splits)
  show ?thesis
  proof (cases "dev = payload_id t")
    case True
    with None show ?thesis
      unfolding read_device_cases d by (simp add: deref_def save_unknown(3)[OF None])
  next
    case False
    then show ?thesis
      unfolding read_device_cases d by (simp add: keep split: option.splits)
  qed
next
  case (Some p)
  let ?r = "snd (mem_SaveTelemetry now t r)"
  from mem_inv_entry(2)[OF assms Some] obtain d where d: "heap r p = Some d" by blast
  have dv: "devices ?r = devices r" by (rule save_known(1)[OF Some])
  have hit: "deref ?r p = Ok (update_device now t d)"
    by (simp add: deref_def save_known(3)[OF Some] d)
  have miss: "deref ?r q = deref r q" if "q \<noteq> p" for q
    using that by (simp add: deref_def save_known(3)[OF Some])
  show ?thesis
  proof (cases "dev = payload_id t")
    case True
    with Some hit d show ?thesis by (simp add: read_device_cases dv deref_def)
  next
    case False
    then have "map_of (devices r) dev \<noteq> Some p" using mem_inv_entry(3)[OF assms Some] by blast
    with False miss show ?thesis by (auto simp: read_device_cases dv split: option.splits)
  qed
qed

lemma read_device_other_ops [simp]:
  "read_device dev (snd (mem_SaveEvent e r)) = read_device dev r"
  "read_device dev (snd (mem_QueueCommand dev' c r)) = read_device dev r"
  "read_device dev (snd (mem_AckCommand dev' cid r)) = read_device dev r"
  by (simp_all add: read_device_cases deref_def mem_SaveEvent_def mem_QueueCommand_def
      mem_AckCommand_def split: option.splits)

lemma pending_slice: "mem_GetPendingCommands dev r = Ok (slice_of (commands r) dev)"
  by (simp add: mem_GetPendingCommands_def slice_of_def split: option.splits)

interpretation mem: repository_contract "mem_ops order" mem_inv for order
proof
  fix s s' s'' now now' t e dev dev' c cid res r cs d d'
  assume inv: "mem_inv s"
  show "mem_inv (snd (SaveTelemetry (mem_ops order) now t s))"
    "mem_inv (snd (SaveEvent (mem_ops order) now e s))"
    "mem_inv (snd (QueueCommand (mem_ops order) now dev c s))"
    "mem_inv (snd (GetPendingCommands (mem_ops order) now dev s))"
    "mem_inv (snd (AckCommand (mem_ops order) now dev cid res s))"
    using inv by (simp_all add: mem_ops_def mem_inv_save mem_inv_other_ops)
  show "GetDevice (mem_ops order) dev (snd (SaveEvent (mem_ops order) now e s)) = GetDevice (mem_ops order) dev s"
    "GetDevice (mem_ops order) dev (snd (QueueCommand (mem_ops order) now dev' c s)) = GetDevice (mem_ops order) dev s"
    "GetDevice (mem_ops order) dev (snd (GetPendingCommands (mem_ops order) now dev' s)) = GetDevice (mem_ops order) dev s"
    "GetDevice (mem_ops order) dev (snd (AckCommand (mem_ops order) now dev' cid res s)) = GetDevice (mem_ops order) dev s"
    by (simp_all add: mem_ops_def)
  { assume "SaveTelemetry (mem_ops order) now t s = (r, s')" "r \<noteq> Ok ()"
    then show "s' = s" using save_result[of now t s] by (simp add: mem_ops_def) }
  { assume "SaveTelemetry (mem_ops order) now t s = (Ok (), s')"
    then have s': "s' = snd (mem_SaveTelemetry now t s)" by (simp add: mem_ops_def)
    have "case read_device (payload_id t) s of Ok d \<Rightarrow> DevID d = payload_id t | _ \<Rightarrow> True"
      using mem_inv_entry(2)[OF inv, of "payload_id t"]
      by (auto simp: read_device_cases deref_def entry_ok_def split: option.splits)
    then show "\<exists>d. GetDevice (mem_ops order) (payload_id t) s' = Ok d \<and> reports now t d"
      using read_device_save[OF inv, of "payload_id t" now t]
      by (auto simp: mem_ops_def s' reports_def update_device_def split: outcome.splits)
    assume "GetDevice (mem_ops order) (payload_id t) s = Ok d" "GetDevice (mem_ops order) (payload_id t) s' = Ok d'"
    with read_device_save[OF inv, of "payload_id t" now t] show "TotalTelemetries d' = TotalTelemetries d + 1"
      by (auto simp: mem_ops_def s' update_device_def) }
  { assume "SaveTelemetry (mem_ops order) now t s = (r, s')" "dev \<noteq> payload_id t"
    then show "GetDevice (mem_ops order) dev s' = GetDevice (mem_ops order) dev s"
      using read_device_save[OF inv, of dev now t] by (simp add: mem_ops_def) }
  { assume "AckCommand (mem_ops order) now dev cid res s = (Ok (), s')"
      "GetPendingCommands (mem_ops order) now' dev s' = (Ok cs, s'')" "c \<in> set cs"
    then show "CommandID c \<noteq> cid"
      by (auto simp: mem_ops_def pending_slice mem_AckCommand_def) }
qed
end
