(* ===== verification/Json_Values.thy ===== *)
theory Json_Values
  imports Models
begin

text \<open>
  Which Go values package encoding/json can marshal. \<^verbatim>\<open>json.Marshal\<close> and
  \<^verbatim>\<open>Encoder.Encode\<close> fail on a NaN or an infinity anywhere in the value, and on a
  \<^verbatim>\<open>time.Time\<close> whose year is not within 0 to 9999; \<^verbatim>\<open>Encode\<close> then writes nothing. The
  bytes of an encoding are not modelled.
\<close>

fun json_encodable :: "json_value \<Rightarrow> bool" where
  "json_encodable (JNumber x) = f64_finite x"
| "json_encodable (JArray vs) = list_all json_encodable vs"
| "json_encodable (JObject kvs) = list_all (\<lambda>kv. json_encodable (snd kv)) kvs"
| "json_encodable _ = True"

definition map_encodable :: "json_map option \<Rightarrow> bool" where
  "map_encodable m = (case m of None \<Rightarrow> True | Some kvs \<Rightarrow> list_all (\<lambda>kv. json_encodable (snd kv)) kvs)"

definition time_encodable :: "time \<Rightarrow> bool" where
  "time_encodable t \<longleftrightarrow> - 62167219200 * 1000000000 \<le> t \<and> t < 253402300800 * 1000000000"

definition metrics_encodable :: "metrics_data \<Rightarrow> bool" where
  "metrics_encodable m \<longleftrightarrow> f64_finite (Temperature m) \<and> f64_finite (Humidity m) \<and>
     f64_finite (BatteryVoltage m) \<and> map_encodable (CustomValues m)"

definition payload_encodable :: "telemetry_payload \<Rightarrow> bool" where
  "payload_encodable t = metrics_encodable (Metrics t)"

definition device_encodable :: "device_state \<Rightarrow> bool" where
  "device_encodable d \<longleftrightarrow> time_encodable (LastSeenAt d) \<and> metrics_encodable (LastMetrics d)"

definition response_encodable :: "api_response \<Rightarrow> bool" where
  "response_encodable r = list_all (\<lambda>c. map_encodable (Params c)) (Commands r)"

lemma json_encodable_alert_values [simp]:
  "json_encodable (JUint n)" "json_encodable (JInt i)" "json_encodable (JString s)"
  by simp_all

end
