(* ===== verification/Rule_Engine.thy ===== *)
theory Rule_Engine
  imports Memory_Repo Json_Values
begin

text \<open>
  Package \<^verbatim>\<open>alerting\<close> (server/core/alerting): the rule engine that looks at every accepted
  telemetry, records one event per alert in the repository and starts one webhook call per
  alert, and the webhook client. The engine works on any implementation of the repository
  interface. A webhook call runs in a goroutine of its own: \<open>EvaluateAndAlert\<close> returns the
  alerts for which one was started, and \<open>SendAlert\<close> is what the goroutine does. The log
  lines are not modelled.

  The clock is a sequence \<open>clk\<close> of readings: the engine reads \<open>clk 0\<close> for the alerts'
  timestamp, and the repository reads \<open>clk (Suc i)\<close> when the event of alert \<open>i\<close> is saved.
\<close>

section \<open>Types (types.go)\<close>

type_synonym alert_severity = gostring

definition SeverityInfo :: alert_severity where "SeverityInfo = ''INFO''"
definition SeverityWarning :: alert_severity where "SeverityWarning = ''WARNING''"
definition SeverityCritical :: alert_severity where "SeverityCritical = ''CRITICAL''"

record alert_event =
  AlertID :: gostring
  AlertDevice :: gostring
  RuleName :: gostring
  AlertSeverity :: alert_severity
  Title :: gostring
  Message :: gostring
  CurrentVal :: json_value
  Threshold :: json_value
  AlertTimestamp :: i64
  AlertDetails :: "json_map option"

record webhook_payload =
  Text :: gostring
  Content :: gostring
  Alert :: alert_event
  GeneratedAt :: time

record rule_thresholds =
  HighTempThreshold :: f64
  LowTempThreshold :: f64
  LowBatteryPct :: u32
  WeakRSSIThreshold :: i32

text \<open>The engine holds the webhook client, of which only the URL matters, and an interface
  value that may be nil.\<close>

record 's rule_engine =
  thresholds :: rule_thresholds
  webhookURL :: gostring
  engine_repo :: "'s repository option"

definition NewRuleEngine :: "rule_thresholds \<Rightarrow> gostring \<Rightarrow> 's repository option \<Rightarrow> 's rule_engine" where
  "NewRuleEngine th url rp = \<lparr>thresholds = th, webhookURL = url, engine_repo = rp\<rparr>"

text \<open>The literals 35.0 and 0.0 as bit patterns.\<close>

definition DefaultThresholds :: rule_thresholds where
  "DefaultThresholds = \<lparr>HighTempThreshold = 0x4041800000000000, LowTempThreshold = 0,
     LowBatteryPct = 20, WeakRSSIThreshold = - 85\<rparr>"

section \<open>The four rules (rule\_engine.go)\<close>

text \<open>\<^verbatim>\<open>%d\<close> of an \<^verbatim>\<open>int64\<close>, \<^verbatim>\<open>int32\<close> or \<^verbatim>\<open>uint32\<close>.\<close>

abbreviation show_signed :: "'a::len word \<Rightarrow> gostring" where
  "show_signed x \<equiv> show_int (sint x)"

abbreviation show_unsigned :: "u32 \<Rightarrow> gostring" where
  "show_unsigned x \<equiv> show_nat (unat x)"

definition high_temp_rule :: "rule_thresholds \<Rightarrow> i64 \<Rightarrow> telemetry_payload \<Rightarrow> alert_event list" where
  "high_temp_rule th now t =
     (if f64_gt (Temperature (Metrics t)) (HighTempThreshold th) then
        [\<lparr>AlertID = ''alt-temp-high-'' @ show_signed now,
          AlertDevice = DeviceID (Header t),
          RuleName = ''HIGH_TEMPERATURE'',
          AlertSeverity = SeverityCritical,
          Title = utf8 [0x9AD8, 0x6E29, 0x30A2, 0x30E9, 0x30FC, 0x30C8, 0x691C, 0x77E5],
          Message = utf8 [0x6E29, 0x5EA6, 0x304C, 0x95BE, 0x5024] @ '' ('' @
            show_f64 1 (HighTempThreshold th) @ utf8 [0x2103] @ '') '' @
            utf8 [0x3092, 0x8D85, 0x904E, 0x3057, 0x307E, 0x3057, 0x305F] @ '': '' @
            show_f64 2 (Temperature (Metrics t)) @ utf8 [0x2103],
          CurrentVal = JNumber (Temperature (Metrics t)),
          Threshold = JNumber (HighTempThreshold th),
          AlertTimestamp = now, AlertDetails = None\<rparr>]
      else [])"

definition low_temp_rule :: "rule_thresholds \<Rightarrow> i64 \<Rightarrow> telemetry_payload \<Rightarrow> alert_event list" where
  "low_temp_rule th now t =
     (if f64_lt (Temperature (Metrics t)) (LowTempThreshold th) then
        [\<lparr>AlertID = ''alt-temp-low-'' @ show_signed now,
          AlertDevice = DeviceID (Header t),
          RuleName = ''LOW_TEMPERATURE'',
          AlertSeverity = SeverityWarning,
          Title = utf8 [0x4F4E, 0x6E29, 0x30FB, 0x51CD, 0x7D50, 0x6CE8, 0x610F, 0x30A2, 0x30E9,
            0x30FC, 0x30C8],
          Message = utf8 [0x6E29, 0x5EA6, 0x304C, 0x6C37, 0x70B9, 0x4E0B] @ '' ('' @
            show_f64 1 (LowTempThreshold th) @ utf8 [0x2103] @ '') '' @
            utf8 [0x3092, 0x4E0B, 0x56DE, 0x308A, 0x307E, 0x3057, 0x305F] @ '': '' @
            show_f64 2 (Temperature (Metrics t)) @ utf8 [0x2103],
          CurrentVal = JNumber (Temperature (Metrics t)),
          Threshold = JNumber (LowTempThreshold th),
          AlertTimestamp = now, AlertDetails = None\<rparr>]
      else [])"

definition low_battery_rule :: "rule_thresholds \<Rightarrow> i64 \<Rightarrow> telemetry_payload \<Rightarrow> alert_event list" where
  "low_battery_rule th now t =
     (if 0 < BatteryLevelPct (Metrics t) \<and> BatteryLevelPct (Metrics t) < LowBatteryPct th then
        [\<lparr>AlertID = ''alt-batt-low-'' @ show_signed now,
          AlertDevice = DeviceID (Header t),
          RuleName = ''LOW_BATTERY'',
          AlertSeverity = SeverityCritical,
          Title = utf8 [0x30D0, 0x30C3, 0x30C6, 0x30EA, 0x6B8B, 0x91CF, 0x4F4E, 0x4E0B, 0x30A2,
            0x30E9, 0x30FC, 0x30C8],
          Message = utf8 [0x30D0, 0x30C3, 0x30C6, 0x30EA, 0x6B8B, 0x91CF, 0x304C] @ '' '' @
            show_unsigned (BatteryLevelPct (Metrics t)) @ ''% ('' @ utf8 [0x95BE, 0x5024] @ '': '' @
            show_unsigned (LowBatteryPct th) @ ''%) '' @
            utf8 [0x3067, 0x3059, 0x3002, 0x65E9, 0x671F, 0x5145, 0x96FB] @ ''/'' @
            utf8 [0x4EA4, 0x63DB, 0x304C, 0x5FC5, 0x8981, 0x3067, 0x3059],
          CurrentVal = JUint (BatteryLevelPct (Metrics t)),
          Threshold = JUint (LowBatteryPct th),
          AlertTimestamp = now, AlertDetails = None\<rparr>]
      else [])"

definition weak_signal_rule :: "rule_thresholds \<Rightarrow> i64 \<Rightarrow> telemetry_payload \<Rightarrow> alert_event list" where
  "weak_signal_rule th now t =
     (if sint (RSSI (Metrics t)) < sint (WeakRSSIThreshold th) then
        [\<lparr>AlertID = ''alt-rssi-weak-'' @ show_signed now,
          AlertDevice = DeviceID (Header t),
          RuleName = ''WEAK_SIGNAL'',
          AlertSeverity = SeverityWarning,
          Title = utf8 [0x96FB, 0x6CE2, 0x5F37, 0x5EA6, 0x4F4E, 0x4E0B, 0x30A2, 0x30E9, 0x30FC,
            0x30C8],
          Message = ''RSSI'' @ utf8 [0x304C] @ '' '' @ show_signed (RSSI (Metrics t)) @ ''dBm ('' @
            utf8 [0x95BE, 0x5024] @ '': '' @ show_signed (WeakRSSIThreshold th) @ ''dBm) '' @
            utf8 [0x306B, 0x4F4E, 0x4E0B, 0x3057, 0x3066, 0x3044, 0x307E, 0x3059],
          CurrentVal = JInt (RSSI (Metrics t)),
          Threshold = JInt (WeakRSSIThreshold th),
          AlertTimestamp = now, AlertDetails = None\<rparr>]
      else [])"

definition evaluate_rules :: "rule_thresholds \<Rightarrow> i64 \<Rightarrow> telemetry_payload \<Rightarrow> alert_event list" where
  "evaluate_rules th now t = high_temp_rule th now t @ low_temp_rule th now t @
     low_battery_rule th now t @ weak_signal_rule th now t"

section \<open>Recording and sending the alerts\<close>

definition alert_record :: "message_header \<Rightarrow> alert_event \<Rightarrow> event_payload" where
  "alert_record h alt = \<lparr>EvHeader = h,
     Event = \<lparr>EventType = RuleName alt, Severity = AlertSeverity alt, EvMessage = Message alt,
       Details = Some [(''current_value'', CurrentVal alt), (''threshold'', Threshold alt)]\<rparr>\<rparr>"

text \<open>\<open>SendAlertAsync\<close> adds to the webhook calls started so far.\<close>

definition SendAlertAsync :: "gostring \<Rightarrow> alert_event \<Rightarrow> alert_event list \<Rightarrow> alert_event list" where
  "SendAlertAsync url alt started = (if url = [] then started else started @ [alt])"

text \<open>The loop over the alerts. An error of \<^verbatim>\<open>SaveEvent\<close> is discarded, a panic ends the call.\<close>

fun dispatch_alerts ::
  "'s rule_engine \<Rightarrow> (nat \<Rightarrow> time) \<Rightarrow> message_header \<Rightarrow> alert_event list \<Rightarrow>
     's \<times> alert_event list \<Rightarrow> unit outcome \<times> 's \<times> alert_event list"
where
  "dispatch_alerts e clk h [] (s, started) = (Ok (), s, started)"
| "dispatch_alerts e clk h (alt # alts) (s, started) =
     (let (r, s1) = (case engine_repo e of
                       None \<Rightarrow> (Ok (), s)
                     | Some ops \<Rightarrow> SaveEvent ops (clk 0) (alert_record h alt) s)
      in case r of
           Panic \<Rightarrow> (Panic, s1, started)
         | _ \<Rightarrow> dispatch_alerts e (clk \<circ> Suc) h alts (s1, SendAlertAsync (webhookURL e) alt started))"

definition EvaluateAndAlert ::
  "'s rule_engine \<Rightarrow> (nat \<Rightarrow> time) \<Rightarrow> telemetry_payload \<Rightarrow> 's \<Rightarrow>
     alert_event list outcome \<times> 's \<times> alert_event list"
where
  "EvaluateAndAlert e clk t s =
     (let alerts = evaluate_rules (thresholds e) (unix_seconds (clk 0)) t;
          (r, s', started) = dispatch_alerts e (clk \<circ> Suc) (Header t) alerts (s, [])
      in (bind_outcome r (\<lambda>_. Ok alerts), s', started))"

section \<open>The webhook client (webhook\_client.go)\<close>

text \<open>
  The text of a notification. \<open>rfc3339\<close> formats an instant in the local time zone of the
  machine.
\<close>

definition alert_text :: "(i64 \<Rightarrow> gostring) \<Rightarrow> alert_event \<Rightarrow> gostring" where
  "alert_text rfc3339 alert =
     (let icon = (if AlertSeverity alert = SeverityCritical then utf8 [0x1F6A8] else utf8 [0x26A0, 0xFE0F])
      in icon @ '' **['' @ AlertSeverity alert @ ''] '' @ Title alert @ ''**'' @ [CHR 0x0A] @
         ''- **Device**: `'' @ AlertDevice alert @ ''`'' @ [CHR 0x0A] @
         ''- **Details**: '' @ Message alert @ [CHR 0x0A] @
         ''- **Time**: '' @ rfc3339 (AlertTimestamp alert))"

definition webhook_encodable :: "webhook_payload \<Rightarrow> bool" where
  "webhook_encodable p \<longleftrightarrow> json_encodable (CurrentVal (Alert p)) \<and> json_encodable (Threshold (Alert p)) \<and>
     map_encodable (AlertDetails (Alert p)) \<and> time_encodable (GeneratedAt p)"

text \<open>
  \<open>http_post url payload\<close> stands for the POST request on the network: an error, or the
  status code of the answer. The second result is the payload put on the wire, if any.
\<close>

definition SendAlert ::
  "(i64 \<Rightarrow> gostring) \<Rightarrow> (gostring \<Rightarrow> webhook_payload \<Rightarrow> nat outcome) \<Rightarrow> time \<Rightarrow> gostring \<Rightarrow> alert_event \<Rightarrow>
     unit outcome \<times> webhook_payload option"
where
  "SendAlert rfc3339 http_post now url alert =
     (if url = [] then (Ok (), None)
      else
        let formattedMsg = alert_text rfc3339 alert;
            payload = \<lparr>Text = formattedMsg, Content = formattedMsg, Alert = alert, GeneratedAt = now\<rparr>
        in if \<not> webhook_encodable payload then (Err (OtherError ''json: unsupported value''), None)
           else (bind_outcome (http_post url payload) (\<lambda>code.
                   if 400 \<le> code then Err (OtherError (''webhook responded with HTTP '' @ show_nat code))
                   else Ok ()), Some payload))"

section \<open>Facts about the rules\<close>

lemmas rule_defs = high_temp_rule_def low_temp_rule_def low_battery_rule_def weak_signal_rule_def

lemma default_high_value: "f64_scaled 0x4041800000000000 = 35 * 2 ^ 1074" "f64_finite 0x4041800000000000"
  by (simp_all add: f64_eval)

lemma default_low_value: "f64_scaled 0 = 0" "f64_finite 0"
  by (simp_all add: f64_eval)

lemma default_temperature:
  assumes "f64_finite x"
  shows "f64_gt x (HighTempThreshold DefaultThresholds) \<longleftrightarrow> 35 * 2 ^ 1074 < f64_scaled x"
    and "f64_lt x (LowTempThreshold DefaultThresholds) \<longleftrightarrow> f64_scaled x < 0"
  using assms
  by (simp_all only: DefaultThresholds_def rule_thresholds.simps f64_gt_def f64_lt_value
      default_high_value default_low_value)

lemma alert_devices: "alt \<in> set (evaluate_rules th now t) \<Longrightarrow>
    AlertDevice alt = DeviceID (Header t) \<and> AlertTimestamp alt = now"
  by (auto simp: evaluate_rules_def rule_defs split: if_splits)

lemma rule_names:
  "map RuleName (evaluate_rules th now t) =
    (if f64_gt (Temperature (Metrics t)) (HighTempThreshold th) then [''HIGH_TEMPERATURE''] else []) @
    (if f64_lt (Temperature (Metrics t)) (LowTempThreshold th) then [''LOW_TEMPERATURE''] else []) @
    (if 0 < BatteryLevelPct (Metrics t) \<and> BatteryLevelPct (Metrics t) < LowBatteryPct th
     then [''LOW_BATTERY''] else []) @
    (if sint (RSSI (Metrics t)) < sint (WeakRSSIThreshold th) then [''WEAK_SIGNAL''] else [])"
  unfolding evaluate_rules_def rule_defs map_append by (intro arg_cong2[where f = append]) simp_all

text \<open>Dispatching keeps what the contract of the repository says an event keeps.\<close>

context repository_contract
begin

lemma dispatch_keeps:
  assumes "inv s" and "engine_repo e = Some ops \<or> engine_repo e = None"
    and "dispatch_alerts e clk h alts (s, started) = (r, s', started')"
  shows "inv s' \<and> (\<forall>dev. GetDevice ops dev s' = GetDevice ops dev s)"
  using assms
proof (induction alts arbitrary: clk s started)
  case Nil
  then show ?case by simp
next
  case (Cons alt alts)
  obtain q s1 where q: "(case engine_repo e of None \<Rightarrow> (Ok (), s)
      | Some ops \<Rightarrow> SaveEvent ops (clk 0) (alert_record h alt) s) = (q, s1)" by fastforce
  have s1: "inv s1 \<and> (\<forall>dev. GetDevice ops dev s1 = GetDevice ops dev s)"
    using Cons.prems(1,2) q inv_event[of s "clk 0" "alert_record h alt"]
      event_device[of s _ "clk 0" "alert_record h alt"] by auto
  show ?case
    using Cons.prems(3) Cons.IH[of s1] s1 Cons.prems(2) by (auto simp: q split: outcome.splits)
qed

lemma evaluate_keeps:
  assumes "inv s" and "engine_repo e = Some ops \<or> engine_repo e = None"
    and "EvaluateAndAlert e clk t s = (r, s', started)"
  shows "inv s' \<and> (\<forall>dev. GetDevice ops dev s' = GetDevice ops dev s)"
proof -
  obtain q s1 st where "dispatch_alerts e (clk \<circ> Suc) (Header t)
      (evaluate_rules (thresholds e) (unix_seconds (clk 0)) t) (s, []) = (q, s1, st)"
    by (metis prod_cases3)
  with dispatch_keeps[OF assms(1,2) this] assms(3) show ?thesis
    by (simp add: EvaluateAndAlert_def)
qed

end

text \<open>On the in-memory repository the events are appended in the order of the alerts.\<close>

lemma mem_dispatch:
  assumes "engine_repo e = Some (mem_ops order)"
  shows "\<exists>s'. dispatch_alerts e clk h alts (s, started) =
      (Ok (), s', started @ (if webhookURL e = [] then [] else alts)) \<and>
    (\<forall>dev. slice_of (events s') dev =
       slice_of (events s) dev @ (if dev = DeviceID h then map (alert_record h) alts else [])) \<and>
    s' = s\<lparr>events := events s'\<rparr>"
proof (induction alts arbitrary: clk s started)
  case Nil
  show ?case by simp
next
  case (Cons alt alts)
  let ?s1 = "snd (mem_SaveEvent (alert_record h alt) s)"
  obtain s' where s': "dispatch_alerts e (clk \<circ> Suc) h alts (?s1, SendAlertAsync (webhookURL e) alt started) =
      (Ok (), s', SendAlertAsync (webhookURL e) alt started @ (if webhookURL e = [] then [] else alts))"
    "\<forall>dev. slice_of (events s') dev =
       slice_of (events ?s1) dev @ (if dev = DeviceID h then map (alert_record h) alts else [])"
    "s' = ?s1\<lparr>events := events s'\<rparr>" using Cons.IH by blast
  have h: "DeviceID (EvHeader (alert_record h alt)) = DeviceID h" by (simp add: alert_record_def)
  have ev: "slice_of (events ?s1) dev =
      slice_of (events s) dev @ (if dev = DeviceID h then [alert_record h alt] else [])" for dev
    by (simp add: mem_SaveEvent_def h)
  have out: "SendAlertAsync (webhookURL e) alt started @ (if webhookURL e = [] then [] else alts) =
      started @ (if webhookURL e = [] then [] else alt # alts)"
    by (simp add: SendAlertAsync_def)
  show ?case
  proof (intro exI conjI)
    show "dispatch_alerts e clk h (alt # alts) (s, started) =
        (Ok (), s', started @ (if webhookURL e = [] then [] else alt # alts))"
      using s'(1) unfolding out by (simp add: assms mem_ops_def mem_SaveEvent_def)
    show "\<forall>dev. slice_of (events s') dev = slice_of (events s) dev @
        (if dev = DeviceID h then map (alert_record h) (alt # alts) else [])"
      using s'(2) by (simp add: ev)
    show "s' = s\<lparr>events := events s'\<rparr>" using s'(3) by (simp add: mem_SaveEvent_def)
  qed
qed

section \<open>Properties of the rule engine\<close>

lemma default_alerts:
  assumes "f64_finite (Temperature (Metrics t))"
  shows "map RuleName (evaluate_rules DefaultThresholds now t) =
    (if 35 * 2 ^ 1074 < f64_scaled (Temperature (Metrics t)) then [''HIGH_TEMPERATURE'']
     else if f64_scaled (Temperature (Metrics t)) < 0 then [''LOW_TEMPERATURE''] else []) @
    (if unat (BatteryLevelPct (Metrics t)) \<in> {1..19} then [''LOW_BATTERY''] else []) @
    (if sint (RSSI (Metrics t)) < - 85 then [''WEAK_SIGNAL''] else [])"
proof -
  have batt: "0 < b \<and> b < 20 \<longleftrightarrow> unat b \<in> {1..19}" for b :: u32
    by (simp add: word_less_nat_alt) linarith
  have pos: "35 * 2 ^ 1074 < f64_scaled x \<Longrightarrow> \<not> f64_scaled x < 0" for x
  proof -
    have "(0::int) \<le> 35 * 2 ^ 1074" by (intro mult_nonneg_nonneg zero_le_power) simp_all
    then show "35 * 2 ^ 1074 < f64_scaled x \<Longrightarrow> \<not> f64_scaled x < 0" by linarith
  qed
  have th: "LowBatteryPct DefaultThresholds = 20" "sint (WeakRSSIThreshold DefaultThresholds) = - 85"
    by (simp_all add: DefaultThresholds_def)
  show ?thesis
    unfolding rule_names default_temperature[OF assms] th batt
    using pos[of "Temperature (Metrics t)"] by (auto simp only: append_Nil split: if_splits)
qed

text \<open>The alerts that docs/03\_server\_requirements.md promises (section 4.1), on the values the bit
  patterns stand for: above 35.0 degrees, below 0.0 degrees, below 20 percent, below -85 dBm.\<close>

definition documented_rules :: "telemetry_payload \<Rightarrow> gostring list" where
  "documented_rules t =
    (if 35 * 2 ^ 1074 < f64_scaled (Temperature (Metrics t)) then [''HIGH_TEMPERATURE''] else []) @
    (if f64_scaled (Temperature (Metrics t)) < 0 then [''LOW_TEMPERATURE''] else []) @
    (if unat (BatteryLevelPct (Metrics t)) < 20 then [''LOW_BATTERY''] else []) @
    (if sint (RSSI (Metrics t)) < - 85 then [''WEAK_SIGNAL''] else [])"

text \<open>
  C24: The default rules against the documented table. For every finite temperature the engine
  raises exactly the alerts of the table in docs/03, in its order, with one exception: a battery
  level of 0 percent raises no \<^verbatim>\<open>LOW_BATTERY\<close>, although the table promises it below 20 percent. (The
  comment beside the threshold says 35 degrees or more; the table and the code say more than 35.)
\<close>

theorem default_rules_fire:
  assumes "f64_finite (Temperature (Metrics t))"
  shows "map RuleName (evaluate_rules DefaultThresholds now t) =
    filter (\<lambda>rule. \<not> (rule = ''LOW_BATTERY'' \<and> unat (BatteryLevelPct (Metrics t)) = 0)) (documented_rules t)"
proof -
  define hot where "hot \<longleftrightarrow> 35 * 2 ^ 1074 < f64_scaled (Temperature (Metrics t))"
  define cold where "cold \<longleftrightarrow> f64_scaled (Temperature (Metrics t)) < 0"
  have "(0::int) \<le> 35 * 2 ^ 1074" by (intro mult_nonneg_nonneg zero_le_power) simp_all
  then have "\<not> (hot \<and> cold)" unfolding hot_def cold_def by linarith
  moreover have "unat b \<in> {1..19} \<longleftrightarrow> unat b < 20 \<and> unat b \<noteq> 0" for b :: u32 by auto
  ultimately show ?thesis
    unfolding default_alerts[OF assms] documented_rules_def hot_def[symmetric] cold_def[symmetric]
    by (cases hot; cases cold) simp_all
qed

theorem default_rules_fire_witness:
  "map RuleName (evaluate_rules DefaultThresholds 0
      \<lparr>Header = zero_header, Metrics = zero_metrics\<lparr>Temperature := 0x4045400000000000,
         BatteryLevelPct := 19, RSSI := - 86\<rparr>, Status = None\<rparr>) =
    [''HIGH_TEMPERATURE'', ''LOW_BATTERY'', ''WEAK_SIGNAL'']"
proof -
  let ?t = "\<lparr>Header = zero_header, Metrics = zero_metrics\<lparr>Temperature := 0x4045400000000000,
      BatteryLevelPct := 19, RSSI := - 86\<rparr>, Status = None\<rparr>"
  have v: "f64_finite 0x4045400000000000" "35 * 2 ^ 1074 < f64_scaled 0x4045400000000000" "\<not> f64_scaled 0x4045400000000000 < 0"
    by (simp_all add: f64_eval)
  then have "documented_rules ?t = [''HIGH_TEMPERATURE'', ''LOW_BATTERY'', ''WEAK_SIGNAL'']"
    by (simp only: documented_rules_def) simp
  then show ?thesis using default_rules_fire[of ?t 0] v(1) by simp
qed

text \<open>
  C25: On the in-memory repository every alert is recorded, once and in order, as an event of
  the telemetry's device with the alert's rule, severity, message, value and threshold; one
  webhook call is started per alert when a URL is configured and none otherwise; devices,
  telemetries and commands are untouched, and the call neither fails nor panics.
\<close>

theorem alerts_recorded:
  assumes "EvaluateAndAlert (NewRuleEngine th url (Some (mem_ops order))) clk t s = (res, s', started)"
  shows "\<exists>alerts. res = Ok alerts \<and> alerts = evaluate_rules th (unix_seconds (clk 0)) t \<and>
    started = (if url = [] then [] else alerts) \<and>
    (\<forall>dev. slice_of (events s') dev = slice_of (events s) dev @
       (if dev = DeviceID (Header t) then map (alert_record (Header t)) alerts else [])) \<and>
    s' = s\<lparr>events := events s'\<rparr>"
proof -
  let ?e = "NewRuleEngine th url (Some (mem_ops order))"
  have e: "engine_repo ?e = Some (mem_ops order)" "webhookURL ?e = url" "thresholds ?e = th"
    by (simp_all add: NewRuleEngine_def)
  from mem_dispatch[OF e(1), of "clk \<circ> Suc" "Header t" "evaluate_rules th (unix_seconds (clk 0)) t" s "[]"]
  show ?thesis using assms by (auto simp: EvaluateAndAlert_def e Let_def)
qed

theorem alerts_recorded_witness:
  "\<exists>s' started alerts. EvaluateAndAlert (NewRuleEngine DefaultThresholds ''http://h'' (Some (mem_ops rev)))
      (\<lambda>n. 1000000000 * int n)
      \<lparr>Header = zero_header\<lparr>DeviceID := ''D''\<rparr>, Metrics = zero_metrics\<lparr>BatteryLevelPct := 5\<rparr>, Status = None\<rparr>
      NewInMemoryRepository = (Ok alerts, s', started) \<and>
    length (slice_of (events s') ''D'') = 1 \<and> started = alerts"
proof -
  let ?t = "\<lparr>Header = zero_header\<lparr>DeviceID := ''D''\<rparr>, Metrics = zero_metrics\<lparr>BatteryLevelPct := 5\<rparr>, Status = None\<rparr>"
  let ?e = "NewRuleEngine DefaultThresholds ''http://h'' (Some (mem_ops rev))"
  let ?clk = "\<lambda>n. 1000000000 * int n"
  obtain res s' started where r: "EvaluateAndAlert ?e ?clk ?t NewInMemoryRepository = (res, s', started)"
    by (metis prod_cases3)
  have f: "f64_finite (Temperature (Metrics ?t))" by (simp add: zero_metrics_def f64_eval)
  have "\<not> (35 * 2 ^ 1074 < f64_scaled 0)" by (simp add: f64_eval)
  then have "map RuleName (evaluate_rules DefaultThresholds (unix_seconds (?clk 0)) ?t) = [''LOW_BATTERY'']"
    using default_alerts[OF f, of "unix_seconds (?clk 0)"]
    by (simp add: zero_metrics_def default_low_value)
  from arg_cong[OF this, of length]
  have "length (evaluate_rules DefaultThresholds (unix_seconds (?clk 0)) ?t) = 1" by simp
  with alerts_recorded[OF r] r show ?thesis
    by (auto simp: NewInMemoryRepository_def zero_header_def)
qed

end
