(* ===== verification/Byte_Reader.thy ===== *)
theory Byte_Reader
  imports Go_Base
begin

text \<open>
  What server/core/telemetry/proto_decoder.go uses of the standard library: a
  \<^verbatim>\<open>bytes.Reader\<close> (its bytes and its \<^verbatim>\<open>int64\<close> position, which may lie beyond the end),
  \<^verbatim>\<open>binary.ReadUvarint\<close>, \<^verbatim>\<open>io.ReadFull\<close>, \<^verbatim>\<open>binary.Read\<close> of a little-endian integer and
  \<^verbatim>\<open>Seek\<close> relative to the current position. The position is an \<open>int\<close> in the range of
  \<^verbatim>\<open>int64\<close>; the addition in \<^verbatim>\<open>Seek\<close> wraps around as in Go.
\<close>

record reader =
  rd_data :: "u8 list"
  rd_pos :: int

definition new_reader :: "u8 list \<Rightarrow> reader" where
  "new_reader bs = \<lparr>rd_data = bs, rd_pos = 0\<rparr>"

text \<open>\<^verbatim>\<open>Len\<close>: the number of unread bytes, 0 when the position is beyond the end.\<close>

definition rd_len :: "reader \<Rightarrow> nat" where
  "rd_len r = (if rd_pos r \<ge> int (length (rd_data r)) then 0
               else length (rd_data r) - nat (rd_pos r))"

definition read_byte :: "reader \<Rightarrow> (u8 \<times> reader) outcome" where
  "read_byte r = (if rd_pos r \<ge> int (length (rd_data r)) then Err EOF
     else Ok (rd_data r ! nat (rd_pos r), r\<lparr>rd_pos := rd_pos r + 1\<rparr>))"

text \<open>
  \<^verbatim>\<open>binary.ReadUvarint\<close>: at most ten bytes, least significant group first; \<open>i\<close> counts the
  bytes read, \<open>x\<close> accumulates the value, \<open>s\<close> is the shift of the next group.
\<close>

function read_uvarint_from :: "nat \<Rightarrow> u64 \<Rightarrow> nat \<Rightarrow> reader \<Rightarrow> (u64 \<times> reader) outcome" where
  "read_uvarint_from i x s r =
     (if i < 10 then
        (case read_byte r of
           Err e \<Rightarrow> Err (if 0 < i \<and> e = EOF then UnexpectedEOF else e)
         | Panic \<Rightarrow> Panic
         | Ok (b, r') \<Rightarrow>
             if b < 0x80 then
               (if i = 9 \<and> b > 1 then Err VarintOverflow
                else Ok (x OR push_bit s (ucast b), r'))
             else read_uvarint_from (Suc i) (x OR push_bit s (ucast (b AND 0x7f))) (s + 7) r')
      else Err VarintOverflow)"
  by pat_completeness auto
termination
  by (relation "measure (\<lambda>(i, x, s, r). 10 - i)") auto

declare read_uvarint_from.simps [simp del]

definition read_uvarint :: "reader \<Rightarrow> (u64 \<times> reader) outcome" where
  "read_uvarint r = read_uvarint_from 0 0 0 r"

text \<open>\<^verbatim>\<open>io.ReadFull\<close> into a buffer of \<open>n\<close> bytes.\<close>

definition read_full :: "nat \<Rightarrow> reader \<Rightarrow> (u8 list \<times> reader) outcome" where
  "read_full n r =
     (if n = 0 then Ok ([], r)
      else if rd_len r = 0 then Err EOF
      else if rd_len r < n then Err UnexpectedEOF
      else Ok (take n (drop (nat (rd_pos r)) (rd_data r)), r\<lparr>rd_pos := rd_pos r + int n\<rparr>))"

text \<open>\<^verbatim>\<open>make([]byte, n)\<close> panics when the length exceeds what the run time can allocate;
  \<open>max_alloc\<close> is that limit of the platform the server runs on.\<close>

definition make_buffer :: "nat \<Rightarrow> u64 \<Rightarrow> nat outcome" where
  "make_buffer max_alloc n = (if unat n \<le> max_alloc then Ok (unat n) else Panic)"

fun le_value :: "u8 list \<Rightarrow> nat" where
  "le_value [] = 0"
| "le_value (b # bs) = unat b + 256 * le_value bs"

text \<open>\<^verbatim>\<open>binary.Read(r, binary.LittleEndian, &raw)\<close> for a \<^verbatim>\<open>uint32\<close> and a \<^verbatim>\<open>uint64\<close>.\<close>

definition read_le32 :: "reader \<Rightarrow> (u32 \<times> reader) outcome" where
  "read_le32 r = bind_outcome (read_full 4 r) (\<lambda>(bs, r'). Ok (word_of_nat (le_value bs), r'))"

definition read_le64 :: "reader \<Rightarrow> (u64 \<times> reader) outcome" where
  "read_le64 r = bind_outcome (read_full 8 r) (\<lambda>(bs, r'). Ok (word_of_nat (le_value bs), r'))"

text \<open>\<^verbatim>\<open>Seek(int64(n), io.SeekCurrent)\<close>: both the conversion to \<^verbatim>\<open>int64\<close> and the sum wrap.\<close>

definition wrap_i64 :: "int \<Rightarrow> int" where
  "wrap_i64 i = sint (word_of_int i :: i64)"

definition seek_current :: "u64 \<Rightarrow> reader \<Rightarrow> reader outcome" where
  "seek_current n r =
     (let p = wrap_i64 (rd_pos r + sint n)
      in if p < 0 then Err NegativePosition else Ok (r\<lparr>rd_pos := p\<rparr>))"


section \<open>Readers split at their position\<close>

text \<open>\<open>reader_at pre xs\<close> has consumed \<open>pre\<close> and has \<open>xs\<close> left to read: the view the round
  trip proofs take of a reader.\<close>

definition reader_at :: "u8 list \<Rightarrow> u8 list \<Rightarrow> reader" where
  "reader_at pre xs = \<lparr>rd_data = pre @ xs, rd_pos = int (length pre)\<rparr>"

lemma new_reader_at: "new_reader bs = reader_at [] bs"
  by (simp add: new_reader_def reader_at_def)

lemma rd_len_at [reader_simps]: "rd_len (reader_at pre xs) = length xs"
  by (simp add: rd_len_def reader_at_def)

lemma read_byte_at_Nil [reader_simps]: "read_byte (reader_at pre []) = Err EOF"
  by (simp add: read_byte_def reader_at_def)

lemma read_byte_at_Cons [reader_simps]:
  "read_byte (reader_at pre (b # xs)) = Ok (b, reader_at (pre @ [b]) xs)"
  by (simp add: read_byte_def reader_at_def)

lemma read_full_at [reader_simps]:
  "read_full n (reader_at pre xs) =
     (if n = 0 then Ok ([], reader_at pre xs) else if xs = [] then Err EOF
      else if length xs < n then Err UnexpectedEOF
      else Ok (take n xs, reader_at (pre @ take n xs) (drop n xs)))"
  by (simp add: read_full_def rd_len_at) (auto simp: reader_at_def)

lemma seek_current_at [reader_simps]:
  "seek_current n (reader_at pre xs) =
     (let p = wrap_i64 (int (length pre) + sint n); k = nat p; data = pre @ xs
      in if p < 0 then Err NegativePosition
         else if k \<le> length data then Ok (reader_at (take k data) (drop k data))
         else Ok \<lparr>rd_data = data, rd_pos = p\<rparr>)"
  by (auto simp: seek_current_def reader_at_def Let_def simp del: take_append drop_append)

lemma rd_len_beyond [reader_simps]: "int (length data) \<le> p \<Longrightarrow> rd_len \<lparr>rd_data = data, rd_pos = p\<rparr> = 0"
  by (simp add: rd_len_def)

section \<open>Validity and forward progress of the reads\<close>

text \<open>A position is an \<^verbatim>\<open>int64\<close> that is never negative, and the length of a Go slice fits
  an \<^verbatim>\<open>int\<close>.\<close>

definition rd_ok :: "reader \<Rightarrow> bool" where
  "rd_ok r \<longleftrightarrow> 0 \<le> rd_pos r \<and> rd_pos r < 2 ^ 63 \<and> length (rd_data r) < 2 ^ 63"

lemma rd_ok_new [simp]: "rd_ok (new_reader bs) \<longleftrightarrow> length bs < 2 ^ 63"
  by (simp add: rd_ok_def new_reader_def)

text \<open>\<open>advances k r r'\<close>: the same bytes, at least \<open>k\<close> further on and not beyond the end.\<close>

definition advances :: "nat \<Rightarrow> reader \<Rightarrow> reader \<Rightarrow> bool" where
  "advances k r r' \<longleftrightarrow> rd_data r' = rd_data r \<and> rd_pos r + int k \<le> rd_pos r' \<and>
     (rd_pos r' = rd_pos r \<or> rd_pos r' \<le> int (length (rd_data r)))"

lemma advances_refl [simp]: "advances 0 r r"
  by (simp add: advances_def)

lemma advances_trans: "advances j r r' \<Longrightarrow> advances k r' r'' \<Longrightarrow> advances (j + k) r r''"
  by (auto simp: advances_def)

lemma advances_weaken: "advances k r r' \<Longrightarrow> j \<le> k \<Longrightarrow> advances j r r'"
  by (auto simp: advances_def)

lemma read_byte_advances: "read_byte r = Ok (b, r') \<Longrightarrow> advances 1 r r'"
  by (auto simp: read_byte_def advances_def split: if_splits)

lemma read_byte_not_Panic [simp]: "read_byte r \<noteq> Panic"
  by (simp add: read_byte_def)

lemma read_uvarint_from_advances:
  "read_uvarint_from i x s r = Ok (v, r') \<Longrightarrow> advances 1 r r'"
proof (induction i x s r rule: read_uvarint_from.induct)
  case (1 i x s r)
  from "1.prems" obtain b r1 where i: "i < 10" and b: "read_byte r = Ok (b, r1)"
    by (subst (asm) read_uvarint_from.simps) (auto split: if_splits outcome.splits)
  have adv: "advances 1 r r1"
    using b by (rule read_byte_advances)
  show ?case
  proof (cases "b < 0x80")
    case True
    with "1.prems" i b adv show ?thesis
      by (subst (asm) read_uvarint_from.simps) (auto split: if_splits)
  next
    case False
    have "read_uvarint_from (Suc i) (x OR push_bit s (ucast (b AND 0x7f))) (s + 7) r1 = Ok (v, r')"
      using "1.prems" i b False by (subst (asm) read_uvarint_from.simps) simp
    with "1.IH"[OF i b refl False] have "advances 1 r1 r'" .
    from advances_trans[OF adv this] show ?thesis
      by (rule advances_weaken) simp
  qed
qed

lemma read_uvarint_advances: "read_uvarint r = Ok (v, r') \<Longrightarrow> advances 1 r r'"
  unfolding read_uvarint_def by (rule read_uvarint_from_advances)

lemma read_uvarint_from_not_Panic: "read_uvarint_from i x s r \<noteq> Panic"
proof (induction i x s r rule: read_uvarint_from.induct)
  case (1 i x s r)
  then show ?case
    by (subst read_uvarint_from.simps) (auto split: outcome.splits)
qed

lemma read_uvarint_not_Panic [simp]: "read_uvarint r \<noteq> Panic"
  unfolding read_uvarint_def by (rule read_uvarint_from_not_Panic)

lemma read_full_Ok:
  assumes "read_full n r = Ok (bs, r')" and "rd_ok r"
  shows "length bs = n" and "advances n r r'"
    and "n > 0 \<Longrightarrow> bs = take n (drop (nat (rd_pos r)) (rd_data r))"
    and "n > 0 \<Longrightarrow> nat (rd_pos r) + n \<le> length (rd_data r)"
  using assms
  by (auto simp: read_full_def rd_len_def advances_def rd_ok_def split: if_splits)

lemma read_full_not_Panic [simp]: "read_full n r \<noteq> Panic"
  by (simp add: read_full_def)

lemma read_le32_advances: "read_le32 r = Ok (v, r') \<Longrightarrow> rd_ok r \<Longrightarrow> advances 4 r r'"
  by (auto simp: read_le32_def bind_outcome_Ok_iff dest: read_full_Ok(2))

lemma read_le64_advances: "read_le64 r = Ok (v, r') \<Longrightarrow> rd_ok r \<Longrightarrow> advances 8 r r'"
  by (auto simp: read_le64_def bind_outcome_Ok_iff dest: read_full_Ok(2))

lemma read_le_not_Panic [simp]: "read_le32 r \<noteq> Panic" "read_le64 r \<noteq> Panic"
  by (auto simp: read_le32_def read_le64_def bind_outcome_Panic_iff)

lemma advances_ok: "advances k r r' \<Longrightarrow> rd_ok r \<Longrightarrow> rd_ok r'"
  by (auto simp: advances_def rd_ok_def)

section \<open>Seeking\<close>

lemma wrap_i64_eq: "wrap_i64 i = (if i < 2 ^ 63 then i else i - 2 ^ 64)"
  if "- (2 ^ 63) \<le> i" "i < 2 ^ 64"
proof -
  have w: "wrap_i64 i = signed_take_bit 63 i"
    by (simp add: wrap_i64_def sint_sbintrunc')
  show ?thesis
  proof (cases "i < 2 ^ 63")
    case True
    with that show ?thesis by (simp add: w signed_take_bit_int_eq_self)
  next
    case False
    have "signed_take_bit 63 i = signed_take_bit 63 (i - 2 ^ 64)"
      by (rule signed_take_bit_eq_iff_take_bit_eq [THEN iffD2]) (simp add: take_bit_eq_mod)
    with False that show ?thesis by (simp add: w signed_take_bit_int_eq_self)
  qed
qed

lemma wrap_i64_less: "wrap_i64 i < 2 ^ 63"
  using sint_lt[of "word_of_int i :: i64"] by (simp add: wrap_i64_def)

lemma sint_nonneg:
  fixes n :: u64
  assumes "unat n < 2 ^ 63"
  shows "sint n = int (unat n)"
proof -
  have u: "int (unat n) = uint n" by (rule uint_nat [symmetric])
  have "int (unat n) < int (2 ^ 63)" using assms by (simp only: of_nat_less_iff)
  then have "uint n < 2 ^ 63" by (simp add: u)
  then have "signed_take_bit 63 (uint n) = uint n"
    using uint_ge_0[of n] by (intro signed_take_bit_int_eq_self) (simp_all add: order_trans[of _ 0])
  then show ?thesis by (simp add: sint_uint u)
qed

lemma seek_current_data: "seek_current n r = Ok r' \<Longrightarrow> rd_data r' = rd_data r"
  by (auto simp: seek_current_def Let_def split: if_splits)

lemma seek_current_ok: "seek_current n r = Ok r' \<Longrightarrow> rd_ok r \<Longrightarrow> rd_ok r'"
  using wrap_i64_less[of "rd_pos r + sint n"]
  by (auto simp: seek_current_def Let_def rd_ok_def split: if_splits)

lemma seek_current_not_Panic [simp]: "seek_current n r \<noteq> Panic"
  by (simp add: seek_current_def Let_def)

text \<open>A seek by a non-negative distance that does not fail moves forward: the sum may wrap
  around in \<^verbatim>\<open>int64\<close>, but then it is negative and \<^verbatim>\<open>Seek\<close> fails.\<close>

lemma seek_current_forward:
  assumes "seek_current n r = Ok r'" and "unat n < 2 ^ 63" and "rd_ok r"
  shows "rd_pos r \<le> rd_pos r'"
proof -
  let ?i = "rd_pos r + sint n"
  have i: "?i = rd_pos r + int (unat n)" using assms(2) by (simp add: sint_nonneg)
  have "int (unat n) < int (2 ^ 63)" using assms(2) by (simp only: of_nat_less_iff)
  then have "- (2 ^ 63) \<le> ?i" and "?i < 2 ^ 64"
    using assms(3) i by (auto simp: rd_ok_def intro: order_trans[of _ 0])
  from wrap_i64_eq[OF this] this assms i show ?thesis
    by (auto simp: seek_current_def Let_def rd_ok_def split: if_splits)
qed

section \<open>Bounds on the varints of a byte string\<close>

text \<open>A varint read inside a slice of a byte string is a varint of the whole string.\<close>

lemma read_byte_shift:
  assumes "read_byte \<lparr>rd_data = take n (drop q data), rd_pos = int p\<rparr> = Ok (b, r')"
    and "q + n \<le> length data"
  shows "read_byte \<lparr>rd_data = data, rd_pos = int (q + p)\<rparr> = Ok (b, \<lparr>rd_data = data, rd_pos = int (q + Suc p)\<rparr>)"
    and "r' = \<lparr>rd_data = take n (drop q data), rd_pos = int (Suc p)\<rparr>"
  using assms by (auto simp: read_byte_def nth_append nat_add_distrib split: if_splits)

lemma read_uvarint_from_shift:
  "read_uvarint_from i x s \<lparr>rd_data = take n (drop q data), rd_pos = int p\<rparr> = Ok (v, r') \<Longrightarrow>
   q + n \<le> length data \<Longrightarrow>
   \<exists>r''. read_uvarint_from i x s \<lparr>rd_data = data, rd_pos = int (q + p)\<rparr> = Ok (v, r'')"
proof (induction i x s "\<lparr>rd_data = take n (drop q data), rd_pos = int p\<rparr>" arbitrary: p rule: read_uvarint_from.induct)
  case (1 i x s)
  from "1.prems"(1) obtain b r1 where i: "i < 10"
    and b: "read_byte \<lparr>rd_data = take n (drop q data), rd_pos = int p\<rparr> = Ok (b, r1)"
    by (subst (asm) read_uvarint_from.simps) (auto split: if_splits outcome.splits)
  note sh = read_byte_shift[OF b "1.prems"(2)]
  show ?case
  proof (cases "b < 0x80")
    case True
    with "1.prems" i b sh(1) show ?thesis
      by (subst (asm) read_uvarint_from.simps, subst read_uvarint_from.simps) (auto split: if_splits)
  next
    case False
    have "read_uvarint_from (Suc i) (x OR push_bit s (ucast (b AND 0x7f))) (s + 7) r1 = Ok (v, r')"
      using "1.prems"(1) i b False by (subst (asm) read_uvarint_from.simps) simp
    with "1.hyps"[OF i b[unfolded sh(2)] refl False] "1.prems"(2) sh(2)
    obtain r'' where "read_uvarint_from (Suc i) (x OR push_bit s (ucast (b AND 0x7f))) (s + 7)
       \<lparr>rd_data = data, rd_pos = int (q + Suc p)\<rparr> = Ok (v, r'')"
      by blast
    with i sh(1) False show ?thesis
      by (subst read_uvarint_from.simps) simp
  qed
qed

text \<open>The value of the varint at a position, if one can be read there.\<close>

definition varint_at :: "u8 list \<Rightarrow> nat \<Rightarrow> u64 option" where
  "varint_at data p = (case read_uvarint \<lparr>rd_data = data, rd_pos = int p\<rparr> of
     Ok vr \<Rightarrow> Some (fst vr) | Err e \<Rightarrow> None | Panic \<Rightarrow> None)"

definition varints_below :: "nat \<Rightarrow> u8 list \<Rightarrow> bool" where
  "varints_below L data \<longleftrightarrow>
     list_all (\<lambda>p. case varint_at data p of None \<Rightarrow> True | Some v \<Rightarrow> unat v < L) [1..<length data]"

lemma varint_at_shift:
  "varint_at (take n (drop q data)) p = Some v \<Longrightarrow> q + n \<le> length data \<Longrightarrow>
     varint_at data (q + p) = Some v"
  using read_uvarint_from_shift[of 0 0 0 n q data p]
  by (fastforce simp: varint_at_def read_uvarint_def split: outcome.splits)

lemma varint_at_less: "varint_at data p = Some v \<Longrightarrow> p < length data"
  by (auto simp: varint_at_def read_uvarint_def read_uvarint_from.simps[of 0] read_byte_def split: outcome.splits if_splits)

lemma varints_below_iff:
  "varints_below L data \<longleftrightarrow> (\<forall>p v. 0 < p \<longrightarrow> varint_at data p = Some v \<longrightarrow> unat v < L)"
proof -
  have "varints_below L data \<longleftrightarrow>
    (\<forall>p. 0 < p \<and> p < length data \<longrightarrow> (\<forall>v. varint_at data p = Some v \<longrightarrow> unat v < L))"
    by (auto simp: varints_below_def list_all_iff Suc_le_eq split: option.splits)
  then show ?thesis using varint_at_less by metis
qed

lemma varints_below_slice:
  assumes "varints_below L data" and "q + n \<le> length data"
  shows "varints_below L (take n (drop q data))"
  using assms varint_at_shift[OF _ assms(2)]
  unfolding varints_below_iff by (metis add_gr_0)

lemma varints_belowD:
  assumes "varints_below L (rd_data r)" and "read_uvarint r = Ok (v, r')" and "0 < rd_pos r"
  shows "unat v < L"
proof -
  have "varint_at (rd_data r) (nat (rd_pos r)) = Some v"
    using assms(2,3) by (cases r) (simp add: varint_at_def)
  with assms(1,3) show ?thesis unfolding varints_below_iff by (metis zero_less_nat_eq)
qed

text \<open>A varint of \<open>k\<close> bytes has at most \<open>7 * k\<close> bits, so one with the top bit set takes
  all ten bytes.\<close>

lemma read_uvarint_from_bits:
  "read_uvarint_from i x (7 * i) r = Ok (v, r') \<Longrightarrow> take_bit (7 * i) x = x \<Longrightarrow>
     \<exists>k. rd_pos r' = rd_pos r + int k \<and> take_bit (7 * (i + k)) v = v"
proof (induction i x "7 * i" r arbitrary: v r' rule: read_uvarint_from.induct)
  case (1 i x r)
  from "1.prems"(1) obtain b r1 where i: "i < 10" and b: "read_byte r = Ok (b, r1)"
    by (subst (asm) read_uvarint_from.simps) (auto split: if_splits outcome.splits)
  have pos: "rd_pos r1 = rd_pos r + 1"
    using b by (auto simp: read_byte_def split: if_splits)
  have bits: "take_bit (7 * Suc i) (x OR push_bit (7 * i) (ucast c)) = x OR push_bit (7 * i) (ucast c)"
    if "take_bit 7 c = c" for c :: u8
  proof (rule bit_word_eqI)
    fix n
    have x: "bit x n \<Longrightarrow> n < 7 * i" using "1.prems"(2) by (metis bit_take_bit_iff)
    have c: "bit c k \<Longrightarrow> k < 7" for k using that by (metis bit_take_bit_iff)
    show "bit (take_bit (7 * Suc i) (x OR push_bit (7 * i) (ucast c))) n =
          bit (x OR push_bit (7 * i) (ucast c)) n"
      using x c[of "n - 7 * i"] by (auto simp: bit_simps)
  qed
  show ?case
  proof (cases "b < 0x80")
    case True
    have "take_bit 7 b = b"
      using True by (simp add: word_unat_eq_iff unsigned_take_bit_eq take_bit_nat_def word_less_nat_alt)
    note tb = bits[OF this]
    have v: "v = x OR push_bit (7 * i) (ucast b)" "r' = r1"
      using "1.prems"(1) i b True
      by (subst (asm) (1) read_uvarint_from.simps, simp split: if_splits)+
    have "take_bit (7 * (i + 1)) v = v"
      unfolding v by (simp only: tb flip: Suc_eq_plus1)
    with v(2) pos show ?thesis by (intro exI[of _ 1]) simp
  next
    case False
    let ?x = "x OR push_bit (7 * i) (ucast (b AND 0x7f))"
    have "take_bit 7 (b AND 0x7f) = b AND 0x7f"
      by (rule bit_word_eqI) (auto simp: bit_simps bit_0x7F bit_127_int)
    note tx = bits[OF this]
    have e: "7 * i + 7 = 7 * Suc i" by simp
    have "read_uvarint_from (Suc i) ?x (7 * Suc i) r1 = Ok (v, r')"
      using "1.prems"(1) i b False by (subst (asm) read_uvarint_from.simps) (simp add: add.commute)
    from "1.hyps"[OF i b refl False e this tx] obtain k
      where "rd_pos r' = rd_pos r1 + int k" "take_bit (7 * (Suc i + k)) v = v" by blast
    with pos show ?thesis by (intro exI[of _ "Suc k"]) simp
  qed
qed

lemma short_varints_below:
  assumes "length data < 11"
  shows "varints_below (2 ^ 63) data"
  unfolding varints_below_iff
proof (intro allI impI)
  fix p v assume p: "0 < p" and v: "varint_at data p = Some v"
  then obtain r' where r: "read_uvarint_from 0 0 (7 * 0) \<lparr>rd_data = data, rd_pos = int p\<rparr> = Ok (v, r')"
    by (auto simp: varint_at_def read_uvarint_def split: outcome.splits)
  from read_uvarint_from_bits[OF r] obtain k
    where k: "rd_pos r' = int p + int k" "take_bit (7 * k) v = v" by auto
  have "rd_pos r' \<le> int (length data)"
    using read_uvarint_from_advances[OF r] k(1) by (auto simp: advances_def)
  with k(1) p assms have "k < 10" by simp
  then have "7 * k \<le> 63" by simp
  have "unat v = take_bit (7 * k) (unat v)" using k(2) by (metis unsigned_take_bit_eq)
  then have "unat v < 2 ^ (7 * k)" by (metis take_bit_nat_less_exp)
  also have "\<dots> \<le> 2 ^ 63" using \<open>7 * k \<le> 63\<close> by (intro power_increasing) simp_all
  finally show "unat v < 2 ^ 63" .
qed

text \<open>A tag cut off by the end of the input: only continuation bytes, fewer than ten.\<close>

lemma read_uvarint_from_truncated:
  "list_all (\<lambda>b. \<not> b < 0x80) bs \<Longrightarrow> i + length bs < 10 \<Longrightarrow> 0 < i \<or> bs \<noteq> [] \<Longrightarrow>
     read_uvarint_from i x s (reader_at pre bs) = Err UnexpectedEOF"
proof (induction bs arbitrary: i x s pre)
  case Nil
  then show ?case by (simp add: read_uvarint_from.simps[of i] reader_simps)
next
  case (Cons b bs)
  then show ?case by (simp add: read_uvarint_from.simps[of i] reader_simps)
qed

lemma read_uvarint_truncated:
  "list_all (\<lambda>b. \<not> b < 0x80) bs \<Longrightarrow> bs \<noteq> [] \<Longrightarrow> length bs < 10 \<Longrightarrow>
     read_uvarint (reader_at pre bs) = Err UnexpectedEOF"
  by (simp add: read_uvarint_def read_uvarint_from_truncated)

end
