(* ===== verification/Proto_Decoder.thy ===== *)
theory Proto_Decoder
  imports Byte_Reader Models
begin

text \<open>
  The protobuf decoder of server/core/telemetry/proto_decoder.go, function by function.
  \<open>max_alloc\<close> is the largest buffer that \<^verbatim>\<open>make\<close> can allocate. Each parser is a switch on
  the field number (\<open>header_field\<close>, \<open>metrics_field\<close>, \<open>status_field\<close>, \<open>root_field\<close>)
  inside a loop that runs while bytes are left. The loop is a partial function: nothing in
  the code bounds its iterations, since \<^verbatim>\<open>skipField\<close> may seek backwards, and \<open>None\<close> is a
  call that never returns.
\<close>

section \<open>Chunks, strings and skipped fields\<close>

text \<open>Length, buffer and bytes of a length-delimited field.\<close>

definition read_chunk :: "nat \<Rightarrow> reader \<Rightarrow> (u8 list \<times> reader) outcome" where
  "read_chunk max_alloc r =
     bind_outcome (read_uvarint r) (\<lambda>(n, r1).
     bind_outcome (make_buffer max_alloc n) (\<lambda>k. read_full k r1))"

definition read_string :: "nat \<Rightarrow> reader \<Rightarrow> (gostring \<times> reader) outcome" where
  "read_string max_alloc r =
     bind_outcome (read_chunk max_alloc r) (\<lambda>(buf, r'). Ok (bytes_to_string buf, r'))"

definition skip_field :: "reader \<Rightarrow> u64 \<Rightarrow> reader outcome" where
  "skip_field r wire =
     (if wire = 0 then bind_outcome (read_uvarint r) (\<lambda>(_, r'). Ok r')
      else if wire = 1 then bind_outcome (read_le64 r) (\<lambda>(_, r'). Ok r')
      else if wire = 2 then bind_outcome (read_uvarint r) (\<lambda>(n, r'). seek_current n r')
      else if wire = 5 then bind_outcome (read_le32 r) (\<lambda>(_, r'). Ok r')
      else Err (UnsupportedWireType wire))"

section \<open>The field switches of the sub-messages\<close>

definition header_field ::
  "nat \<Rightarrow> u64 \<Rightarrow> u64 \<Rightarrow> reader \<Rightarrow> message_header \<Rightarrow> (message_header \<times> reader) outcome" where
  "header_field max_alloc field wire r h =
     (if field = 1 then
        bind_outcome (read_string max_alloc r) (\<lambda>(str, r'). Ok (h\<lparr>DeviceID := str\<rparr>, r'))
      else if field = 2 then
        bind_outcome (read_uvarint r) (\<lambda>(v, r'). Ok (h\<lparr>Timestamp := v\<rparr>, r'))
      else if field = 3 then
        bind_outcome (read_uvarint r) (\<lambda>(v, r'). Ok (h\<lparr>SeqNo := ucast v\<rparr>, r'))
      else if field = 4 then
        bind_outcome (read_string max_alloc r) (\<lambda>(str, r'). Ok (h\<lparr>FirmwareVersion := str\<rparr>, r'))
      else if field = 5 then
        bind_outcome (read_uvarint r) (\<lambda>(v, r'). Ok (h\<lparr>BootCount := ucast v\<rparr>, r'))
      else bind_outcome (skip_field r wire) (\<lambda>r'. Ok (h, r')))"

definition metrics_field ::
  "u64 \<Rightarrow> u64 \<Rightarrow> reader \<Rightarrow> metrics_data \<Rightarrow> (metrics_data \<times> reader) outcome" where
  "metrics_field field wire r m =
     (if field = 1 then
        bind_outcome (read_le32 r) (\<lambda>(raw, r'). Ok (m\<lparr>Temperature := f32_to_f64 raw\<rparr>, r'))
      else if field = 2 then
        bind_outcome (read_le32 r) (\<lambda>(raw, r'). Ok (m\<lparr>Humidity := f32_to_f64 raw\<rparr>, r'))
      else if field = 3 then
        bind_outcome (read_le32 r) (\<lambda>(raw, r'). Ok (m\<lparr>BatteryVoltage := f32_to_f64 raw\<rparr>, r'))
      else if field = 4 then
        bind_outcome (read_uvarint r) (\<lambda>(v, r'). Ok (m\<lparr>BatteryLevelPct := ucast v\<rparr>, r'))
      else if field = 5 then
        bind_outcome (read_uvarint r) (\<lambda>(v, r'). Ok (m\<lparr>RSSI := ucast v\<rparr>, r'))
      else if field = 6 then
        bind_outcome (read_uvarint r) (\<lambda>(v, r'). Ok (m\<lparr>IntervalSec := ucast v\<rparr>, r'))
      else bind_outcome (skip_field r wire) (\<lambda>r'. Ok (m, r')))"

definition state_name :: "u64 \<Rightarrow> gostring" where
  "state_name v = (if v = 1 then ''LOW_POWER'' else if v = 2 then ''WARNING''
                   else if v = 3 then ''ERROR'' else ''NORMAL'')"

definition status_field ::
  "u64 \<Rightarrow> u64 \<Rightarrow> reader \<Rightarrow> device_status \<Rightarrow> (device_status \<times> reader) outcome" where
  "status_field field wire r s =
     (if field = 1 then
        bind_outcome (read_uvarint r) (\<lambda>(v, r'). Ok (s\<lparr>State := state_name v\<rparr>, r'))
      else if field = 2 then
        bind_outcome (read_uvarint r) (\<lambda>(v, r'). Ok (s\<lparr>UptimeSec := ucast v\<rparr>, r'))
      else if field = 3 then
        bind_outcome (read_uvarint r) (\<lambda>(v, r'). Ok (s\<lparr>FreeHeapBytes := ucast v\<rparr>, r'))
      else bind_outcome (skip_field r wire) (\<lambda>r'. Ok (s, r')))"

section \<open>The loops\<close>

text \<open>
  \<^verbatim>\<open>for r.Len() > 0\<close> of the sub-message parsers: a tag that cannot be read ends the loop
  without an error (\<^verbatim>\<open>if err != nil { break }\<close>); an error of the switch is returned.
\<close>

partial_function (option) message_loop ::
  "(u64 \<Rightarrow> u64 \<Rightarrow> reader \<Rightarrow> 'm \<Rightarrow> ('m \<times> reader) outcome) \<Rightarrow> reader \<Rightarrow> 'm \<Rightarrow> 'm outcome option"
where
  "message_loop switch r m =
     (if 0 < rd_len r then
        (case read_uvarint r of
           Ok tr \<Rightarrow>
             (case switch (drop_bit 3 (fst tr)) (fst tr AND 7) (snd tr) m of
                Ok mr \<Rightarrow> message_loop switch (snd mr) (fst mr)
              | Err e \<Rightarrow> Some (Err e)
              | Panic \<Rightarrow> Some Panic)
         | Err e \<Rightarrow> Some (Ok m)
         | Panic \<Rightarrow> Some Panic)
      else Some (Ok m))"

definition parse_header :: "nat \<Rightarrow> u8 list \<Rightarrow> message_header \<Rightarrow> message_header outcome option" where
  "parse_header max_alloc data h = message_loop (header_field max_alloc) (new_reader data) h"

definition parse_metrics :: "u8 list \<Rightarrow> metrics_data \<Rightarrow> metrics_data outcome option" where
  "parse_metrics data m = message_loop metrics_field (new_reader data) m"

definition parse_status :: "u8 list \<Rightarrow> device_status \<Rightarrow> device_status outcome option" where
  "parse_status data s = message_loop status_field (new_reader data) s"

text \<open>A length-delimited field of the root message: its bytes are read, parsed and stored.\<close>

definition sub_message ::
  "nat \<Rightarrow> (u8 list \<Rightarrow> 'm outcome option) \<Rightarrow> ('m \<Rightarrow> 'p) \<Rightarrow> reader \<Rightarrow> ('p \<times> reader) outcome option"
where
  "sub_message max_alloc parse store r =
     (case read_chunk max_alloc r of
        Ok br \<Rightarrow>
          (case parse (fst br) of
             None \<Rightarrow> None
           | Some (Ok m) \<Rightarrow> Some (Ok (store m, snd br))
           | Some (Err e) \<Rightarrow> Some (Err e)
           | Some Panic \<Rightarrow> Some Panic)
      | Err e \<Rightarrow> Some (Err e)
      | Panic \<Rightarrow> Some Panic)"

definition root_field ::
  "nat \<Rightarrow> u64 \<Rightarrow> u64 \<Rightarrow> reader \<Rightarrow> telemetry_payload \<Rightarrow> (telemetry_payload \<times> reader) outcome option"
where
  "root_field max_alloc field wire r p =
     (if field = 1 then
        sub_message max_alloc (\<lambda>d. parse_header max_alloc d (Header p)) (\<lambda>h. p\<lparr>Header := h\<rparr>) r
      else if field = 2 then
        sub_message max_alloc (\<lambda>d. parse_metrics d (Metrics p)) (\<lambda>m. p\<lparr>Metrics := m\<rparr>) r
      else if field = 3 then
        (case Status p of
           Some s \<Rightarrow> sub_message max_alloc (\<lambda>d. parse_status d s) (\<lambda>s'. p\<lparr>Status := Some s'\<rparr>) r
         | None \<Rightarrow> Some Panic)
      else Some (bind_outcome (skip_field r wire) (\<lambda>r'. Ok (p, r'))))"

partial_function (option) decode_loop ::
  "nat \<Rightarrow> reader \<Rightarrow> telemetry_payload \<Rightarrow> telemetry_payload outcome option"
where
  "decode_loop max_alloc r p =
     (if 0 < rd_len r then
        (case read_uvarint r of
           Ok tr \<Rightarrow>
             (case root_field max_alloc (drop_bit 3 (fst tr)) (fst tr AND 7) (snd tr) p of
                None \<Rightarrow> None
              | Some (Ok pr) \<Rightarrow> decode_loop max_alloc (snd pr) (fst pr)
              | Some (Err e) \<Rightarrow> Some (Err e)
              | Some Panic \<Rightarrow> Some Panic)
         | Err e \<Rightarrow> (if e = EOF then Some (Ok p) else Some (Err e))
         | Panic \<Rightarrow> Some Panic)
      else Some (Ok p))"

definition zero_payload :: telemetry_payload where
  "zero_payload = \<lparr>Header = zero_header, Metrics = zero_metrics, Status = Some zero_status\<rparr>"

definition DecodeTelemetryProtobuf :: "nat \<Rightarrow> u8 list \<Rightarrow> telemetry_payload outcome option" where
  "DecodeTelemetryProtobuf max_alloc data = decode_loop max_alloc (new_reader data) zero_payload"

section \<open>The contract of a field switch\<close>

text \<open>
  What the loops rely on in a field switch: the reader it returns is over the same bytes, it
  never lies before the reader it was given unless a varint with the top bit set is in the
  bytes, and a panic means that a declared length exceeded what can be allocated.
\<close>

locale wire_switch =
  fixes switch :: "u64 \<Rightarrow> u64 \<Rightarrow> reader \<Rightarrow> 'm \<Rightarrow> ('m \<times> reader) outcome"
    and max_alloc :: nat
  assumes switch_data: "switch f w r m = Ok (m', r') \<Longrightarrow> rd_ok r \<Longrightarrow> rd_ok r' \<and> rd_data r' = rd_data r"
    and switch_forward: "switch f w r m = Ok (m', r') \<Longrightarrow> rd_ok r \<Longrightarrow> 0 < rd_pos r \<Longrightarrow>
      varints_below (2 ^ 63) (rd_data r) \<Longrightarrow> rd_pos r \<le> rd_pos r'"
    and switch_panic: "switch f w r m = Panic \<Longrightarrow> rd_ok r \<Longrightarrow> 0 < rd_pos r \<Longrightarrow>
      \<not> varints_below (Suc max_alloc) (rd_data r)"
begin

lemma loop_returns:
  "rd_ok r \<Longrightarrow> varints_below (2 ^ 63) (rd_data r) \<Longrightarrow> \<exists>res. message_loop switch r m = Some res"
proof (induction "rd_len r" arbitrary: r m rule: less_induct)
  case less
  show ?case
  proof (cases "0 < rd_len r")
    case True
    show ?thesis
    proof (cases "read_uvarint r")
      case (Ok tr)
      then obtain tag r1 where tr: "read_uvarint r = Ok (tag, r1)" by (cases tr) auto
      have adv: "advances 1 r r1" using tr by (rule read_uvarint_advances)
      have r1: "rd_ok r1" "rd_data r1 = rd_data r" "rd_pos r < rd_pos r1"
        using advances_ok[OF adv] less.prems(1) adv by (auto simp: advances_def)
      have p1: "0 < rd_pos r1" using r1(3) less.prems(1) by (simp add: rd_ok_def)
      show ?thesis
      proof (cases "switch (drop_bit 3 tag) (tag AND 7) r1 m")
        case (Ok mr)
        then obtain m' r2 where sw: "switch (drop_bit 3 tag) (tag AND 7) r1 m = Ok (m', r2)"
          by (cases mr) auto
        note d = switch_data[OF sw r1(1)]
        have "rd_pos r1 \<le> rd_pos r2"
          using switch_forward[OF sw r1(1) p1] less.prems(2) r1(2) by simp
        then have "rd_len r2 < rd_len r"
          using d r1 True less.prems(1) by (auto simp: rd_len_def rd_ok_def split: if_splits)
        from less.hyps[OF this] d less.prems(2) r1(2)
        have "\<exists>res. message_loop switch r2 m' = Some res" by simp
        with True tr sw show ?thesis by (simp add: message_loop.simps[of switch r m])
      qed (use True tr in \<open>simp_all add: message_loop.simps[of switch r m]\<close>)
    qed (use True in \<open>simp_all add: message_loop.simps[of switch r m]\<close>)
  qed (simp add: message_loop.simps[of switch r m])
qed

lemma loop_no_panic:
  assumes ret: "message_loop switch r m = Some res"
    and ok: "rd_ok r" "varints_below (Suc max_alloc) (rd_data r)"
  shows "res \<noteq> Panic"
proof -
  have "rd_ok r \<and> varints_below (Suc max_alloc) (rd_data r) \<and> switch = switch \<longrightarrow> res \<noteq> Panic"
  proof (rule message_loop.raw_induct [where P = "\<lambda>sw r m res. rd_ok r \<and>
           varints_below (Suc max_alloc) (rd_data r) \<and> sw = switch \<longrightarrow> res \<noteq> Panic", OF _ ret])
    fix f sw r m res
    assume IH: "\<And>sw r m res. f sw r m = Some res \<Longrightarrow> rd_ok r \<and>
           varints_below (Suc max_alloc) (rd_data r) \<and> sw = switch \<longrightarrow> res \<noteq> Panic"
      and eq: "(if 0 < rd_len r
        then case read_uvarint r of
               Ok tr \<Rightarrow>
                 (case sw (drop_bit 3 (fst tr)) (fst tr AND 7) (snd tr) m of
                    Ok mr \<Rightarrow> f sw (snd mr) (fst mr)
                  | Err e \<Rightarrow> Some (Err e) | Panic \<Rightarrow> Some Panic)
             | Err e \<Rightarrow> Some (Ok m) | Panic \<Rightarrow> Some Panic
        else Some (Ok m)) = Some res"
    show "rd_ok r \<and> varints_below (Suc max_alloc) (rd_data r) \<and> sw = switch \<longrightarrow> res \<noteq> Panic"
    proof (intro impI, elim conjE)
      assume r: "rd_ok r" "varints_below (Suc max_alloc) (rd_data r)" "sw = switch"
      show "res \<noteq> Panic"
      proof (cases "0 < rd_len r \<and> (\<exists>tr. read_uvarint r = Ok tr)")
        case True
        then obtain tag r1 where tr: "read_uvarint r = Ok (tag, r1)" by auto
        have adv: "advances 1 r r1" using tr by (rule read_uvarint_advances)
        have r1: "rd_ok r1" "rd_data r1 = rd_data r" "0 < rd_pos r1"
          using advances_ok[OF adv] r(1) adv by (auto simp: advances_def rd_ok_def)
        show ?thesis
        proof (cases "switch (drop_bit 3 tag) (tag AND 7) r1 m")
          case (Ok mr)
          then obtain m' r2 where sw: "switch (drop_bit 3 tag) (tag AND 7) r1 m = Ok (m', r2)"
            by (cases mr) auto
          with eq True tr r(3) have "f switch r2 m' = Some res" by simp
          from IH[OF this] switch_data[OF sw r1(1)] r1(2) r(2) show ?thesis by simp
        next
          case Panic
          from switch_panic[OF this r1(1,3)] r1(2) r(2) show ?thesis by simp
        qed (use eq True tr r(3) in auto)
      qed (use eq r in \<open>auto split: if_splits outcome.splits\<close>)
    qed
  qed
  with ok show ?thesis by simp
qed

end
lemma read_chunk_Ok:
  assumes "read_chunk max_alloc r = Ok (bs, r')" and "rd_ok r"
  shows "advances 1 r r'" and "\<exists>q. bs = take (length bs) (drop q (rd_data r)) \<and> q + length bs \<le> length (rd_data r)"
    and "length bs \<le> max_alloc"
proof -
  from assms(1) obtain n r1 k where n: "read_uvarint r = Ok (n, r1)" "unat n \<le> max_alloc"
    "read_full (unat n) r1 = Ok (bs, r')"
    by (auto simp: read_chunk_def bind_outcome_Ok_iff make_buffer_def split: if_splits)
  have adv: "advances 1 r r1" using n(1) by (rule read_uvarint_advances)
  have r1: "rd_ok r1" "rd_data r1 = rd_data r" using advances_ok[OF adv assms(2)] adv by (auto simp: advances_def)
  note f = read_full_Ok[OF n(3) r1(1)]
  show "advances 1 r r'" using advances_trans[OF adv f(2)] by (rule advances_weaken) simp
  show "length bs \<le> max_alloc" using f(1) n(2) by simp
  show "\<exists>q. bs = take (length bs) (drop q (rd_data r)) \<and> q + length bs \<le> length (rd_data r)"
  proof (cases "unat n = 0")
    case True
    then show ?thesis using f(1) by auto
  next
    case False
    then show ?thesis using f r1(2) by (intro exI[of _ "nat (rd_pos r1)"]) simp
  qed
qed

lemma read_chunk_Panic:
  assumes "read_chunk max_alloc r = Panic" and "0 < rd_pos r"
  shows "\<not> varints_below (Suc max_alloc) (rd_data r)"
proof
  assume "varints_below (Suc max_alloc) (rd_data r)"
  with varints_belowD[OF this _ assms(2)] assms(1) show False
    by (fastforce simp: read_chunk_def bind_outcome_Panic_iff make_buffer_def split: if_splits)
qed

lemma read_string_facts:
  "read_string max_alloc r = Ok (s, r') \<Longrightarrow> rd_ok r \<Longrightarrow> advances 1 r r'"
  "read_string max_alloc r = Panic \<Longrightarrow> 0 < rd_pos r \<Longrightarrow> \<not> varints_below (Suc max_alloc) (rd_data r)"
  by (auto simp: read_string_def bind_outcome_Ok_iff bind_outcome_Panic_iff
           dest: read_chunk_Ok(1) read_chunk_Panic)

lemma reads_keep:
  "read_uvarint r = Ok (v, r') \<Longrightarrow> rd_ok r \<Longrightarrow>
     rd_ok r' \<and> rd_data r' = rd_data r \<and> rd_pos r < rd_pos r'"
  "read_le32 r = Ok (u, r') \<Longrightarrow> rd_ok r \<Longrightarrow>
     rd_ok r' \<and> rd_data r' = rd_data r \<and> rd_pos r < rd_pos r'"
  "read_le64 r = Ok (v, r') \<Longrightarrow> rd_ok r \<Longrightarrow>
     rd_ok r' \<and> rd_data r' = rd_data r \<and> rd_pos r < rd_pos r'"
  "read_string max_alloc r = Ok (s, r') \<Longrightarrow> rd_ok r \<Longrightarrow>
     rd_ok r' \<and> rd_data r' = rd_data r \<and> rd_pos r < rd_pos r'"
  by (auto simp: advances_def dest: advances_ok dest!: read_uvarint_advances read_le32_advances
      read_le64_advances read_string_facts(1))

lemma skip_field_data:
  "skip_field r w = Ok r' \<Longrightarrow> rd_ok r \<Longrightarrow> rd_ok r' \<and> rd_data r' = rd_data r"
  by (auto simp: skip_field_def bind_outcome_Ok_iff split: if_splits
       dest!: reads_keep dest: seek_current_data seek_current_ok)

lemma skip_field_forward:
  assumes "skip_field r w = Ok r'" and "rd_ok r" and "0 < rd_pos r" and "varints_below (2 ^ 63) (rd_data r)"
  shows "rd_pos r \<le> rd_pos r'"
proof (cases "w = 2")
  case True
  with assms(1) obtain n r1 where n: "read_uvarint r = Ok (n, r1)" "seek_current n r1 = Ok r'"
    by (auto simp: skip_field_def bind_outcome_Ok_iff)
  note k = reads_keep(1)[OF n(1) assms(2)]
  from seek_current_forward[OF n(2) varints_belowD[OF assms(4) n(1) assms(3)]] k show ?thesis by simp
next
  case False
  with assms(1,2) show ?thesis
    by (auto simp: skip_field_def bind_outcome_Ok_iff split: if_splits dest!: reads_keep)
qed

lemma skip_field_not_Panic [simp]: "skip_field r w \<noteq> Panic"
  by (auto simp: skip_field_def bind_outcome_Panic_iff)


lemmas field_defs = header_field_def metrics_field_def status_field_def

interpretation header: wire_switch "header_field max_alloc" max_alloc for max_alloc
proof
  fix f w r m m' r'
  assume ok: "rd_ok r"
  { assume "header_field max_alloc f w r m = Ok (m', r')"
    with ok show "rd_ok r' \<and> rd_data r' = rd_data r"
      by (auto simp: header_field_def bind_outcome_Ok_iff split: if_splits dest!: reads_keep dest: skip_field_data) }
  { assume "header_field max_alloc f w r m = Ok (m', r')" "0 < rd_pos r" "varints_below (2 ^ 63) (rd_data r)"
    with ok show "rd_pos r \<le> rd_pos r'"
      by (auto simp: header_field_def bind_outcome_Ok_iff split: if_splits dest!: reads_keep dest: skip_field_forward) }
  { assume "header_field max_alloc f w r m = Panic" "0 < rd_pos r"
    then show "\<not> varints_below (Suc max_alloc) (rd_data r)"
      by (auto simp: header_field_def bind_outcome_Panic_iff split: if_splits dest: read_string_facts(2)) }
qed

interpretation metrics: wire_switch metrics_field max_alloc for max_alloc
proof
  fix f w r m m' r'
  assume ok: "rd_ok r"
  { assume "metrics_field f w r m = Ok (m', r')"
    with ok show "rd_ok r' \<and> rd_data r' = rd_data r"
      by (auto simp: metrics_field_def bind_outcome_Ok_iff split: if_splits dest!: reads_keep dest: skip_field_data) }
  { assume "metrics_field f w r m = Ok (m', r')" "0 < rd_pos r" "varints_below (2 ^ 63) (rd_data r)"
    with ok show "rd_pos r \<le> rd_pos r'"
      by (auto simp: metrics_field_def bind_outcome_Ok_iff split: if_splits dest!: reads_keep dest: skip_field_forward) }
  { assume "metrics_field f w r m = Panic"
    then show "\<not> varints_below (Suc max_alloc) (rd_data r)"
      by (auto simp: metrics_field_def bind_outcome_Panic_iff split: if_splits) }
qed

interpretation status: wire_switch status_field max_alloc for max_alloc
proof
  fix f w r m m' r'
  assume ok: "rd_ok r"
  { assume "status_field f w r m = Ok (m', r')"
    with ok show "rd_ok r' \<and> rd_data r' = rd_data r"
      by (auto simp: status_field_def bind_outcome_Ok_iff split: if_splits dest!: reads_keep dest: skip_field_data) }
  { assume "status_field f w r m = Ok (m', r')" "0 < rd_pos r" "varints_below (2 ^ 63) (rd_data r)"
    with ok show "rd_pos r \<le> rd_pos r'"
      by (auto simp: status_field_def bind_outcome_Ok_iff split: if_splits dest!: reads_keep dest: skip_field_forward) }
  { assume "status_field f w r m = Panic"
    then show "\<not> varints_below (Suc max_alloc) (rd_data r)"
      by (auto simp: status_field_def bind_outcome_Panic_iff split: if_splits) }
qed

section \<open>The root message: termination and panics\<close>

lemma new_reader_data [simp]: "rd_data (new_reader bs) = bs"
  by (simp add: new_reader_def)

lemma chunk_slice:
  assumes "read_chunk max_alloc r = Ok (bs, r')" and "rd_ok r" and "varints_below L (rd_data r)"
  shows "varints_below L bs" and "length bs < 2 ^ 63"
proof -
  from read_chunk_Ok(2)[OF assms(1,2)] obtain q
    where q: "bs = take (length bs) (drop q (rd_data r))" "q + length bs \<le> length (rd_data r)" by blast
  from varints_below_slice[OF assms(3) q(2)] q(1) show "varints_below L bs" by metis
  show "length bs < 2 ^ 63" using q(2) assms(2) by (simp add: rd_ok_def)
qed

lemma sub_message_returns:
  assumes "rd_ok r" and "varints_below (2 ^ 63) (rd_data r)"
    and "\<And>bs. length bs < 2 ^ 63 \<Longrightarrow> varints_below (2 ^ 63) bs \<Longrightarrow> \<exists>res. parse bs = Some res"
  shows "\<exists>res. sub_message max_alloc parse store r = Some res"
proof (cases "read_chunk max_alloc r")
  case (Ok br)
  then have "\<exists>res. parse (fst br) = Some res"
    using chunk_slice[of max_alloc r "fst br" "snd br"] assms by simp
  with Ok show ?thesis by (auto simp: sub_message_def split: outcome.splits)
qed (simp_all add: sub_message_def)

lemma sub_message_Ok:
  assumes "sub_message max_alloc parse store r = Some (Ok (p, r'))" and "rd_ok r"
  shows "rd_ok r' \<and> rd_data r' = rd_data r \<and> rd_pos r < rd_pos r' \<and> (\<exists>m. p = store m)"
proof -
  from assms(1) obtain bs m where c: "read_chunk max_alloc r = Ok (bs, r')" and m: "p = store m"
    by (auto simp: sub_message_def split: outcome.splits option.splits)
  have adv: "advances 1 r r'" using c assms(2) by (rule read_chunk_Ok(1))
  from advances_ok[OF adv assms(2)] adv m show ?thesis by (auto simp: advances_def)
qed

lemma sub_message_Panic:
  assumes "sub_message max_alloc parse store r = Some Panic"
    and "rd_ok r" "0 < rd_pos r" and "varints_below (Suc max_alloc) (rd_data r)"
  shows "\<exists>bs. length bs < 2 ^ 63 \<and> varints_below (Suc max_alloc) bs \<and> parse bs = Some Panic"
proof (cases "read_chunk max_alloc r")
  case (Ok br)
  with assms(1) have "parse (fst br) = Some Panic"
    by (auto simp: sub_message_def split: outcome.splits option.splits)
  with Ok chunk_slice[of max_alloc r "fst br" "snd br"] assms show ?thesis by auto
next
  case Panic
  with read_chunk_Panic assms(3,4) show ?thesis by blast
qed (use assms(1) in \<open>simp add: sub_message_def\<close>)

text \<open>The three sub-message parsers, as instances of the contract.\<close>

lemmas parse_defs = parse_header_def parse_metrics_def parse_status_def

lemma parsers_return:
  assumes "length bs < 2 ^ 63" and "varints_below (2 ^ 63) bs"
  shows "\<exists>res. parse_header max_alloc bs h = Some res"
    and "\<exists>res. parse_metrics bs m = Some res" and "\<exists>res. parse_status bs s = Some res"
  using assms header.loop_returns metrics.loop_returns status.loop_returns
  by (simp_all add: parse_defs)

lemma parsers_no_panic:
  assumes "length bs < 2 ^ 63" and "varints_below (Suc max_alloc) bs"
  shows "parse_header max_alloc bs h \<noteq> Some Panic"
    and "parse_metrics bs m \<noteq> Some Panic" and "parse_status bs s \<noteq> Some Panic"
  using assms header.loop_no_panic metrics.loop_no_panic status.loop_no_panic
  unfolding parse_defs by (metis new_reader_data rd_ok_new)+

lemma root_field_returns:
  assumes "rd_ok r" and "varints_below (2 ^ 63) (rd_data r)"
  shows "\<exists>res. root_field max_alloc f w r p = Some res"
  using assms by (auto simp: root_field_def split: option.splits
      intro!: sub_message_returns parsers_return)

lemma root_field_Ok:
  assumes "root_field max_alloc f w r p = Some (Ok (p', r'))" and "rd_ok r"
  shows "rd_ok r' \<and> rd_data r' = rd_data r"
    and "0 < rd_pos r \<Longrightarrow> varints_below (2 ^ 63) (rd_data r) \<Longrightarrow> rd_pos r \<le> rd_pos r'"
    and "Status p \<noteq> None \<Longrightarrow> Status p' \<noteq> None"
  using assms
  by (auto simp: root_field_def bind_outcome_Ok_iff split: if_splits option.splits
      dest!: sub_message_Ok dest: skip_field_data skip_field_forward)

lemma root_field_no_panic:
  assumes "rd_ok r" "0 < rd_pos r" and "varints_below (Suc max_alloc) (rd_data r)" and "Status p \<noteq> None"
  shows "root_field max_alloc f w r p \<noteq> Some Panic"
  using assms parsers_no_panic
  by (auto simp: root_field_def bind_outcome_Panic_iff split: option.splits
      dest!: sub_message_Panic)

lemma decode_loop_returns:
  "rd_ok r \<Longrightarrow> varints_below (2 ^ 63) (rd_data r) \<Longrightarrow> \<exists>res. decode_loop max_alloc r p = Some res"
proof (induction "rd_len r" arbitrary: r p rule: less_induct)
  case less
  show ?case
  proof (cases "0 < rd_len r \<and> (\<exists>tr. read_uvarint r = Ok tr)")
    case False
    then show ?thesis
      by (subst decode_loop.simps) (auto split: outcome.splits)
  next
    case True
    then obtain tag r1 where tr: "read_uvarint r = Ok (tag, r1)" by auto
    note k = reads_keep(1)[OF tr less.prems(1)]
    have p1: "0 < rd_pos r1" using k less.prems(1) by (simp add: rd_ok_def)
    from root_field_returns[of r1 max_alloc "drop_bit 3 tag" "tag AND 7" p] k less.prems(2)
    obtain res where res: "root_field max_alloc (drop_bit 3 tag) (tag AND 7) r1 p = Some res" by auto
    show ?thesis
    proof (cases res)
      case (Ok pr)
      then obtain p' r2 where rf: "root_field max_alloc (drop_bit 3 tag) (tag AND 7) r1 p = Some (Ok (p', r2))"
        using res by (cases pr) auto
      have r2: "rd_ok r2" "rd_data r2 = rd_data r" "rd_pos r1 \<le> rd_pos r2"
        using root_field_Ok(1,2)[OF rf] k p1 less.prems(2) by auto
      have "rd_len r2 < rd_len r"
        using r2 k True less.prems(1) by (auto simp: rd_len_def rd_ok_def split: if_splits)
      from less.hyps[OF this r2(1)] r2(2) less.prems(2)
      have "\<exists>res. decode_loop max_alloc r2 p' = Some res" by simp
      with True tr rf show ?thesis by (simp add: decode_loop.simps[of max_alloc r p])
    qed (use True tr res in \<open>simp_all add: decode_loop.simps[of max_alloc r p]\<close>)
  qed
qed

lemma decode_loop_no_panic:
  assumes ret: "decode_loop max_alloc r p = Some res"
    and ok: "rd_ok r" "varints_below (Suc max_alloc) (rd_data r)" "Status p \<noteq> None"
  shows "res \<noteq> Panic"
proof -
  have "rd_ok r \<and> varints_below (Suc max_alloc) (rd_data r) \<and> Status p \<noteq> None \<longrightarrow> res \<noteq> Panic"
  proof (rule decode_loop.raw_induct [where P = "\<lambda>max_alloc r p res. rd_ok r \<and>
           varints_below (Suc max_alloc) (rd_data r) \<and> Status p \<noteq> None \<longrightarrow> res \<noteq> Panic", OF _ ret])
    fix f max_alloc r p res
    assume IH: "\<And>max_alloc r p res. f max_alloc r p = Some res \<Longrightarrow> rd_ok r \<and>
           varints_below (Suc max_alloc) (rd_data r) \<and> Status p \<noteq> None \<longrightarrow> res \<noteq> Panic"
      and eq: "(if 0 < rd_len r
        then case read_uvarint r of
               Ok tr \<Rightarrow>
                 (case root_field max_alloc (drop_bit 3 (fst tr)) (fst tr AND 7) (snd tr) p of
                    None \<Rightarrow> None
                  | Some (Ok pr) \<Rightarrow> f max_alloc (snd pr) (fst pr)
                  | Some (Err e) \<Rightarrow> Some (Err e) | Some Panic \<Rightarrow> Some Panic)
             | Err e \<Rightarrow> (if e = EOF then Some (Ok p) else Some (Err e)) | Panic \<Rightarrow> Some Panic
        else Some (Ok p)) = Some res"
    show "rd_ok r \<and> varints_below (Suc max_alloc) (rd_data r) \<and> Status p \<noteq> None \<longrightarrow> res \<noteq> Panic"
    proof (intro impI, elim conjE)
      assume r: "rd_ok r" "varints_below (Suc max_alloc) (rd_data r)" "Status p \<noteq> None"
      show "res \<noteq> Panic"
      proof (cases "0 < rd_len r \<and> (\<exists>tr. read_uvarint r = Ok tr)")
        case True
        then obtain tag r1 where tr: "read_uvarint r = Ok (tag, r1)" by auto
        note k = reads_keep(1)[OF tr r(1)]
        have p1: "0 < rd_pos r1" using k r(1) by (simp add: rd_ok_def)
        let ?rf = "root_field max_alloc (drop_bit 3 tag) (tag AND 7) r1 p"
        have np: "?rf \<noteq> Some Panic" using root_field_no_panic k p1 r by simp
        show ?thesis
        proof (cases "\<exists>p' r2. ?rf = Some (Ok (p', r2))")
          case True
          then obtain p' r2 where rf: "?rf = Some (Ok (p', r2))" by blast
          with eq tr \<open>0 < rd_len r \<and> _\<close> have "f max_alloc r2 p' = Some res" by simp
          from IH[OF this] root_field_Ok(1,3)[OF rf] k r show ?thesis by simp
        qed (use eq tr np \<open>0 < rd_len r \<and> _\<close> in \<open>auto split: option.splits outcome.splits\<close>)
      qed (use eq r in \<open>auto split: if_splits outcome.splits\<close>)
    qed
  qed
  with ok show ?thesis by simp
qed

section \<open>Properties of the decoder\<close>

text \<open>
  C13: Termination. The decoder returns on every input none of whose varints, at any position
  after the first byte, has the top bit of its 64 bits set. (Without that condition it may
  not return: see \<open>decode_back_jump_diverges\<close>.)
\<close>

theorem decode_returns:
  assumes "length data < 2 ^ 63" and "varints_below (2 ^ 63) data"
  shows "\<exists>res. DecodeTelemetryProtobuf max_alloc data = Some res"
  unfolding DecodeTelemetryProtobuf_def using assms
  by (intro decode_loop_returns) simp_all

lemma decode_returns_witness:
  "\<exists>res. DecodeTelemetryProtobuf 64 [0x0a, 4, 0x18, 1, 0x28, 7, 0x7a, 1, 0] = Some res"
  by (rule decode_returns)
     (simp_all add: varints_below_def varint_at_def read_uvarint_def read_uvarint_from.simps
        read_byte_def upt_rec)

text \<open>
  C27: The decoder never panics on an input whose varints, after the first byte, are all at
  most \<open>max_alloc\<close>: the only panic is the allocation of a declared length.
\<close>

theorem decode_no_panic:
  assumes "length data < 2 ^ 63" and "varints_below (Suc max_alloc) data"
  shows "DecodeTelemetryProtobuf max_alloc data \<noteq> Some Panic"
proof
  assume "DecodeTelemetryProtobuf max_alloc data = Some Panic"
  from decode_loop_no_panic[OF this[unfolded DecodeTelemetryProtobuf_def]] assms
  show False by (simp add: zero_payload_def)
qed

lemma decode_no_panic_witness:
  "DecodeTelemetryProtobuf 128 [0x0a, 4, 0x18, 1, 0x28, 7, 0x7a, 1, 0] \<noteq> Some Panic"
  by (rule decode_no_panic)
     (simp_all add: varints_below_def varint_at_def read_uvarint_def read_uvarint_from.simps
        read_byte_def upt_rec)

end
