(* ===== verification/Http.thy ===== *)
theory Http
  imports Json_Values "HOL-Library.Sublist"
begin

text \<open>
  The parts of net/http, context and strings that the handlers use, and the middleware of
  server/api/middleware/mtls\_auth.go. A handler maps a request, its context and the server's
  state to a response and the new state; it may also panic (net/http then aborts the
  connection and the state stays as the handler left it) or never return (None). A response
  body is the value that the handler encodes or writes.
\<close>

section \<open>Requests and responses\<close>

record certificate =
  CommonName :: gostring
  IssuerName :: gostring
  DNSNames :: "gostring list"

text \<open>\<open>PeerCertificates\<close> is None for a nil \<^verbatim>\<open>r.TLS\<close>; \<open>Body\<close> is what reading the body to its
  end gives; \<open>Query\<close> holds the decoded parameters of the query in order.\<close>

record http_request =
  Method :: gostring
  Path :: gostring
  Query :: "(gostring \<times> gostring) list"
  ContentType :: gostring
  Body :: "u8 list outcome"
  PeerCertificates :: "certificate list option"

record request_context =
  DeviceIDKey :: "gostring option"
  CertKey :: "certificate option"

definition background_context :: request_context where
  "background_context = \<lparr>DeviceIDKey = None, CertKey = None\<rparr>"

datatype http_body =
    NoBody
  | TextBody gostring
  | ResponseBody api_response
  | FieldsBody "(gostring \<times> gostring) list"
  | DevicesBody "device_state slice"
  | HistoryBody "telemetry_payload slice"

record http_response =
  StatusCode :: nat
  Headers :: "(gostring \<times> gostring) list"
  RespBody :: http_body

type_synonym 's handled = "(http_response outcome \<times> 's) option"

type_synonym 's http_handler = "request_context \<Rightarrow> http_request \<Rightarrow> 's \<Rightarrow> 's handled"

definition json_response :: "nat \<Rightarrow> http_body \<Rightarrow> http_response" where
  "json_response code body =
     \<lparr>StatusCode = code, Headers = [(''Content-Type'', ''application/json'')], RespBody = body\<rparr>"

text \<open>\<^verbatim>\<open>http.Error\<close>\<close>

definition http_Error :: "nat \<Rightarrow> gostring \<Rightarrow> http_response" where
  "http_Error code msg = \<lparr>StatusCode = code,
     Headers = [(''Content-Type'', ''text/plain; charset=utf-8''), (''X-Content-Type-Options'', ''nosniff'')],
     RespBody = TextBody (msg @ [CHR 0x0A])\<rparr>"

text \<open>\<open>json.NewEncoder(w).Encode(v)\<close> of a value that cannot be marshalled writes nothing, and
  the handlers ignore the error.\<close>

definition encoded :: "bool \<Rightarrow> http_body \<Rightarrow> http_body" where
  "encoded encodable body = (if encodable then body else NoBody)"

section \<open>Strings\<close>

definition strings_Contains :: "gostring \<Rightarrow> gostring \<Rightarrow> bool" where
  "strings_Contains s sub = sublist sub s"

fun strings_Split :: "char \<Rightarrow> gostring \<Rightarrow> gostring list" where
  "strings_Split sep [] = [[]]"
| "strings_Split sep (c # s) =
     (if c = sep then [] # strings_Split sep s
      else case strings_Split sep s of [] \<Rightarrow> [[c]] | p # ps \<Rightarrow> (c # p) # ps)"

lemma strings_Split_nonempty [simp]: "strings_Split sep s \<noteq> []"
  by (induction s) (auto split: list.splits)

text \<open>\<^verbatim>\<open>Query().Get(key)\<close>: the first value, or the empty string.\<close>

definition query_Get :: "(gostring \<times> gostring) list \<Rightarrow> gostring \<Rightarrow> gostring" where
  "query_Get q key = (case map_of q key of None \<Rightarrow> [] | Some v \<Rightarrow> v)"

section \<open>The mTLS middleware\<close>

definition GetAuthenticatedDeviceID :: "request_context \<Rightarrow> gostring \<times> bool" where
  "GetAuthenticatedDeviceID ctx =
     (case DeviceIDKey ctx of None \<Rightarrow> ([], False) | Some devID \<Rightarrow> (devID, True))"

definition GetClientCert :: "request_context \<Rightarrow> certificate option \<times> bool" where
  "GetClientCert ctx = (CertKey ctx, CertKey ctx \<noteq> None)"

definition MTLSAuthMiddleware :: "bool \<Rightarrow> 's http_handler \<Rightarrow> 's http_handler" where
  "MTLSAuthMiddleware requireMTLS next_handler ctx req s =
     (case PeerCertificates req of
        Some (clientCert # _) \<Rightarrow>
          next_handler (ctx\<lparr>DeviceIDKey := Some (CommonName clientCert), CertKey := Some clientCert\<rparr>) req s
      | _ \<Rightarrow>
          if requireMTLS
          then Some (Ok (json_response 401 (ResponseBody (zero_response\<lparr>RespStatus := ''UNAUTHORIZED'',
                 RespMessage := ''mTLS client certificate required''\<rparr>))), s)
          else next_handler (ctx\<lparr>DeviceIDKey := Some ''DEV-ESP32-001''\<rparr>) req s)"

definition peer_certificate :: "http_request \<Rightarrow> certificate option" where
  "peer_certificate req = (case PeerCertificates req of Some (c # _) \<Rightarrow> Some c | _ \<Rightarrow> None)"

lemma middleware_cases:
  "MTLSAuthMiddleware requireMTLS nxt ctx req s =
     (case peer_certificate req of
        Some c \<Rightarrow> nxt (ctx\<lparr>DeviceIDKey := Some (CommonName c), CertKey := Some c\<rparr>) req s
      | None \<Rightarrow>
          if requireMTLS
          then Some (Ok (json_response 401 (ResponseBody (zero_response\<lparr>RespStatus := ''UNAUTHORIZED'',
                 RespMessage := ''mTLS client certificate required''\<rparr>))), s)
          else nxt (ctx\<lparr>DeviceIDKey := Some ''DEV-ESP32-001''\<rparr>) req s)"
  by (simp add: MTLSAuthMiddleware_def peer_certificate_def split: option.splits list.splits)

end
