(* ===== verification/Api_Handler.thy ===== *)
theory Api_Handler
  imports Rule_Engine Proto_Decoder Http
begin

text \<open>
  The HTTP handlers of server/api/handlers/telemetry\_handler.go over any implementation of
  the repository interface. A handler runs alone: the interleaving of requests is at the
  level of whole handlers. Log lines are not modelled.

  \<open>go_env\<close> holds what the handlers use of the machine and of package encoding/json: the
  largest buffer, the conversion of a float outside the range of \<^verbatim>\<open>uint32\<close>, the SHA-256
  digest in hexadecimal, and the decoding of JSON bodies. \<open>clk\<close> is the sequence of the
  clock readings of one request; the readings are arbitrary, so which of them a call takes
  only matters in that two calls take two readings.
\<close>

section \<open>State\<close>

record queue_request =
  QueueDevice :: gostring
  QueueAction :: gostring
  QueueParams :: "json_map option"

record ack_request =
  AckDevice :: gostring
  AckID :: gostring
  AckResult :: gostring

record go_env =
  max_alloc :: nat
  u32_oor :: "f64 \<Rightarrow> u32"
  sha256_hex :: "gostring \<Rightarrow> gostring"
  unmarshal_telemetry :: "u8 list \<Rightarrow> telemetry_payload outcome"
  unmarshal_event :: "u8 list \<Rightarrow> event_payload outcome"
  decode_queue_request :: "u8 list outcome \<Rightarrow> queue_request outcome"
  decode_ack_request :: "u8 list outcome \<Rightarrow> ack_request outcome"

text \<open>The fields of \<^verbatim>\<open>ApiHandler\<close> that no handler changes, and those that change with every
  request; \<open>webhook_calls\<close> lists the alerts whose webhook goroutine was started.\<close>

record 's api_handler =
  repo :: "'s repository"
  availableOTA :: "ota_info option"
  ruleEngine :: "'s rule_engine"

record 's api_state =
  repo_state :: 's
  deviceSleepConfigs :: "gostring \<rightharpoonup> u32"
  webhook_calls :: "alert_event list"

definition firmware_image :: gostring where
  "firmware_image = ''FIRMWARE_IMAGE_V1.1.0_PROD_RELEASE_DATA_2026''"

definition NewApiHandler :: "go_env \<Rightarrow> 's repository \<Rightarrow> gostring \<Rightarrow> 's api_handler" where
  "NewApiHandler env rp url = \<lparr>repo = rp,
     availableOTA = Some \<lparr>Available = True, TargetVersion = ''1.1.0'',
       PackageURL = ''https://127.0.0.1:8443/api/v1/ota/download/1.1.0'',
       SHA256 = sha256_hex env firmware_image,
       SizeBytes = word_of_nat (length firmware_image * 1024), Mandatory = False\<rparr>,
     ruleEngine = NewRuleEngine DefaultThresholds url (Some rp)\<rparr>"

definition initial_state :: "'s \<Rightarrow> 's api_state" where
  "initial_state s = \<lparr>repo_state = s, deviceSleepConfigs = Map.empty, webhook_calls = []\<rparr>"

section \<open>Responses\<close>

definition writeError :: "time \<Rightarrow> nat \<Rightarrow> gostring \<Rightarrow> gostring \<Rightarrow> http_response" where
  "writeError now statusCode status msg = json_response statusCode
     (ResponseBody (zero_response\<lparr>RespStatus := status, RespMessage := msg,
        ServerTime := unix_seconds now\<rparr>))"

section \<open>HandleTelemetry\<close>

text \<open>Decoding by content type: the payload, or the text of the error answer.\<close>

datatype decoded_body = Decoded telemetry_payload | Rejected gostring | Crashed

definition decode_telemetry_body :: "go_env \<Rightarrow> http_request \<Rightarrow> u8 list \<Rightarrow> decoded_body option" where
  "decode_telemetry_body env req body =
     (if strings_Contains (ContentType req) ''protobuf'' \<or> strings_Contains (ContentType req) ''octet-stream''
      then map_option (\<lambda>res. case res of
               Ok p \<Rightarrow> Decoded p
             | Err e \<Rightarrow> Rejected (''Protobuf decode error: '' @ error_text e)
             | Panic \<Rightarrow> Crashed) (DecodeTelemetryProtobuf (max_alloc env) body)
      else Some (case unmarshal_telemetry env body of
               Ok p \<Rightarrow> Decoded p
             | Err e \<Rightarrow> Rejected (''JSON parse error: '' @ error_text e)
             | Panic \<Rightarrow> Crashed))"

definition ota_offer :: "'s api_handler \<Rightarrow> telemetry_payload \<Rightarrow> ota_info option" where
  "ota_offer h p =
     (case availableOTA h of
        Some ota \<Rightarrow> if FirmwareVersion (Header p) \<noteq> TargetVersion ota then Some ota
                    else Some (zero_ota\<lparr>Available := False\<rparr>)
      | None \<Rightarrow> Some (zero_ota\<lparr>Available := False\<rparr>))"

definition sleep_setting :: "(gostring \<rightharpoonup> u32) \<Rightarrow> gostring \<Rightarrow> u32" where
  "sleep_setting configs dev =
     (case configs dev of
        Some sec \<Rightarrow> if sec = 0 then 60 else sec
      | None \<Rightarrow> 60)"

text \<open>The interval that a command sets: \<^verbatim>\<open>Params["sleep_interval_sec"].(float64)\<close>, positive.\<close>

definition config_interval :: "go_env \<Rightarrow> gostring \<Rightarrow> json_map option \<Rightarrow> u32 option" where
  "config_interval env action params =
     (if action = ''CONFIG_UPDATE'' then
        (case params of
           None \<Rightarrow> None
         | Some kvs \<Rightarrow>
             (case map_of kvs ''sleep_interval_sec'' of
                Some (JNumber sVal) \<Rightarrow> if f64_gt sVal 0 then Some (f64_to_u32 (u32_oor env) sVal) else None
              | _ \<Rightarrow> None))
      else None)"

text \<open>The loop over the pending commands, which updates the local interval and the map.\<close>

fun apply_commands ::
  "go_env \<Rightarrow> gostring \<Rightarrow> device_command list \<Rightarrow> u32 \<times> (gostring \<rightharpoonup> u32) \<Rightarrow> u32 \<times> (gostring \<rightharpoonup> u32)"
where
  "apply_commands env dev [] (sec, configs) = (sec, configs)"
| "apply_commands env dev (cmd # cmds) (sec, configs) =
     (case config_interval env (Action cmd) (Params cmd) of
        Some v \<Rightarrow> apply_commands env dev cmds (v, configs(dev \<mapsto> v))
      | None \<Rightarrow> apply_commands env dev cmds (sec, configs))"

text \<open>From the OTA decision to the response.\<close>

definition respond_telemetry ::
  "'s api_handler \<Rightarrow> go_env \<Rightarrow> (nat \<Rightarrow> time) \<Rightarrow> telemetry_payload \<Rightarrow> 's api_state \<Rightarrow> 's api_state handled"
where
  "respond_telemetry h env clk p st =
     (let dev = DeviceID (Header p);
          otaInfo = ota_offer h p;
          sec0 = sleep_setting (deviceSleepConfigs st) dev;
          (pending, s') = GetPendingCommands (repo h) (clk 0) dev (repo_state st)
      in case pending of
           Panic \<Rightarrow> Some (Panic, st\<lparr>repo_state := s'\<rparr>)
         | _ \<Rightarrow>
             let pendingCmds = (case pending of Ok cmds \<Rightarrow> cmds | _ \<Rightarrow> []);
                 (sec1, configs) = apply_commands env dev pendingCmds (sec0, deviceSleepConfigs st);
                 sleepIntervalSec = (if BatteryLevelPct (Metrics p) < 20 then 300 else sec1);
                 resp = \<lparr>RespStatus = ''OK'', RespMessage = ''Telemetry accepted'',
                         ServerTime = unix_seconds (clk 1), SleepIntervalSec = sleepIntervalSec,
                         OTA = otaInfo, Commands = pendingCmds\<rparr>
             in Some (Ok (json_response 200 (encoded (response_encodable resp) (ResponseBody resp))),
                      st\<lparr>repo_state := s', deviceSleepConfigs := configs\<rparr>))"

text \<open>From the write to the repository on.\<close>

definition accept_telemetry ::
  "'s api_handler \<Rightarrow> go_env \<Rightarrow> (nat \<Rightarrow> time) \<Rightarrow> telemetry_payload \<Rightarrow> 's api_state \<Rightarrow> 's api_state handled"
where
  "accept_telemetry h env clk p st =
     (let (saved, s1) = SaveTelemetry (repo h) (clk 0) p (repo_state st)
      in case saved of
           Panic \<Rightarrow> Some (Panic, st\<lparr>repo_state := s1\<rparr>)
         | Err e \<Rightarrow> Some (Ok (writeError (clk 1) 500 ''STORAGE_ERROR'' ''Internal storage error''),
                         st\<lparr>repo_state := s1\<rparr>)
         | Ok _ \<Rightarrow>
             let (alerts, s2, started) = EvaluateAndAlert (ruleEngine h) (\<lambda>n. clk (n + 3)) p s1;
                 st2 = st\<lparr>repo_state := s2, webhook_calls := webhook_calls st @ started\<rparr>
             in case alerts of
                  Panic \<Rightarrow> Some (Panic, st2)
                | _ \<Rightarrow> respond_telemetry h env (\<lambda>n. clk (n + 1)) p st2)"

definition HandleTelemetry ::
  "'s api_handler \<Rightarrow> go_env \<Rightarrow> (nat \<Rightarrow> time) \<Rightarrow> 's api_state http_handler"
where
  "HandleTelemetry h env clk ctx req st =
     (if Method req \<noteq> ''POST'' then Some (Ok (http_Error 405 ''Method Not Allowed''), st)
      else
        let authDeviceID = fst (GetAuthenticatedDeviceID ctx)
        in case Body req of
             Panic \<Rightarrow> Some (Panic, st)
           | Err e \<Rightarrow> Some (Ok (writeError (clk 0) 400 ''INVALID_PAYLOAD'' ''Failed to read request body''), st)
           | Ok body \<Rightarrow>
               (case decode_telemetry_body env req body of
                  None \<Rightarrow> None
                | Some Crashed \<Rightarrow> Some (Panic, st)
                | Some (Rejected msg) \<Rightarrow> Some (Ok (writeError (clk 0) 400 ''INVALID_PAYLOAD'' msg), st)
                | Some (Decoded payload) \<Rightarrow>
                    if authDeviceID \<noteq> [] \<and> DeviceID (Header payload) \<noteq> authDeviceID
                    then Some (Ok (writeError (clk 0) 403 ''UNAUTHORIZED''
                           ''Device ID in payload does not match client certificate''), st)
                    else accept_telemetry h env clk payload st))"

section \<open>The command handlers\<close>

text \<open>\<^verbatim>\<open>fmt.Sprintf("cmd-%d", time.Now().UnixNano())\<close>\<close>

definition command_id :: "time \<Rightarrow> gostring" where
  "command_id now = ''cmd-'' @ show_signed (word_of_int now :: i64)"

definition HandleQueueCommand ::
  "'s api_handler \<Rightarrow> go_env \<Rightarrow> (nat \<Rightarrow> time) \<Rightarrow> 's api_state http_handler"
where
  "HandleQueueCommand h env clk ctx req st =
     (if Method req \<noteq> ''POST''
      then Some (Ok (writeError (clk 0) 405 ''METHOD_NOT_ALLOWED'' ''Only POST allowed''), st)
      else
        case decode_queue_request env (Body req) of
          Panic \<Rightarrow> Some (Panic, st)
        | Err e \<Rightarrow> Some (Ok (writeError (clk 0) 400 ''INVALID_PARAM'' ''Invalid command payload''), st)
        | Ok q \<Rightarrow>
            if QueueDevice q = [] \<or> QueueAction q = []
            then Some (Ok (writeError (clk 0) 400 ''INVALID_PARAM'' ''Invalid command payload''), st)
            else
              let cmdID = command_id (clk 0);
                  cmd = \<lparr>CommandID = cmdID, Action = QueueAction q, Params = QueueParams q\<rparr>;
                  st1 = (case config_interval env (QueueAction q) (QueueParams q) of
                           Some v \<Rightarrow> st\<lparr>deviceSleepConfigs := (deviceSleepConfigs st)(QueueDevice q \<mapsto> v)\<rparr>
                         | None \<Rightarrow> st);
                  (queued, s') = QueueCommand (repo h) (clk 1) (QueueDevice q) cmd (repo_state st1);
                  st2 = st1\<lparr>repo_state := s'\<rparr>
              in case queued of
                   Panic \<Rightarrow> Some (Panic, st2)
                 | Err e \<Rightarrow> Some (Ok (writeError (clk 2) 500 ''ERROR''
                                  (''Failed to queue command: '' @ error_text e)), st2)
                 | Ok _ \<Rightarrow> Some (Ok (json_response 200 (FieldsBody
                            [(''action'', QueueAction q), (''command_id'', cmdID),
                             (''device_id'', QueueDevice q), (''status'', ''QUEUED'')])), st2))"

definition HandleAckCommand ::
  "'s api_handler \<Rightarrow> go_env \<Rightarrow> (nat \<Rightarrow> time) \<Rightarrow> 's api_state http_handler"
where
  "HandleAckCommand h env clk ctx req st =
     (case decode_ack_request env (Body req) of
        Panic \<Rightarrow> Some (Panic, st)
      | Err e \<Rightarrow> Some (Ok (writeError (clk 0) 400 ''INVALID_PARAM'' ''Invalid ACK payload''), st)
      | Ok a \<Rightarrow>
          let (acked, s') = AckCommand (repo h) (clk 0) (AckDevice a) (AckID a) (AckResult a) (repo_state st);
              st' = st\<lparr>repo_state := s'\<rparr>
          in case acked of
               Panic \<Rightarrow> Some (Panic, st')
             | _ \<Rightarrow> Some (Ok (json_response 200 (FieldsBody [(''status'', ''ACK_RECORDED'')])), st'))"

section \<open>The other handlers\<close>

definition HandleOtaDownload :: "'s api_state http_handler" where
  "HandleOtaDownload ctx req st =
     (if Method req \<noteq> ''GET'' then Some (Ok (http_Error 405 ''Method Not Allowed''), st)
      else
        let version = last (strings_Split CHR ''/'' (Path req));
            data = firmware_image
        in Some (Ok \<lparr>StatusCode = 200,
             Headers = [(''Content-Type'', ''application/octet-stream''),
                        (''Content-Disposition'', ''attachment; filename=firmware_'' @ version @ ''.bin''),
                        (''Content-Length'', show_nat (length data))],
             RespBody = TextBody data\<rparr>, st))"

definition HandleEvents ::
  "'s api_handler \<Rightarrow> go_env \<Rightarrow> (nat \<Rightarrow> time) \<Rightarrow> 's api_state http_handler"
where
  "HandleEvents h env clk ctx req st =
     (if Method req \<noteq> ''POST'' then Some (Ok (http_Error 405 ''Method Not Allowed''), st)
      else
        case Body req of
          Panic \<Rightarrow> Some (Panic, st)
        | Err e \<Rightarrow> Some (Ok (writeError (clk 0) 400 ''INVALID_PAYLOAD'' ''Failed to read request body''), st)
        | Ok body \<Rightarrow>
            (case unmarshal_event env body of
               Panic \<Rightarrow> Some (Panic, st)
             | Err e \<Rightarrow> Some (Ok (writeError (clk 0) 400 ''INVALID_PAYLOAD''
                              (''JSON parse error: '' @ error_text e)), st)
             | Ok payload \<Rightarrow>
                 let (saved, s') = SaveEvent (repo h) (clk 0) payload (repo_state st);
                     st' = st\<lparr>repo_state := s'\<rparr>
                 in case saved of
                      Panic \<Rightarrow> Some (Panic, st')
                    | Err e \<Rightarrow> Some (Ok (writeError (clk 1) 500 ''ERROR'' ''Failed to save event''), st')
                    | Ok _ \<Rightarrow> Some (Ok (json_response 200 (ResponseBody (zero_response\<lparr>
                               RespStatus := ''OK'', RespMessage := ''Event recorded'',
                               ServerTime := unix_seconds (clk 1)\<rparr>))), st')))"

definition HandleListDevices :: "'s api_handler \<Rightarrow> 's api_state http_handler" where
  "HandleListDevices h ctx req st =
     (let devs = ListDevices (repo h) (repo_state st)
      in Some (Ok (json_response 200 (encoded (list_all device_encodable (elements devs)) (DevicesBody devs))), st))"

definition HandleTelemetryHistory ::
  "'s api_handler \<Rightarrow> (nat \<Rightarrow> time) \<Rightarrow> 's api_state http_handler"
where
  "HandleTelemetryHistory h clk ctx req st =
     (let deviceID = query_Get (Query req) ''device_id''
      in if deviceID = []
         then Some (Ok (writeError (clk 0) 400 ''INVALID_PARAM'' ''device_id query parameter is required''), st)
         else
           case GetTelemetryHistory (repo h) deviceID 50 (repo_state st) of
             Panic \<Rightarrow> Some (Panic, st)
           | Err e \<Rightarrow> Some (Ok (writeError (clk 0) 500 ''ERROR''
                            (''Failed to query history: '' @ error_text e)), st)
           | Ok history \<Rightarrow> Some (Ok (json_response 200
                 (encoded (list_all payload_encodable (elements history)) (HistoryBody history))), st))"

definition HandleHealth :: "(nat \<Rightarrow> time) \<Rightarrow> 's api_state http_handler" where
  "HandleHealth clk ctx req st = Some (Ok (json_response 200 (TextBody
     (''{\"status\":\"HEALTHY\",\"timestamp\":'' @ show_signed (unix_seconds (clk 0)) @ ''}''))), st)"

end
