(* ===== verification/Handler_Laws.thy ===== *)
theory Handler_Laws
  imports Api_Handler
begin

text \<open>
  What the handlers guarantee on every repository that satisfies the contract: the lemmas are
  proved once inside the locale of the interface, and hold for an implementation through its
  interpretation.
\<close>

definition authenticated_id :: "request_context \<Rightarrow> gostring" where
  "authenticated_id ctx = fst (GetAuthenticatedDeviceID ctx)"

definition well_wired :: "'s repository \<Rightarrow> 's api_handler \<Rightarrow> bool" where
  "well_wired ops h \<longleftrightarrow> repo h = ops \<and>
     (engine_repo (ruleEngine h) = Some ops \<or> engine_repo (ruleEngine h) = None)"

lemma new_handler_wired: "well_wired ops (NewApiHandler env ops url)"
  by (simp add: well_wired_def NewApiHandler_def NewRuleEngine_def)

text \<open>The request asks for the payload \<open>p\<close> to be stored: it is a POST whose body decodes to
  \<open>p\<close>, and the device id is the authenticated one (or there is none).\<close>

definition submits :: "go_env \<Rightarrow> request_context \<Rightarrow> http_request \<Rightarrow> telemetry_payload \<Rightarrow> bool" where
  "submits env ctx req p \<longleftrightarrow> Method req = ''POST'' \<and>
     (\<exists>body. Body req = Ok body \<and> decode_telemetry_body env req body = Some (Decoded p)) \<and>
     (authenticated_id ctx = [] \<or> DeviceID (Header p) = authenticated_id ctx)"

lemma submits_accept:
  "submits env ctx req p \<Longrightarrow> HandleTelemetry h env clk ctx req st = accept_telemetry h env clk p st"
  by (auto simp: submits_def HandleTelemetry_def authenticated_id_def Let_def)

text \<open>Every other answer of \<open>HandleTelemetry\<close> leaves the state as it was.\<close>

lemma telemetry_cases:
  assumes "HandleTelemetry h env clk ctx req st = Some (res, st')"
  shows "(\<exists>p. submits env ctx req p \<and> accept_telemetry h env clk p st = Some (res, st')) \<or>
    (st' = st \<and> (\<forall>resp. res = Ok resp \<longrightarrow> StatusCode resp \<in> {400, 403, 405}))"
proof (cases "\<exists>p. submits env ctx req p")
  case True
  with assms submits_accept show ?thesis by metis
next
  case False
  with assms show ?thesis
    by (auto simp: HandleTelemetry_def submits_def authenticated_id_def http_Error_def writeError_def
        json_response_def Let_def split: if_splits outcome.splits option.splits decoded_body.splits)
qed

text \<open>The loop over the pending commands keeps the last interval set.\<close>

definition last_interval :: "go_env \<Rightarrow> device_command list \<Rightarrow> u32 option" where
  "last_interval env cmds =
     (let vs = List.map_filter (\<lambda>c. config_interval env (Action c) (Params c)) cmds
      in if vs = [] then None else Some (last vs))"

lemma apply_commands_last:
  "apply_commands env dev cmds (sec, configs) =
     (case last_interval env cmds of None \<Rightarrow> (sec, configs) | Some v \<Rightarrow> (v, configs(dev \<mapsto> v)))"
  by (induction env dev cmds "(sec, configs)" arbitrary: sec configs rule: apply_commands.induct)
     (auto simp: last_interval_def List.map_filter_simps Let_def split: option.splits)

definition chosen_interval ::
  "go_env \<Rightarrow> (gostring \<rightharpoonup> u32) \<Rightarrow> telemetry_payload \<Rightarrow> device_command list \<Rightarrow> u32"
where
  "chosen_interval env configs p cmds =
     (if BatteryLevelPct (Metrics p) < 20 then 300
      else case last_interval env cmds of
             Some v \<Rightarrow> v
           | None \<Rightarrow> sleep_setting configs (DeviceID (Header p)))"

definition telemetry_response ::
  "'s api_handler \<Rightarrow> go_env \<Rightarrow> time \<Rightarrow> (gostring \<rightharpoonup> u32) \<Rightarrow> telemetry_payload \<Rightarrow> device_command list \<Rightarrow> api_response"
where
  "telemetry_response h env now configs p cmds =
     \<lparr>RespStatus = ''OK'', RespMessage = ''Telemetry accepted'', ServerTime = unix_seconds now,
      SleepIntervalSec = chosen_interval env configs p cmds, OTA = ota_offer h p, Commands = cmds\<rparr>"

definition merged_configs ::
  "go_env \<Rightarrow> gostring \<Rightarrow> device_command list \<Rightarrow> (gostring \<rightharpoonup> u32) \<Rightarrow> (gostring \<rightharpoonup> u32)"
where
  "merged_configs env dev cmds configs =
     (case last_interval env cmds of None \<Rightarrow> configs | Some v \<Rightarrow> configs(dev \<mapsto> v))"

lemma respond_pending:
  assumes "GetPendingCommands (repo h) (clk 0) (DeviceID (Header p)) (repo_state st) = (pending, s')"
    and "pending \<noteq> Panic"
  shows "respond_telemetry h env clk p st =
    (let cmds = (case pending of Ok cs \<Rightarrow> cs | _ \<Rightarrow> []);
         resp = telemetry_response h env (clk 1) (deviceSleepConfigs st) p cmds
     in Some (Ok (json_response 200 (encoded (response_encodable resp) (ResponseBody resp))),
              st\<lparr>repo_state := s',
                 deviceSleepConfigs := merged_configs env (DeviceID (Header p)) cmds (deviceSleepConfigs st)\<rparr>))"
  using assms
  by (auto simp: respond_telemetry_def telemetry_response_def chosen_interval_def merged_configs_def
      apply_commands_last Let_def split: outcome.splits option.splits)

section \<open>On every repository that satisfies the contract\<close>

context repository_contract
begin

lemma respond_keeps:
  assumes "respond_telemetry h env clk p st = Some (res, st')" and "repo h = ops" and "inv (repo_state st)"
  shows "inv (repo_state st')" and "GetDevice ops dev (repo_state st') = GetDevice ops dev (repo_state st)"
    and "res = Ok resp \<Longrightarrow> StatusCode resp = 200"
    and "webhook_calls st' = webhook_calls st"
proof -
  let ?g = "GetPendingCommands ops (clk 0) (DeviceID (Header p)) (repo_state st)"
  have st': "repo_state st' = snd ?g" "webhook_calls st' = webhook_calls st"
    using assms(1,2) by (auto simp: respond_telemetry_def Let_def split: outcome.splits prod.splits)
  show "inv (repo_state st')" using inv_pending[OF assms(3)] by (simp add: st')
  show "GetDevice ops dev (repo_state st') = GetDevice ops dev (repo_state st)"
    using pending_device[OF assms(3)] by (simp add: st')
  show "res = Ok resp \<Longrightarrow> StatusCode resp = 200"
    using assms(1) by (auto simp: respond_telemetry_def json_response_def Let_def
        split: outcome.splits prod.splits)
  show "webhook_calls st' = webhook_calls st" by (rule st')
qed

lemma accept_effect:
  assumes acc: "accept_telemetry h env clk p st = Some (res, st')"
    and wired: "well_wired ops h" and inv: "inv (repo_state st)"
  shows "inv (repo_state st') \<and>
    (\<forall>dev. dev \<noteq> DeviceID (Header p) \<longrightarrow>
       GetDevice ops dev (repo_state st') = GetDevice ops dev (repo_state st)) \<and>
    (\<forall>resp. res = Ok resp \<longrightarrow>
       (if StatusCode resp = 200
        then \<exists>d. GetDevice ops (DeviceID (Header p)) (repo_state st') = Ok d \<and> reports (clk 0) p d
        else StatusCode resp = 500 \<and> st' = st))"
proof -
  note w = wired[unfolded well_wired_def]
  obtain saved s1 where save: "SaveTelemetry ops (clk 0) p (repo_state st) = (saved, s1)" by fastforce
  have i1: "inv s1" using inv_save[OF inv, of "clk 0" p] save by simp
  have other: "dev \<noteq> DeviceID (Header p) \<Longrightarrow> GetDevice ops dev s1 = GetDevice ops dev (repo_state st)" for dev
    by (rule save_other[OF inv save])
  show ?thesis
  proof (cases saved)
    case (Ok u)
    obtain al s2 started where ev: "EvaluateAndAlert (ruleEngine h) (\<lambda>n. clk (n + 3)) p s1 = (al, s2, started)"
      by (metis prod_cases3)
    from evaluate_keeps[OF i1 _ ev] w have i2: "inv s2" and d2: "GetDevice ops dev s2 = GetDevice ops dev s1" for dev
      by auto
    from Ok save obtain d where d: "GetDevice ops (DeviceID (Header p)) s1 = outcome.Ok d" "reports (clk 0) p d"
      using save_reports[OF inv] by fastforce
    let ?st2 = "st\<lparr>repo_state := s2, webhook_calls := webhook_calls st @ started\<rparr>"
    have "accept_telemetry h env clk p st = (case al of Panic \<Rightarrow> Some (Panic, ?st2)
        | _ \<Rightarrow> respond_telemetry h env (\<lambda>n. clk (n + 1)) p ?st2)"
      using w save Ok ev by (simp add: accept_telemetry_def Let_def)
    with acc consider "res = Panic" "st' = ?st2" | "respond_telemetry h env (\<lambda>n. clk (n + 1)) p ?st2 = Some (res, st')"
      by (cases al) auto
    then show ?thesis
    proof cases
      case 1
      then show ?thesis using i2 d2 other by simp
    next
      case 2
      have "repo h = ops" "inv (repo_state ?st2)" using w i2 by simp_all
      note k = respond_keeps[OF 2 this]
      from k(1,3) k(2)[of "DeviceID (Header p)"] k(2) d d2 other show ?thesis by auto
    qed
  next
    case (Err e)
    then show ?thesis using acc w save save_failed[OF inv save] inv
      by (auto simp: accept_telemetry_def writeError_def json_response_def)
  next
    case Panic
    then show ?thesis using acc w save i1 other by (auto simp: accept_telemetry_def)
  qed
qed

text \<open>Every other handler leaves the device entries alone and keeps the invariant.\<close>

lemma queue_keeps:
  assumes "HandleQueueCommand h env clk ctx req st = Some (res, st')"
    and "repo h = ops" and "inv (repo_state st)"
  shows "inv (repo_state st') \<and> (\<forall>dev. GetDevice ops dev (repo_state st') = GetDevice ops dev (repo_state st))"
  using assms inv_queue[OF assms(3)] queue_device[OF assms(3)]
  by (auto simp: HandleQueueCommand_def Let_def case_prod_beta split: if_splits outcome.splits option.splits)

lemma ack_keeps:
  assumes "HandleAckCommand h env clk ctx req st = Some (res, st')"
    and "repo h = ops" and "inv (repo_state st)"
  shows "inv (repo_state st') \<and> (\<forall>dev. GetDevice ops dev (repo_state st') = GetDevice ops dev (repo_state st))"
  using assms inv_ack[OF assms(3)] ack_device[OF assms(3)]
  by (auto simp: HandleAckCommand_def Let_def case_prod_beta split: outcome.splits)

lemma events_keeps:
  assumes "HandleEvents h env clk ctx req st = Some (res, st')"
    and "repo h = ops" and "inv (repo_state st)"
  shows "inv (repo_state st') \<and> (\<forall>dev. GetDevice ops dev (repo_state st') = GetDevice ops dev (repo_state st))"
  using assms inv_event[OF assms(3)] event_device[OF assms(3)]
  by (auto simp: HandleEvents_def Let_def case_prod_beta split: if_splits outcome.splits)

lemma telemetry_keeps:
  assumes "HandleTelemetry h env clk ctx req st = Some (res, st')"
    and "well_wired ops h" and "inv (repo_state st)"
  shows "inv (repo_state st') \<and> (\<forall>dev. GetDevice ops dev (repo_state st') \<noteq> GetDevice ops dev (repo_state st) \<longrightarrow>
     (\<exists>p. submits env ctx req p \<and> DeviceID (Header p) = dev))"
  using telemetry_cases[OF assms(1)]
proof (elim disjE exE conjE)
  fix p assume p: "submits env ctx req p" "accept_telemetry h env clk p st = Some (res, st')"
  note a = accept_effect[OF p(2) assms(2,3)]
  from a have "inv (repo_state st')" by (rule conjunct1)
  moreover have "GetDevice ops dev (repo_state st') = GetDevice ops dev (repo_state st)"
    if "dev \<noteq> DeviceID (Header p)" for dev
    using a[THEN conjunct2, THEN conjunct1] that by simp
  ultimately show ?thesis using p(1) by metis
qed (use assms(3) in simp)

end

text \<open>The handlers that only read.\<close>

lemma readers_keep:
  "HandleOtaDownload ctx req st = Some (res, st') \<Longrightarrow> st' = st"
  "HandleListDevices h ctx req st = Some (res, st') \<Longrightarrow> st' = st"
  "HandleTelemetryHistory h clk ctx req st = Some (res, st') \<Longrightarrow> st' = st"
  "HandleHealth clk ctx req st = Some (res, st') \<Longrightarrow> st' = st"
  by (auto simp: HandleOtaDownload_def HandleListDevices_def HandleTelemetryHistory_def HandleHealth_def
      Let_def split: if_splits outcome.splits)

end
