(* ===== verification/Memory_Refinement.thy ===== *)
theory Memory_Refinement
  imports Memory_Repo
begin

text \<open>
  What the in-memory repository promises, stated without its maps, heap and counters: every
  answer is a function of the sequence of operations performed so far. A device is known
  when a telemetry of it was saved; its entry reports the last one and counts them; its
  history is the saved payloads in order, cut to the newest ones; a command is pending when it
  was queued and not acknowledged since. The implementation refines that specification.
\<close>

datatype repo_op =
    Saved time telemetry_payload
  | Recorded event_payload
  | Queued gostring device_command
  | Acked gostring gostring

primrec mem_step :: "repo_op \<Rightarrow> mem_repo \<Rightarrow> mem_repo" where
  "mem_step (Saved now t) r = snd (mem_SaveTelemetry now t r)"
| "mem_step (Recorded e) r = snd (mem_SaveEvent e r)"
| "mem_step (Queued dev c) r = snd (mem_QueueCommand dev c r)"
| "mem_step (Acked dev cid) r = snd (mem_AckCommand dev cid r)"

definition mem_run :: "repo_op list \<Rightarrow> mem_repo" where
  "mem_run tr = fold mem_step tr NewInMemoryRepository"

section \<open>The specification\<close>

fun saves :: "gostring \<Rightarrow> repo_op list \<Rightarrow> (time \<times> telemetry_payload) list" where
  "saves dev [] = []"
| "saves dev (Saved now t # tr) = (if payload_id t = dev then [(now, t)] else []) @ saves dev tr"
| "saves dev (_ # tr) = saves dev tr"

fun recorded :: "gostring \<Rightarrow> repo_op list \<Rightarrow> event_payload list" where
  "recorded dev [] = []"
| "recorded dev (Recorded e # tr) = (if DeviceID (EvHeader e) = dev then [e] else []) @ recorded dev tr"
| "recorded dev (_ # tr) = recorded dev tr"

fun outstanding :: "gostring \<Rightarrow> repo_op list \<Rightarrow> device_command list" where
  "outstanding dev [] = []"
| "outstanding dev (Queued d c # tr) =
     (if d = dev \<and> Acked dev (CommandID c) \<notin> set tr then [c] else []) @ outstanding dev tr"
| "outstanding dev (_ # tr) = outstanding dev tr"

definition spec_device :: "gostring \<Rightarrow> repo_op list \<Rightarrow> device_state outcome" where
  "spec_device dev tr =
     (if saves dev tr = [] then Err DeviceNotFound
      else let (now, t) = last (saves dev tr)
           in Ok \<lparr>DevID = dev, DevFirmware = FirmwareVersion (Header t), LastSeenAt = now,
                LastSeqNo = SeqNo (Header t), LastMetrics = Metrics t, LastStatus = Status t,
                DevStatus = ''ONLINE'', TotalTelemetries = word_of_nat (length (saves dev tr)),
                PendingCommandsCount = 0, CurrentIntervalSec = 0\<rparr>)"

definition newest :: "int \<Rightarrow> 'a list \<Rightarrow> 'a list" where
  "newest limit xs = (if 0 < limit then rev (take (nat limit) (rev xs)) else xs)"

text \<open>The ids of the known devices, in the order of their first telemetry.\<close>

fun seen_ids :: "repo_op list \<Rightarrow> gostring list" where
  "seen_ids [] = []"
| "seen_ids (Saved now t # tr) = payload_id t # filter (\<lambda>d. d \<noteq> payload_id t) (seen_ids tr)"
| "seen_ids (_ # tr) = seen_ids tr"

section \<open>Appending one operation\<close>

lemma saves_append: "saves dev (xs @ ys) = saves dev xs @ saves dev ys"
  by (induction dev xs rule: saves.induct) auto

lemma recorded_append: "recorded dev (xs @ ys) = recorded dev xs @ recorded dev ys"
  by (induction dev xs rule: recorded.induct) auto

lemma outstanding_snoc:
  "outstanding dev (tr @ [Saved now t]) = outstanding dev tr"
  "outstanding dev (tr @ [Recorded e]) = outstanding dev tr"
  "outstanding dev (tr @ [Queued d c]) = outstanding dev tr @ (if d = dev then [c] else [])"
  "outstanding dev (tr @ [Acked d cid]) =
     (if d = dev then filter (\<lambda>c. CommandID c \<noteq> cid) (outstanding dev tr) else outstanding dev tr)"
  by (induction dev tr rule: outstanding.induct) auto

lemma seen_ids_set: "dev \<in> set (seen_ids tr) \<longleftrightarrow> saves dev tr \<noteq> []"
  by (induction dev tr rule: saves.induct) auto

lemma seen_ids_snoc:
  "seen_ids (tr @ [Saved now t]) =
     seen_ids tr @ (if payload_id t \<in> set (seen_ids tr) then [] else [payload_id t])"
  by (induction tr rule: seen_ids.induct) auto

lemma seen_ids_other:
  "seen_ids (tr @ [Recorded e]) = seen_ids tr" "seen_ids (tr @ [Queued d c]) = seen_ids tr"
  "seen_ids (tr @ [Acked d cid]) = seen_ids tr"
  by (induction tr rule: seen_ids.induct) auto

lemma mem_run_snoc: "mem_run (tr @ [x]) = mem_step x (mem_run tr)"
  by (simp add: mem_run_def)

lemma mem_run_Nil [simp]: "mem_run [] = NewInMemoryRepository"
  by (simp add: mem_run_def)

section \<open>The implementation against the specification\<close>

lemma mem_run_inv: "mem_inv (mem_run tr)"
proof (induction tr rule: rev_induct)
  case Nil
  show ?case by (simp add: mem_inv_new)
next
  case (snoc x tr)
  then show ?case
    by (cases x) (simp_all add: mem_run_snoc mem_inv_save mem_inv_other_ops)
qed

lemma run_telemetries: "slice_of (telemetries (mem_run tr)) dev = map snd (saves dev tr)"
proof (induction tr rule: rev_induct)
  case Nil
  show ?case by (simp add: NewInMemoryRepository_def)
next
  case (snoc x tr)
  then show ?case
    by (cases x) (auto simp: mem_run_snoc saves_append save_tables mem_SaveEvent_def
        mem_QueueCommand_def mem_AckCommand_def)
qed

lemma run_events: "slice_of (events (mem_run tr)) dev = recorded dev tr"
proof (induction tr rule: rev_induct)
  case Nil
  show ?case by (simp add: NewInMemoryRepository_def)
next
  case (snoc x tr)
  then show ?case
    by (cases x) (auto simp: mem_run_snoc recorded_append save_tables mem_SaveEvent_def
        mem_QueueCommand_def mem_AckCommand_def)
qed

lemma commands_step:
  "slice_of (commands (mem_step (Saved now t) r)) dev = slice_of (commands r) dev"
  "slice_of (commands (mem_step (Recorded e) r)) dev = slice_of (commands r) dev"
  "slice_of (commands (mem_step (Queued d c) r)) dev =
     slice_of (commands r) dev @ (if d = dev then [c] else [])"
  "slice_of (commands (mem_step (Acked d cid) r)) dev =
     (if d = dev then filter (\<lambda>c. CommandID c \<noteq> cid) (slice_of (commands r) dev)
      else slice_of (commands r) dev)"
  by (simp_all add: save_tables mem_SaveEvent_def mem_QueueCommand_def mem_AckCommand_def)

lemma run_commands: "slice_of (commands (mem_run tr)) dev = outstanding dev tr"
proof (induction tr rule: rev_induct)
  case Nil
  show ?case by (simp add: NewInMemoryRepository_def)
next
  case (snoc x tr)
  then show ?case
    by (cases x) (simp_all only: mem_run_snoc outstanding_snoc commands_step)
qed

lemma run_device: "read_device dev (mem_run tr) = spec_device dev tr"
proof (induction tr rule: rev_induct)
  case Nil
  show ?case by (simp add: NewInMemoryRepository_def read_device_cases spec_device_def)
next
  case (snoc x tr)
  show ?case
  proof (cases x)
    case (Saved now t)
    with snoc show ?thesis
      by (auto simp: mem_run_snoc read_device_save[OF mem_run_inv] spec_device_def saves_append
          update_device_def zero_device_def Let_def split: prod.splits)
  qed (use snoc in \<open>simp_all add: mem_run_snoc spec_device_def saves_append\<close>)
qed

lemma run_ids: "map fst (devices (mem_run tr)) = seen_ids tr"
proof (induction tr rule: rev_induct)
  case Nil
  show ?case by (simp add: NewInMemoryRepository_def)
next
  case (snoc x tr)
  show ?case
  proof (cases x)
    case (Saved now t)
    let ?r = "mem_run tr"
    have "payload_id t \<in> set (seen_ids tr) \<longleftrightarrow> map_of (devices ?r) (payload_id t) \<noteq> None"
      using snoc by (metis map_of_eq_None_iff list.set_map)
    with Saved snoc show ?thesis
      by (cases "map_of (devices ?r) (payload_id t)")
         (auto simp: mem_run_snoc seen_ids_snoc save_known save_unknown)
  qed (use snoc in \<open>simp_all add: mem_run_snoc seen_ids_other mem_SaveEvent_def
          mem_QueueCommand_def mem_AckCommand_def\<close>)
qed

lemma history_newest: "mem_GetTelemetryHistory dev limit r = Ok (Some (newest limit (slice_of (telemetries r) dev)))"
  by (auto simp: mem_GetTelemetryHistory_def newest_def slice_of_def rev_take split: option.splits)

section \<open>Properties of the in-memory repository\<close>

text \<open>
  C7: Refinement. After any sequence of operations on a new repository, reading a device,
  its history, its pending commands and its events gives what the specification reads off the
  sequence.
\<close>

theorem memory_refines_trace:
  "GetDevice (mem_ops order) dev (mem_run tr) = spec_device dev tr \<and>
   GetTelemetryHistory (mem_ops order) dev limit (mem_run tr) = Ok (Some (newest limit (map snd (saves dev tr)))) \<and>
   GetPendingCommands (mem_ops order) now dev (mem_run tr) = (Ok (outstanding dev tr), mem_run tr) \<and>
   slice_of (events (mem_run tr)) dev = recorded dev tr"
  by (simp add: mem_ops_def run_device history_newest run_telemetries pending_slice run_commands run_events)

text \<open>The device list holds exactly one entry per device that ever saved a telemetry, in the order in
  which the run time walks the map, each as the specification describes it.\<close>

lemma memory_lists_devices:
  assumes "\<And>ks. set (order ks) = set ks"
  shows "map Ok (elements (ListDevices (mem_ops order) (mem_run tr))) =
    map (\<lambda>dev. spec_device dev tr) (order (seen_ids tr))"
proof -
  let ?r = "mem_run tr"
  have "map Ok (List.map_filter (heap ?r) (List.map_filter (map_of (devices ?r)) ks)) =
      map (\<lambda>dev. spec_device dev tr) ks" if "set ks \<subseteq> set (seen_ids tr)" for ks
    using that
  proof (induction ks)
    case Nil
    then show ?case by (simp add: List.map_filter_simps)
  next
    case (Cons k ks)
    then obtain p where p: "map_of (devices ?r) k = Some p"
      by (metis list.set_intros(1) run_ids map_of_eq_None_iff list.set_map not_None_eq subsetD)
    from mem_inv_entry(2)[OF mem_run_inv p] obtain d where "heap ?r p = Some d" by blast
    with p Cons run_device[of k tr] show ?case
      by (simp add: List.map_filter_simps read_device_cases deref_def)
  qed
  then show ?thesis using assms by (simp add: mem_ops_def mem_ListDevices_def run_ids)
qed

end
