(* ===== verification/Proto_Encoder.thy ===== *)
theory Proto_Encoder
  imports Proto_Decoder
begin

text \<open>
  The edge-side encoder of edge/middleware/serializer/protobuf_serializer.c, the other end
  of the wire format that the server's decoder reads. A C function that writes at a pointer
  and returns the number of bytes written is the list of those bytes. The three sub-messages
  are built in stack buffers of fixed size; writing past the end of one of them, or of the
  caller's buffer, is undefined behaviour and is the value None.
\<close>

text \<open>A C string is its characters before the terminating NUL, or None for a null pointer.\<close>

type_synonym cstring = "gostring option"

record telemetry_data =
  td_device_id :: cstring
  td_timestamp :: u32
  td_seq_no :: u32
  td_firmware_version :: cstring
  td_boot_count :: u32
  td_temperature :: f32
  td_humidity :: f32
  td_battery_voltage :: f32
  td_battery_level_pct :: u32
  td_rssi :: i32
  td_interval_sec :: u32
  td_state :: cstring
  td_uptime_sec :: u32
  td_free_heap_bytes :: u32

section \<open>Primitive encoders\<close>

lemma drop_bit_7_less: "\<not> v < 0x80 \<Longrightarrow> unat (drop_bit 7 v) < unat v" for v :: u64
  by (simp add: drop_bit_eq_div word_less_nat_alt unat_div)

function encode_varint :: "u64 \<Rightarrow> u8 list" where
  "encode_varint value =
     (if value < 0x80 then [ucast (value AND 0x7F)]
      else ucast ((value AND 0x7F) OR 0x80) # encode_varint (drop_bit 7 value))"
  by pat_completeness auto
termination
  by (relation "measure unat") (auto simp: drop_bit_7_less)

declare encode_varint.simps [simp del]

definition encode_tag :: "u32 \<Rightarrow> u8 \<Rightarrow> u8 list" where
  "encode_tag field_num wire_type = encode_varint (push_bit 3 (ucast field_num) OR ucast wire_type)"

definition encode_fixed32_float :: "f32 \<Rightarrow> u8 list" where
  "encode_fixed32_float raw =
     [ucast (raw AND 0xFF), ucast (drop_bit 8 raw AND 0xFF),
      ucast (drop_bit 16 raw AND 0xFF), ucast (drop_bit 24 raw AND 0xFF)]"

definition encode_string_field :: "u32 \<Rightarrow> cstring \<Rightarrow> u8 list" where
  "encode_string_field field_num str =
     (case str of None \<Rightarrow> []
      | Some s \<Rightarrow> encode_tag field_num 2 @ encode_varint (word_of_nat (length s)) @ string_to_bytes s)"

definition encode_varint_field :: "u32 \<Rightarrow> u64 \<Rightarrow> u8 list" where
  "encode_varint_field field_num val = encode_tag field_num 0 @ encode_varint val"

definition encode_float_field :: "u32 \<Rightarrow> f32 \<Rightarrow> u8 list" where
  "encode_float_field field_num val = encode_tag field_num 5 @ encode_fixed32_float val"

section \<open>The sub-messages and the whole message\<close>

definition c_default :: "gostring \<Rightarrow> cstring \<Rightarrow> gostring" where
  "c_default d s = (case s of None \<Rightarrow> d | Some x \<Rightarrow> x)"

definition header_bytes :: "telemetry_data \<Rightarrow> u8 list" where
  "header_bytes d =
     encode_string_field 1 (Some (c_default ''UNKNOWN'' (td_device_id d))) @
     encode_varint_field 2 (ucast (td_timestamp d)) @
     encode_varint_field 3 (ucast (td_seq_no d)) @
     encode_string_field 4 (Some (c_default ''1.0.0'' (td_firmware_version d))) @
     encode_varint_field 5 (ucast (td_boot_count d))"

definition metrics_bytes :: "telemetry_data \<Rightarrow> u8 list" where
  "metrics_bytes d =
     encode_float_field 1 (td_temperature d) @
     encode_float_field 2 (td_humidity d) @
     encode_float_field 3 (td_battery_voltage d) @
     encode_varint_field 4 (ucast (td_battery_level_pct d)) @
     encode_varint_field 5 (scast (td_rssi d)) @
     encode_varint_field 6 (ucast (td_interval_sec d))"

definition state_enum :: "cstring \<Rightarrow> u64" where
  "state_enum s = (if s = Some ''LOW_POWER'' then 1 else if s = Some ''WARNING'' then 2
                   else if s = Some ''ERROR'' then 3 else 0)"

definition status_bytes :: "telemetry_data \<Rightarrow> u8 list" where
  "status_bytes d =
     encode_varint_field 1 (state_enum (td_state d)) @
     encode_varint_field 2 (ucast (td_uptime_sec d)) @
     encode_varint_field 3 (ucast (td_free_heap_bytes d))"

definition root_part :: "u32 \<Rightarrow> u8 list \<Rightarrow> u8 list" where
  "root_part field_num sub =
     encode_tag field_num 2 @ encode_varint (word_of_nat (length sub)) @ sub"

text \<open>
  The result: None is undefined behaviour (a write past a buffer), otherwise the returned
  \<^verbatim>\<open>int\<close> and the bytes written at the start of \<open>out_buffer\<close>. \<open>data\<close> is None for a null
  pointer, \<open>out\<close> says that \<open>out_buffer\<close> is not null.
\<close>

definition serialize_telemetry_protobuf ::
  "telemetry_data option \<Rightarrow> bool \<Rightarrow> nat \<Rightarrow> (int \<times> u8 list) option" where
  "serialize_telemetry_protobuf data out buffer_size =
     (case data of
        None \<Rightarrow> Some (-1, [])
      | Some d \<Rightarrow>
          if \<not> out \<or> buffer_size < 128 then Some (-1, [])
          else if 64 < length (header_bytes d) then None
          else if 64 < length (metrics_bytes d) then None
          else if 32 < length (status_bytes d) then None
          else
            let bytes = root_part 1 (header_bytes d) @ root_part 2 (metrics_bytes d) @
                        root_part 3 (status_bytes d)
            in if buffer_size < length bytes then None
               else Some (int (length bytes), bytes))"

section \<open>Varints: length and round trip\<close>

lemma group_join:
  fixes v :: u64
  shows "push_bit n (v AND 0x7F) OR push_bit (n + 7) (drop_bit 7 v) = push_bit n v"
proof (rule bit_word_eqI)
  fix k assume "k < LENGTH(64)"
  then show "bit (push_bit n (v AND 0x7F) OR push_bit (n + 7) (drop_bit 7 v)) k = bit (push_bit n v) k"
    unfolding low_bits by (cases "k - n < 7") (auto simp: bit_simps)
qed

lemma varint_byte_small:
  fixes v :: u64
  assumes "v < 0x80"
  shows "(ucast (v AND 0x7F) :: u8) < 0x80" and "(ucast (ucast (v AND 0x7F) :: u8) :: u64) = v"
    and "unat (ucast (v AND 0x7F) :: u8) = unat v"
proof -
  have u: "unat v < 128" using assms by (simp add: word_less_nat_alt)
  have "unat (v AND 0x7F) = unat v mod 128"
    unfolding low_bits by (simp add: unsigned_take_bit_eq take_bit_nat_def flip: take_bit_eq_mask)
  then have v: "v AND 0x7F = v" using u by (simp add: word_unat_eq_iff)
  show b: "unat (ucast (v AND 0x7F) :: u8) = unat v"
    using u by (simp add: v unsigned_ucast_eq take_bit_nat_def)
  show "(ucast (v AND 0x7F) :: u8) < 0x80"
    using u b by (simp add: word_less_nat_alt)
  show "(ucast (ucast (v AND 0x7F) :: u8) :: u64) = v"
  proof -
    have "take_bit 8 v = v"
      using u by (simp add: word_unat_eq_iff unsigned_take_bit_eq take_bit_nat_def)
    moreover have "(ucast (ucast v :: u8) :: u64) = take_bit 8 v"
      by (rule bit_word_eqI) (auto simp: bit_simps)
    ultimately show ?thesis by (simp only: v)
  qed
qed

lemma varint_byte_more:
  fixes v :: u64
  shows "\<not> (ucast ((v AND 0x7F) OR 0x80) :: u8) < 0x80"
    and "(ucast ((ucast ((v AND 0x7F) OR 0x80) :: u8) AND 0x7F) :: u64) = v AND 0x7F"
proof -
  have "(ucast ((v AND 0x7F) OR 0x80) :: u8) = ucast (v AND 0x7F) OR 0x80"
    by (rule bit_word_eqI) (auto simp: bit_simps bit_0x7F bit_0x80 bit_127_int)
  then show "\<not> (ucast ((v AND 0x7F) OR 0x80) :: u8) < 0x80"
    by (metis le_word_or1 le_word_or2 not_less)
  show "(ucast ((ucast ((v AND 0x7F) OR 0x80) :: u8) AND 0x7F) :: u64) = v AND 0x7F"
    by (rule bit_word_eqI) (auto simp: bit_simps bit_0x7F bit_0x80 bit_127_int)
qed

lemma encode_varint_Cons: "\<exists>b bs. encode_varint v = b # bs"
  by (subst encode_varint.simps) simp

lemma encode_varint_nonempty [simp]: "encode_varint v \<noteq> []"
  using encode_varint_Cons[of v] by auto

lemma read_uvarint_from_encode:
  "i \<le> 9 \<Longrightarrow> unat v < 2 ^ (64 - 7 * i) \<Longrightarrow>
     read_uvarint_from i x (7 * i) (reader_at pre (encode_varint v @ post)) =
       Ok (x OR push_bit (7 * i) v, reader_at (pre @ encode_varint v) post)"
proof (induction v arbitrary: i x pre rule: encode_varint.induct)
  case (1 v)
  show ?case
  proof (cases "v < 0x80")
    case True
    have "unat v < 2" if "i = 9" using "1.prems"(2) that by simp
    then have "\<not> (i = 9 \<and> (ucast (v AND 0x7F) :: u8) > 1)"
      using varint_byte_small(3)[OF True] by (auto simp: word_less_nat_alt)
    with True "1.prems"(1) varint_byte_small[OF True] show ?thesis
      by (simp add: encode_varint.simps[of v] read_uvarint_from.simps[of i] reader_simps)
  next
    case False
    then have big: "128 \<le> unat v" by (simp add: word_less_nat_alt)
    have i: "i < 9"
    proof (rule ccontr)
      assume "\<not> i < 9"
      with "1.prems" big show False by simp
    qed
    have bound: "unat (drop_bit 7 v) < 2 ^ (64 - 7 * Suc i)"
    proof -
      have "unat v < 2 ^ (64 - 7 * Suc i) * 128"
      proof -
        have "64 - 7 * i = 64 - 7 * Suc i + 7" using i by simp
        then have "(2::nat) ^ (64 - 7 * i) = 2 ^ (64 - 7 * Suc i) * 2 ^ 7" by (simp only: power_add)
        with "1.prems"(2) show ?thesis by simp
      qed
      then show ?thesis by (simp add: drop_bit_eq_div unat_div less_mult_imp_div_less)
    qed
    have gj: "push_bit (7 * i) (v AND 0x7F) OR push_bit (7 * Suc i) (drop_bit 7 v) = push_bit (7 * i) v"
      using group_join[of "7 * i" v] by (simp only: mult_Suc_right add.commute)
    let ?b = "ucast ((v AND 0x7F) OR 0x80) :: u8"
    have "read_uvarint_from i x (7 * i) (reader_at pre (encode_varint v @ post)) =
        read_uvarint_from (Suc i) (x OR push_bit (7 * i) (v AND 0x7F)) (7 * Suc i)
          (reader_at (pre @ [?b]) (encode_varint (drop_bit 7 v) @ post))"
      using False i varint_byte_more[of v]
      by (simp add: encode_varint.simps[of v] read_uvarint_from.simps[of i] reader_simps add.commute)
    also have "\<dots> = Ok ((x OR push_bit (7 * i) (v AND 0x7F)) OR push_bit (7 * Suc i) (drop_bit 7 v),
          reader_at ((pre @ [?b]) @ encode_varint (drop_bit 7 v)) post)"
      by (rule "1.IH"[OF False _ bound]) (use i in simp)
    also have "\<dots> = Ok (x OR push_bit (7 * i) v, reader_at (pre @ encode_varint v) post)"
      using False by (simp only: or.assoc gj) (simp add: encode_varint.simps[of v])
    finally show ?thesis .
  qed
qed

lemma read_uvarint_encode [reader_simps]:
  "read_uvarint (reader_at pre (encode_varint v @ post)) = Ok (v, reader_at (pre @ encode_varint v) post)"
  using read_uvarint_from_encode[of 0 v 0 pre post] unsigned_less[of v, where ?'a = nat]
  by (simp add: read_uvarint_def)

lemma length_encode_varint:
  "unat v < 2 ^ (7 * n) \<Longrightarrow> 0 < n \<Longrightarrow> length (encode_varint v) \<le> n"
proof (induction v arbitrary: n rule: encode_varint.induct)
  case (1 v)
  show ?case
  proof (cases "v < 0x80")
    case True
    with "1.prems" show ?thesis by (simp add: encode_varint.simps[of v])
  next
    case False
    then have big: "128 \<le> unat v" by (simp add: word_less_nat_alt)
    have "n \<noteq> 1" using "1.prems"(1) big by auto
    then obtain m where n: "n = Suc m" "0 < m" using "1.prems"(2) by (cases n) auto
    have "unat v < 2 ^ (7 * m) * 128" using "1.prems"(1) n by (simp add: power_add)
    then have "unat (drop_bit 7 v) < 2 ^ (7 * m)"
      by (simp add: drop_bit_eq_div unat_div less_mult_imp_div_less)
    from "1.IH"[OF False this n(2)] False n show ?thesis
      by (simp add: encode_varint.simps[of v])
  qed
qed


section \<open>Stepping the decoder over one encoded field\<close>

lemma rd_len_encode [simp]: "0 < rd_len (reader_at pre (encode_varint v @ post))"
  by (simp add: reader_simps)

lemma message_loop_tag:
  "message_loop switch (reader_at pre (encode_varint tag @ post)) m =
     (case switch (drop_bit 3 tag) (tag AND 7) (reader_at (pre @ encode_varint tag) post) m of
        Ok mr \<Rightarrow> message_loop switch (snd mr) (fst mr)
      | Err e \<Rightarrow> Some (Err e)
      | Panic \<Rightarrow> Some Panic)"
  by (simp add: message_loop.simps[of switch "reader_at pre (encode_varint tag @ post)"] read_uvarint_encode)

definition tag_of :: "u32 \<Rightarrow> u8 \<Rightarrow> u64" where
  "tag_of f w = push_bit 3 (ucast f) OR ucast w"

lemma encode_tag_of: "encode_tag f w = encode_varint (tag_of f w)"
  by (simp add: encode_tag_def tag_of_def)

lemma loop_varint_field:
  assumes "\<And>r. switch (drop_bit 3 (tag_of f 0)) (tag_of f 0 AND 7) r m =
             bind_outcome (read_uvarint r) (\<lambda>(v, r'). Ok (g v, r'))"
  shows "message_loop switch (reader_at pre (encode_varint_field f v @ post)) m =
         message_loop switch (reader_at (pre @ encode_varint_field f v) post) (g v)"
  using assms
  by (simp add: encode_varint_field_def encode_tag_of message_loop_tag read_uvarint_encode)

lemma length_fixed32 [simp]: "length (encode_fixed32_float raw) = 4"
  by (simp add: encode_fixed32_float_def)

lemma le_value_fixed32: "word_of_nat (le_value (encode_fixed32_float raw)) = raw"
proof -
  define u where "u = unat raw"
  have u: "u < 2 ^ 32" unfolding u_def using unsigned_less[of raw, where ?'a = nat] by simp
  have b: "unat (ucast (drop_bit k raw AND 0xFF) :: u8) = u div 2 ^ k mod 256" for k
  proof -
    have "drop_bit k raw AND 0xFF = take_bit 8 (drop_bit k raw)"
      by (simp add: take_bit_eq_mask mask_eq_exp_minus_1)
    moreover have "unat raw mod 4294967296 = unat raw" using u by (simp add: u_def)
    ultimately show ?thesis
      by (simp add: u_def unsigned_ucast_eq unsigned_take_bit_eq unsigned_drop_bit_eq take_bit_nat_def drop_bit_nat_def)
  qed
  define u1 u2 u3 where d: "u1 = u div 256" "u2 = u1 div 256" "u3 = u2 div 256"
  have e: "u div 65536 = u2" "u div 16777216 = u3" by (simp_all add: d flip: div_mult2_eq)
  have "u3 < 256" using u by (simp add: d flip: div_mult2_eq)
  then have "u mod 256 + 256 * (u1 mod 256 + 256 * (u2 mod 256 + 256 * (u3 mod 256))) = u"
    using mult_div_mod_eq[of 256 u] mult_div_mod_eq[of 256 u1] mult_div_mod_eq[of 256 u2]
    unfolding d[symmetric] by simp
  then have "le_value (encode_fixed32_float raw) = u"
    using b[of 0] b[of 8] b[of 16] b[of 24]
    by (simp add: encode_fixed32_float_def e flip: d)
  then show ?thesis by (simp add: u_def)
qed

lemma read_le32_encode [reader_simps]:
  "read_le32 (reader_at pre (encode_fixed32_float raw @ post)) =
     Ok (raw, reader_at (pre @ encode_fixed32_float raw) post)"
  by (simp add: read_le32_def read_full_at le_value_fixed32) (simp add: encode_fixed32_float_def)

lemma loop_float_field:
  assumes "\<And>r. switch (drop_bit 3 (tag_of f 5)) (tag_of f 5 AND 7) r m =
             bind_outcome (read_le32 r) (\<lambda>(raw, r'). Ok (g raw, r'))"
  shows "message_loop switch (reader_at pre (encode_float_field f raw @ post)) m =
         message_loop switch (reader_at (pre @ encode_float_field f raw) post) (g raw)"
  using assms
  by (simp add: encode_float_field_def encode_tag_of message_loop_tag read_le32_encode)

lemma read_chunk_encode:
  assumes "length bs \<le> max_alloc" and "length bs < 2 ^ 64"
  shows "read_chunk max_alloc (reader_at pre (encode_varint (word_of_nat (length bs)) @ bs @ post)) =
         Ok (bs, reader_at (pre @ encode_varint (word_of_nat (length bs)) @ bs) post)"
proof -
  have "unat (word_of_nat (length bs) :: u64) = length bs"
    using assms(2) by (simp add: unat_of_nat take_bit_nat_eq_self)
  with assms show ?thesis
    by (simp add: read_chunk_def read_uvarint_encode make_buffer_def read_full_at)
qed

lemma loop_string_field:
  assumes "\<And>r. switch (drop_bit 3 (tag_of f 2)) (tag_of f 2 AND 7) r m =
             bind_outcome (read_string max_alloc r) (\<lambda>(s, r'). Ok (g s, r'))"
    and "length s \<le> max_alloc" and "length s < 2 ^ 64"
  shows "message_loop switch (reader_at pre (encode_string_field f (Some s) @ post)) m =
         message_loop switch (reader_at (pre @ encode_string_field f (Some s)) post) (g s)"
  using assms read_chunk_encode[of "string_to_bytes s" max_alloc]
  by (simp add: encode_string_field_def encode_tag_of message_loop_tag read_string_def)

lemma message_loop_end [simp]: "message_loop switch (reader_at pre []) m = Some (Ok m)"
  by (simp add: message_loop.simps[of switch "reader_at pre []"] reader_simps)


section \<open>The payload an encoded message stands for\<close>

definition sent_state :: "cstring \<Rightarrow> gostring" where
  "sent_state s = (if s \<in> {Some ''LOW_POWER'', Some ''WARNING'', Some ''ERROR''} then the s else ''NORMAL'')"

definition sent_payload :: "telemetry_data \<Rightarrow> telemetry_payload" where
  "sent_payload d =
    \<lparr>Header = \<lparr>DeviceID = c_default ''UNKNOWN'' (td_device_id d), Timestamp = ucast (td_timestamp d),
       SeqNo = td_seq_no d, FirmwareVersion = c_default ''1.0.0'' (td_firmware_version d),
       BootCount = td_boot_count d\<rparr>,
     Metrics = \<lparr>Temperature = f32_to_f64 (td_temperature d), Humidity = f32_to_f64 (td_humidity d),
       BatteryVoltage = f32_to_f64 (td_battery_voltage d),
       BatteryLevelPct = td_battery_level_pct d, RSSI = td_rssi d, IntervalSec = td_interval_sec d,
       CustomValues = None\<rparr>,
     Status = Some \<lparr>State = sent_state (td_state d), UptimeSec = td_uptime_sec d,
       FreeHeapBytes = td_free_heap_bytes d\<rparr>\<rparr>"

lemma narrow_u32 [simp]: "(ucast (ucast x :: u64) :: u32) = x" "(ucast (scast x :: u64) :: u32) = x"
  for x :: u32
  by (rule bit_word_eqI, auto simp: bit_simps)+

lemma state_name_enum: "state_name (state_enum s) = sent_state s"
  by (auto simp: state_name_def state_enum_def sent_state_def)

lemmas loop_steps = loop_string_field loop_varint_field loop_float_field
  loop_varint_field [where post = "[]", simplified]

lemma parse_header_bytes:
  assumes "length (c_default ''UNKNOWN'' (td_device_id d)) \<le> max_alloc"
    and "length (c_default ''1.0.0'' (td_firmware_version d)) \<le> max_alloc" and "max_alloc < 2 ^ 64"
  shows "parse_header max_alloc (header_bytes d) h = Some (Ok (Header (sent_payload d)))"
  using assms
  by (simp add: parse_header_def header_bytes_def new_reader_at loop_steps
      header_field_def tag_of_def sent_payload_def)

lemma parse_metrics_bytes:
  "CustomValues m = None \<Longrightarrow> parse_metrics (metrics_bytes d) m = Some (Ok (Metrics (sent_payload d)))"
  by (simp add: parse_metrics_def metrics_bytes_def new_reader_at loop_steps
      metrics_field_def tag_of_def sent_payload_def)

lemma parse_status_bytes:
  "parse_status (status_bytes d) s = Some (Ok (the (Status (sent_payload d))))"
  by (simp add: parse_status_def status_bytes_def new_reader_at loop_steps
      status_field_def tag_of_def sent_payload_def state_name_enum)

lemma decode_loop_part:
  assumes "length sub \<le> max_alloc" and "length sub < 2 ^ 64"
    and "\<And>r. root_field max_alloc (drop_bit 3 (tag_of f 2)) (tag_of f 2 AND 7) r p =
             sub_message max_alloc parse store r"
    and "parse sub = Some (Ok m)"
  shows "decode_loop max_alloc (reader_at pre (root_part f sub @ post)) p =
         decode_loop max_alloc (reader_at (pre @ root_part f sub) post) (store m)"
  using assms
  by (simp add: root_part_def encode_tag_of decode_loop.simps[of max_alloc "reader_at pre (encode_varint t @ post)" for t post]
      read_uvarint_encode read_chunk_encode sub_message_def)

lemma decode_loop_end [simp]: "decode_loop max_alloc (reader_at pre []) p = Some (Ok p)"
  by (simp add: decode_loop.simps[of max_alloc "reader_at pre []"] reader_simps)

lemma decode_parts:
  assumes "length hb \<le> max_alloc" "length mb \<le> max_alloc" "length sb \<le> max_alloc" "max_alloc < 2 ^ 64"
    and "parse_header max_alloc hb zero_header = Some (Ok h)"
    and "parse_metrics mb zero_metrics = Some (Ok m)"
    and "parse_status sb zero_status = Some (Ok s)"
  shows "DecodeTelemetryProtobuf max_alloc (root_part 1 hb @ root_part 2 mb @ root_part 3 sb) =
         Some (Ok \<lparr>Header = h, Metrics = m, Status = Some s\<rparr>)"
proof -
  let ?p0 = zero_payload and ?p1 = "zero_payload\<lparr>Header := h\<rparr>"
  let ?p2 = "?p1\<lparr>Metrics := m\<rparr>"
  have 1: "decode_loop max_alloc (reader_at pre (root_part 1 hb @ post)) ?p0 =
      decode_loop max_alloc (reader_at (pre @ root_part 1 hb) post) ?p1" for pre post
    using decode_loop_part[of hb max_alloc 1 ?p0 "\<lambda>d. parse_header max_alloc d zero_header"
        "\<lambda>h. zero_payload\<lparr>Header := h\<rparr>" h pre post] assms
    by (simp add: root_field_def tag_of_def) (simp add: zero_payload_def)
  have 2: "decode_loop max_alloc (reader_at pre (root_part 2 mb @ post)) ?p1 =
      decode_loop max_alloc (reader_at (pre @ root_part 2 mb) post) ?p2" for pre post
    using decode_loop_part[of mb max_alloc 2 ?p1 "\<lambda>d. parse_metrics d zero_metrics"
        "\<lambda>m. ?p1\<lparr>Metrics := m\<rparr>" m pre post] assms
    by (simp add: root_field_def tag_of_def) (simp add: zero_payload_def)
  have 3: "decode_loop max_alloc (reader_at pre (root_part 3 sb @ post)) ?p2 =
      decode_loop max_alloc (reader_at (pre @ root_part 3 sb) post) (?p2\<lparr>Status := Some s\<rparr>)" for pre post
    using decode_loop_part[of sb max_alloc 3 ?p2 "\<lambda>d. parse_status d zero_status"
        "\<lambda>s'. ?p2\<lparr>Status := Some s'\<rparr>" s pre post] assms
    by (simp add: root_field_def tag_of_def) (simp add: zero_payload_def)
  show ?thesis
    using 1[of "[]" "root_part 2 mb @ root_part 3 sb"] 2[of _ "root_part 3 sb"] 3[of _ "[]"]
    by (simp add: DecodeTelemetryProtobuf_def new_reader_at zero_payload_def)
qed

section \<open>Sizes of the encoded parts\<close>

lemma length_varint_u32: "length (encode_varint (ucast x)) \<le> 5" for x :: u32
proof -
  have "unat (ucast x :: u64) < 2 ^ (7 * 5)"
    using unsigned_less[of x, where ?'a = nat] by (simp add: unsigned_ucast_eq take_bit_nat_eq_self)
  from length_encode_varint[OF this] show ?thesis by simp
qed

lemma length_varint_u64: "length (encode_varint v) \<le> 10"
  using length_encode_varint[of v 10] unsigned_less[of v, where ?'a = nat] by simp

lemma length_varint_short: "n < 128 \<Longrightarrow> length (encode_varint (word_of_nat n)) = 1"
  by (simp add: encode_varint.simps word_less_nat_alt unat_of_nat)

lemma length_encode_tag: "tag_of f w < 0x80 \<Longrightarrow> length (encode_tag f w) = 1"
  by (simp add: encode_tag_of encode_varint.simps)

lemmas field_length_defs = encode_string_field_def encode_varint_field_def encode_float_field_def
  length_encode_tag tag_of_def length_varint_short

lemma length_header_bytes:
  assumes "length (c_default ''UNKNOWN'' (td_device_id d)) < 128"
    and "length (c_default ''1.0.0'' (td_firmware_version d)) < 128"
  shows "length (header_bytes d) \<le> 22 + length (c_default ''UNKNOWN'' (td_device_id d)) +
     length (c_default ''1.0.0'' (td_firmware_version d))"
  using assms length_varint_u32[of "td_timestamp d"] length_varint_u32[of "td_seq_no d"]
    length_varint_u32[of "td_boot_count d"]
  by (simp add: header_bytes_def field_length_defs)

lemma varint_length_pos: "1 \<le> length (encode_varint v)"
  using encode_varint_Cons[of v] by auto

lemma length_header_bytes_ge:
  "10 + length (c_default ''UNKNOWN'' (td_device_id d)) +
     length (c_default ''1.0.0'' (td_firmware_version d)) \<le> length (header_bytes d)"
  using varint_length_pos[of "ucast (td_timestamp d)"] varint_length_pos[of "ucast (td_seq_no d)"]
    varint_length_pos[of "ucast (td_boot_count d)"]
    varint_length_pos[of "word_of_nat (length (c_default ''UNKNOWN'' (td_device_id d)))"]
    varint_length_pos[of "word_of_nat (length (c_default ''1.0.0'' (td_firmware_version d)))"]
  by (simp add: header_bytes_def field_length_defs)

lemma length_metrics_bytes: "length (metrics_bytes d) \<le> 38"
  using length_varint_u32[of "td_battery_level_pct d"] length_varint_u64[of "scast (td_rssi d)"]
    length_varint_u32[of "td_interval_sec d"]
  by (simp add: metrics_bytes_def field_length_defs)

lemma length_status_bytes: "length (status_bytes d) \<le> 14"
proof -
  have "length (encode_varint (state_enum (td_state d))) = 1"
    by (simp add: state_enum_def encode_varint.simps)
  then show ?thesis
    using length_varint_u32[of "td_uptime_sec d"] length_varint_u32[of "td_free_heap_bytes d"]
    by (simp add: status_bytes_def field_length_defs)
qed

lemma length_root_part:
  "f \<in> {1, 2, 3} \<Longrightarrow> length sub < 128 \<Longrightarrow> length (root_part f sub) = 2 + length sub"
  by (auto simp: root_part_def field_length_defs)

lemma serialize_cases:
  assumes "128 \<le> buffer_size"
  shows "serialize_telemetry_protobuf (Some d) True buffer_size =
    (if 64 < length (header_bytes d) then None
     else let bytes = root_part 1 (header_bytes d) @ root_part 2 (metrics_bytes d) @
                      root_part 3 (status_bytes d)
          in Some (int (length bytes), bytes))"
    and "length (header_bytes d) \<le> 64 \<Longrightarrow>
      length (root_part 1 (header_bytes d) @ root_part 2 (metrics_bytes d) @
              root_part 3 (status_bytes d)) \<le> 122"
  using assms length_metrics_bytes[of d] length_status_bytes[of d]
  by (simp_all add: serialize_telemetry_protobuf_def length_root_part)

section \<open>Inputs that stop the decoder\<close>

lemma root_chunk_panic:
  assumes "max_alloc < unat n" and "f \<in> {1, 2, 3}" and "Status p \<noteq> None"
  shows "decode_loop max_alloc (reader_at pre (encode_tag f 2 @ encode_varint n @ post)) p = Some Panic"
  using assms
  by (auto simp: encode_tag_of decode_loop.simps[of max_alloc "reader_at pre (encode_varint t @ q)" for t q]
      read_uvarint_encode root_field_def tag_of_def sub_message_def read_chunk_def make_buffer_def)

definition back_jump :: "u8 list" where
  "back_jump = encode_tag 15 2 @ encode_varint (- 11)"

lemma back_jump_bytes: "back_jump = [0x7a, 0xf5, 0xff, 0xff, 0xff, 0xff, 0xff, 0xff, 0xff, 0xff, 0x01]"
  by (simp add: back_jump_def encode_tag_def encode_varint.simps)

lemma seek_back:
  assumes "sint n = - int (length mid)" and "length pre < 2 ^ 63"
  shows "seek_current n (reader_at (pre @ mid) post) = Ok (reader_at pre (mid @ post))"
proof -
  have "wrap_i64 (int (length pre)) = int (length pre)"
    using wrap_i64_eq[of "int (length pre)"] assms(2) by simp
  then show ?thesis using assms(1) by (simp add: seek_current_def reader_at_def Let_def)
qed

lemma back_jump_seek:
  assumes "length pre < 2 ^ 63"
  shows "root_field max_alloc (drop_bit 3 (tag_of 15 2)) (tag_of 15 2 AND 7)
           (reader_at (pre @ encode_tag 15 2) (encode_varint (- 11) @ post)) p =
         Some (Ok (p, reader_at pre (back_jump @ post)))"
proof -
  have "sint (- 11 :: u64) = - int (length back_jump)"
    by (simp add: back_jump_bytes)
  from seek_back[OF this assms, of post]
  have "seek_current (- 11) (reader_at (pre @ encode_tag 15 2 @ encode_varint (- 11)) post) =
      Ok (reader_at pre (back_jump @ post))"
    by (simp only: back_jump_def)
  then show ?thesis
    by (simp add: root_field_def tag_of_def skip_field_def read_uvarint_encode)
qed

lemma decode_loop_back_jump:
  assumes "length pre < 2 ^ 63"
  shows "decode_loop max_alloc (reader_at pre (back_jump @ post)) p = None"
proof (rule ccontr)
  assume "decode_loop max_alloc (reader_at pre (back_jump @ post)) p \<noteq> None"
  then obtain res where ret: "decode_loop max_alloc (reader_at pre (back_jump @ post)) p = Some res"
    by auto
  have "reader_at pre (back_jump @ post) \<noteq> reader_at pre (back_jump @ post)"
  proof (rule decode_loop.raw_induct [where P = "\<lambda>_ r _ _. r \<noteq> reader_at pre (back_jump @ post)", OF _ ret])
    fix f max_alloc r p res
    assume IH: "\<And>max_alloc r p res. f max_alloc r p = Some res \<Longrightarrow> r \<noteq> reader_at pre (back_jump @ post)"
      and eq: "(if 0 < rd_len r
        then case read_uvarint r of
               Ok tr \<Rightarrow>
                 (case root_field max_alloc (drop_bit 3 (fst tr)) (fst tr AND 7) (snd tr) p of
                    None \<Rightarrow> None
                  | Some (Ok pr) \<Rightarrow> f max_alloc (snd pr) (fst pr)
                  | Some (Err e) \<Rightarrow> Some (Err e) | Some Panic \<Rightarrow> Some Panic)
             | Err e \<Rightarrow> (if e = EOF then Some (Ok p) else Some (Err e)) | Panic \<Rightarrow> Some Panic
        else Some (Ok p)) = Some res"
    show "r \<noteq> reader_at pre (back_jump @ post)"
    proof
      assume r: "r = reader_at pre (back_jump @ post)"
      have u: "read_uvarint r = Ok (tag_of 15 2, reader_at (pre @ encode_tag 15 2) (encode_varint (- 11) @ post))"
        by (simp add: r back_jump_def encode_tag_of read_uvarint_encode)
      have "0 < rd_len r" by (simp add: r back_jump_bytes reader_simps)
      with eq u back_jump_seek[OF assms, of max_alloc post p]
      have "f max_alloc (reader_at pre (back_jump @ post)) p = Some res" by simp
      from IH[OF this] show False by simp
    qed
  qed
  then show False by simp
qed

text \<open>
  The decoder does not return on a field of an unknown number that is length-delimited with
  the length \<open>2 ^ 64 - 11\<close>, whatever follows it: the length becomes the \<^verbatim>\<open>int64\<close> -11, the
  seek moves back to the field's own tag, and the loop reads the same eleven bytes forever.
\<close>

lemma decode_back_jump:
  "DecodeTelemetryProtobuf max_alloc
     ([0x7a, 0xf5, 0xff, 0xff, 0xff, 0xff, 0xff, 0xff, 0xff, 0xff, 0x01] @ rest) = None"
  using decode_loop_back_jump[of "[]" max_alloc rest zero_payload]
  by (simp add: DecodeTelemetryProtobuf_def new_reader_at back_jump_bytes)

section \<open>Properties of the wire format\<close>

definition example_data :: telemetry_data where
  "example_data = \<lparr>td_device_id = Some ''DEV-ESP32-001'', td_timestamp = 1755420000, td_seq_no = 1,
     td_firmware_version = None, td_boot_count = 1, td_temperature = 0x41cc0000,
     td_humidity = 0x42700000, td_battery_voltage = 0x407ccccd, td_battery_level_pct = 90,
     td_rssi = -65, td_interval_sec = 10, td_state = Some ''WARNING'', td_uptime_sec = 100,
     td_free_heap_bytes = 48000\<rparr>"

lemma decode_serialized:
  assumes "length (c_default ''UNKNOWN'' (td_device_id d)) +
           length (c_default ''1.0.0'' (td_firmware_version d)) \<le> 42"
    and "128 \<le> buffer_size" and "64 \<le> max_alloc" and "max_alloc < 2 ^ 64"
  shows "\<exists>bytes. serialize_telemetry_protobuf (Some d) True buffer_size = Some (int (length bytes), bytes) \<and>
           length bytes \<le> 122 \<and>
           DecodeTelemetryProtobuf max_alloc bytes = Some (Ok (sent_payload d))"
proof -
  have h: "length (header_bytes d) \<le> 64"
    using length_header_bytes[of d] assms(1) by simp
  have "DecodeTelemetryProtobuf max_alloc (root_part 1 (header_bytes d) @
          root_part 2 (metrics_bytes d) @ root_part 3 (status_bytes d)) =
        Some (Ok \<lparr>Header = Header (sent_payload d), Metrics = Metrics (sent_payload d),
                  Status = Some (the (Status (sent_payload d)))\<rparr>)"
    using assms h length_metrics_bytes[of d] length_status_bytes[of d]
    by (intro decode_parts parse_header_bytes parse_metrics_bytes parse_status_bytes)
       (simp_all add: zero_metrics_def)
  then show ?thesis
    using serialize_cases[OF assms(2), of d] h by (simp add: Let_def) (simp add: sent_payload_def)
qed

text \<open>
  C11: Round trip across the wire. For every telemetry record whose device id and firmware
  version together have at most 42 characters, the edge encoder returns at most 122 bytes
  without overflowing a buffer, and the server's decoder turns exactly those bytes back into
  the record's values: integers at their width, the signed RSSI, the floats widened, the
  state name through its enum, absent strings through their defaults.
\<close>

theorem serialize_roundtrip:
  assumes "length (c_default ''UNKNOWN'' (td_device_id d)) +
           length (c_default ''1.0.0'' (td_firmware_version d)) \<le> 42"
    and "128 \<le> buffer_size" and "64 \<le> max_alloc" and "max_alloc < 2 ^ 64"
  shows "\<exists>bytes. serialize_telemetry_protobuf (Some d) True buffer_size = Some (int (length bytes), bytes) \<and>
           length bytes \<le> 122 \<and>
           DecodeTelemetryProtobuf max_alloc bytes = Some (Ok (sent_payload d))"
  using assms by (rule decode_serialized)

lemma serialize_roundtrip_witness:
  "\<exists>bytes. serialize_telemetry_protobuf (Some example_data) True 512 = Some (int (length bytes), bytes) \<and>
     length bytes \<le> 122 \<and>
     DecodeTelemetryProtobuf 4096 bytes = Some (Ok (sent_payload example_data))"
  by (rule serialize_roundtrip) (simp_all add: example_data_def c_default_def)

text \<open>
  C34: The encoder's only undefined behaviour is the overflow of its 64-byte header buffer: with a
  non-null output buffer of at least 128 bytes, it happens exactly when the encoded header is
  longer than 64 bytes, and the metrics, the status and the output buffer always fit.
\<close>

theorem serialize_overflow:
  assumes "128 \<le> buffer_size"
  shows "serialize_telemetry_protobuf (Some d) True buffer_size = None \<longleftrightarrow> 64 < length (header_bytes d)"
  using serialize_cases(1)[OF assms, of d] by (simp add: Let_def)

lemma serialize_overflow_witness:
  "serialize_telemetry_protobuf (Some (example_data\<lparr>td_device_id := Some (replicate 60 CHR ''x'')\<rparr>)) True 512 = None
   \<longleftrightarrow> 64 < length (header_bytes (example_data\<lparr>td_device_id := Some (replicate 60 CHR ''x'')\<rparr>))"
  by (rule serialize_overflow) simp

text \<open>
  C35: The decoder allocates the declared length of a sub-message before it looks at how many
  bytes are there: a length above what can be allocated is a panic, not an error, however
  short the input is.
\<close>

theorem decode_oversized_panics:
  assumes "max_alloc < unat n" and "f = 1 \<or> f = 2 \<or> f = 3"
  shows "DecodeTelemetryProtobuf max_alloc (encode_tag f 2 @ encode_varint n @ rest) = Some Panic"
  using root_chunk_panic[of max_alloc n f zero_payload "[]" rest] assms
  by (auto simp: DecodeTelemetryProtobuf_def new_reader_at zero_payload_def)

lemma decode_oversized_panics_witness:
  "DecodeTelemetryProtobuf (2 ^ 47) (encode_tag 1 2 @ encode_varint 0xFFFFFFFFFFFFFFFF @ []) = Some Panic"
  by (rule decode_oversized_panics) simp_all

end
