(* ===== verification/Memory_Handlers.thy ===== *)
theory Memory_Handlers
  imports Handler_Laws Memory_Refinement Proto_Encoder
begin

text \<open>
  The handlers on the in-memory repository: what a whole request does to the repository, the
  sleep intervals and the webhook calls, and what sequences of requests do together. The
  lemmas of the contract come in through the interpretation \<open>mem\<close>.
\<close>

abbreviation mem_api :: "(gostring list \<Rightarrow> gostring list) \<Rightarrow> go_env \<Rightarrow> gostring \<Rightarrow> mem_repo api_handler" where
  "mem_api order env url \<equiv> NewApiHandler env (mem_ops order) url"

lemma mem_api_parts [simp]:
  "repo (mem_api order env url) = mem_ops order"
  "ruleEngine (mem_api order env url) = NewRuleEngine DefaultThresholds url (Some (mem_ops order))"
  by (simp_all add: NewApiHandler_def)

lemma mem_ops_parts [simp]:
  "SaveTelemetry (mem_ops order) = mem_SaveTelemetry"
  "GetDevice (mem_ops order) = read_device"
  "SaveEvent (mem_ops order) now = mem_SaveEvent"
  "GetTelemetryHistory (mem_ops order) = mem_GetTelemetryHistory"
  "QueueCommand (mem_ops order) now = mem_QueueCommand"
  "GetPendingCommands (mem_ops order) now dev r = (mem_GetPendingCommands dev r, r)"
  "AckCommand (mem_ops order) now dev cid res = mem_AckCommand dev cid"
  by (simp_all add: mem_ops_def)

text \<open>The alerts of a payload under the server's thresholds.\<close>

abbreviation alerts_at :: "time \<Rightarrow> telemetry_payload \<Rightarrow> alert_event list" where
  "alerts_at now p \<equiv> evaluate_rules DefaultThresholds (unix_seconds now) p"

abbreviation pending_of :: "mem_repo api_state \<Rightarrow> gostring \<Rightarrow> device_command list" where
  "pending_of st dev \<equiv> slice_of (commands (repo_state st)) dev"

abbreviation answer :: "api_response \<Rightarrow> http_response" where
  "answer resp \<equiv> json_response 200 (encoded (response_encodable resp) (ResponseBody resp))"

section \<open>A whole telemetry request\<close>

text \<open>The operations of the repository that a telemetry request performs.\<close>

definition telemetry_ops :: "time \<Rightarrow> telemetry_payload \<Rightarrow> alert_event list \<Rightarrow> repo_op list" where
  "telemetry_ops now p alerts = Saved now p # map (\<lambda>a. Recorded (alert_record (Header p) a)) alerts"

lemma mem_dispatch_ops:
  assumes "engine_repo e = Some (mem_ops order)"
  shows "fst (snd (dispatch_alerts e clk h alts (s, started))) =
    fold mem_step (map (\<lambda>a. Recorded (alert_record h a)) alts) s"
  using assms
proof (induction alts arbitrary: clk s started)
  case (Cons alt alts)
  then show ?case by (simp add: mem_SaveEvent_def)
qed simp

lemma mem_accept:
  fixes st :: "mem_repo api_state"
  defines "cmds p \<equiv> pending_of st (DeviceID (Header p))"
  shows "\<exists>s'. accept_telemetry (mem_api order env url) env clk p st =
      Some (Ok (answer (telemetry_response (mem_api order env url) env (clk 2) (deviceSleepConfigs st) p (cmds p))),
        st\<lparr>repo_state := s',
           deviceSleepConfigs := merged_configs env (DeviceID (Header p)) (cmds p) (deviceSleepConfigs st),
           webhook_calls := webhook_calls st @ (if url = [] then [] else alerts_at (clk 3) p)\<rparr>) \<and>
    s' = (snd (mem_SaveTelemetry (clk 0) p (repo_state st)))\<lparr>events := events s'\<rparr> \<and>
    s' = fold mem_step (telemetry_ops (clk 0) p (alerts_at (clk 3) p)) (repo_state st) \<and>
    (\<forall>dev. slice_of (events s') dev = slice_of (events (repo_state st)) dev @
       (if dev = DeviceID (Header p) then map (alert_record (Header p)) (alerts_at (clk 3) p) else []))"
proof -
  let ?h = "mem_api order env url" and ?s1 = "snd (mem_SaveTelemetry (clk 0) p (repo_state st))"
  let ?e = "NewRuleEngine DefaultThresholds url (Some (mem_ops order))"
  have e: "engine_repo ?e = Some (mem_ops order)" "webhookURL ?e = url" "thresholds ?e = DefaultThresholds"
    by (simp_all add: NewRuleEngine_def)
  from mem_dispatch[OF e(1), of "(\<lambda>n. clk (n + 3)) \<circ> Suc" "Header p" "alerts_at (clk 3) p" ?s1 "[]"]
  obtain s' where s': "dispatch_alerts ?e ((\<lambda>n. clk (n + 3)) \<circ> Suc) (Header p) (alerts_at (clk 3) p) (?s1, []) =
      (Ok (), s', if url = [] then [] else alerts_at (clk 3) p)"
    "\<forall>dev. slice_of (events s') dev = slice_of (events ?s1) dev @
       (if dev = DeviceID (Header p) then map (alert_record (Header p)) (alerts_at (clk 3) p) else [])"
    "s' = ?s1\<lparr>events := events s'\<rparr>" by (auto simp: e)
  have ev: "EvaluateAndAlert ?e (\<lambda>n. clk (n + 3)) p ?s1 =
      (Ok (alerts_at (clk 3) p), s', if url = [] then [] else alerts_at (clk 3) p)"
    using s'(1) by (simp add: EvaluateAndAlert_def e Let_def)
  have ops: "s' = fold mem_step (telemetry_ops (clk 0) p (alerts_at (clk 3) p)) (repo_state st)"
    using mem_dispatch_ops[OF e(1), of "(\<lambda>n. clk (n + 3)) \<circ> Suc" "Header p" "alerts_at (clk 3) p" ?s1 "[]"] s'(1)
    by (simp add: telemetry_ops_def)
  let ?st2 = "st\<lparr>repo_state := s', webhook_calls := webhook_calls st @ (if url = [] then [] else alerts_at (clk 3) p)\<rparr>"
  have acc: "accept_telemetry ?h env clk p st = respond_telemetry ?h env (\<lambda>n. clk (n + 1)) p ?st2"
    using ev by (simp add: accept_telemetry_def Let_def case_prod_beta)
  have "commands s' = commands ?s1" by (subst s'(3)) simp
  then have cm: "mem_GetPendingCommands dev s' = Ok (pending_of st dev)" for dev
    by (simp add: pending_slice save_tables)
  have "respond_telemetry ?h env (\<lambda>n. clk (n + 1)) p ?st2 =
      Some (Ok (answer (telemetry_response ?h env (clk 2) (deviceSleepConfigs st) p (cmds p))),
        ?st2\<lparr>repo_state := s',
           deviceSleepConfigs := merged_configs env (DeviceID (Header p)) (cmds p) (deviceSleepConfigs st)\<rparr>)"
    by (subst respond_pending[where pending = "Ok (cmds p)" and s' = s'])
       (simp_all add: cm cmds_def Let_def numeral_2_eq_2)
  with acc s'(2,3) ops show ?thesis
    by (intro exI[of _ s'] conjI) (simp_all add: save_tables)
qed

lemma mem_telemetry:
  assumes "submits env ctx req p"
  shows "\<exists>s'. HandleTelemetry (mem_api order env url) env clk ctx req st =
      Some (Ok (answer (telemetry_response (mem_api order env url) env (clk 2) (deviceSleepConfigs st) p
          (pending_of st (DeviceID (Header p))))),
        st\<lparr>repo_state := s',
           deviceSleepConfigs := merged_configs env (DeviceID (Header p))
             (pending_of st (DeviceID (Header p))) (deviceSleepConfigs st),
           webhook_calls := webhook_calls st @ (if url = [] then [] else alerts_at (clk 3) p)\<rparr>) \<and>
    s' = (snd (mem_SaveTelemetry (clk 0) p (repo_state st)))\<lparr>events := events s'\<rparr> \<and>
    s' = fold mem_step (telemetry_ops (clk 0) p (alerts_at (clk 3) p)) (repo_state st) \<and>
    (\<forall>dev. slice_of (events s') dev = slice_of (events (repo_state st)) dev @
       (if dev = DeviceID (Header p) then map (alert_record (Header p)) (alerts_at (clk 3) p) else []))"
  unfolding submits_accept[OF assms] by (rule mem_accept)

text \<open>Concrete requests for the witnesses: JSON bodies whose decoding is given.\<close>

definition demo_payload :: telemetry_payload where
  "demo_payload = \<lparr>Header = zero_header\<lparr>DeviceID := ''D'', FirmwareVersion := ''1.0.0''\<rparr>,
     Metrics = zero_metrics\<lparr>BatteryLevelPct := 80\<rparr>, Status = None\<rparr>"

definition demo_env :: go_env where
  "demo_env = \<lparr>max_alloc = 2 ^ 47, u32_oor = (\<lambda>_. 0), sha256_hex = id,
     unmarshal_telemetry = (\<lambda>_. Ok demo_payload),
     unmarshal_event = (\<lambda>_. Err EOF),
     decode_queue_request = (\<lambda>_. Ok \<lparr>QueueDevice = ''D'', QueueAction = ''CONFIG_UPDATE'',
       QueueParams = Some [(''sleep_interval_sec'', JNumber 0x405E000000000000)]\<rparr>),
     decode_ack_request = (\<lambda>_. Ok \<lparr>AckDevice = ''D'', AckID = command_id 0, AckResult = ''OK''\<rparr>)\<rparr>"

definition demo_request :: http_request where
  "demo_request = \<lparr>Method = ''POST'', Path = ''/api/v1/telemetry'', Query = [],
     ContentType = ''application/json'', Body = Ok [0x7b, 0x7d],
     PeerCertificates = Some [\<lparr>CommonName = ''D'', IssuerName = [], DNSNames = []\<rparr>]\<rparr>"

definition demo_context :: "gostring \<Rightarrow> request_context" where
  "demo_context dev = background_context\<lparr>DeviceIDKey := Some dev\<rparr>"

lemma demo_not_binary: "\<not> strings_Contains ''application/json'' ''protobuf''"
  "\<not> strings_Contains ''application/json'' ''octet-stream''"
  unfolding strings_Contains_def by code_simp+

lemma demo_decodes: "decode_telemetry_body demo_env demo_request body = Some (Decoded demo_payload)"
  by (simp add: decode_telemetry_body_def demo_request_def demo_env_def demo_not_binary)

lemma demo_submits: "submits demo_env (demo_context ''D'') demo_request demo_payload"
  using demo_decodes
  by (simp add: submits_def demo_request_def demo_payload_def demo_context_def authenticated_id_def
      GetAuthenticatedDeviceID_def background_context_def)

section \<open>Properties of telemetry requests\<close>

text \<open>
  C6: A telemetry request answered 200 stored a payload that its body decodes to and whose
  device id is the authenticated one (when there is one): the payload is the newest of that
  device's history, the device's entry reports it, and no other device's entry changed. A
  request answered otherwise changed nothing.
\<close>

theorem telemetry_stored_or_refused:
  assumes "mem_inv (repo_state st)"
    and "HandleTelemetry (mem_api order env url) env clk ctx req st = Some (Ok resp, st')"
  shows "if StatusCode resp = 200
    then \<exists>p d. submits env ctx req p \<and>
      slice_of (telemetries (repo_state st')) (DeviceID (Header p)) =
        slice_of (telemetries (repo_state st)) (DeviceID (Header p)) @ [p] \<and>
      read_device (DeviceID (Header p)) (repo_state st') = Ok d \<and> reports (clk 0) p d \<and>
      (\<forall>dev. dev \<noteq> DeviceID (Header p) \<longrightarrow> read_device dev (repo_state st') = read_device dev (repo_state st))
    else st' = st"
  using telemetry_cases[OF assms(2)]
proof (elim disjE exE conjE)
  fix p assume p: "submits env ctx req p"
    "accept_telemetry (mem_api order env url) env clk p st = Some (Ok resp, st')"
  note eff = mem.accept_effect[OF p(2) new_handler_wired assms(1)]
  obtain s' where st': "resp = answer (telemetry_response (mem_api order env url) env (clk 2)
      (deviceSleepConfigs st) p (pending_of st (DeviceID (Header p))))" "repo_state st' = s'"
    "s' = (snd (mem_SaveTelemetry (clk 0) p (repo_state st)))\<lparr>events := events s'\<rparr>"
    using mem_accept[where order = order and env = env and url = url and clk = clk and p = p and st = st] unfolding p(2) by auto
  have "telemetries s' = telemetries (snd (mem_SaveTelemetry (clk 0) p (repo_state st)))"
    by (subst st'(3)) simp
  then have hist: "slice_of (telemetries (repo_state st')) (DeviceID (Header p)) =
      slice_of (telemetries (repo_state st)) (DeviceID (Header p)) @ [p]"
    by (simp add: st'(2) save_tables)
  have "StatusCode resp = 200" by (simp add: st'(1) json_response_def)
  with eff p(1) hist show ?thesis by (auto simp: mem_ops_def)
qed (auto)

theorem telemetry_stored_or_refused_witness:
  "\<exists>resp st'. HandleTelemetry (mem_api rev demo_env []) demo_env (\<lambda>n. int n) (demo_context ''D'') demo_request
      (initial_state NewInMemoryRepository) = Some (Ok resp, st') \<and> StatusCode resp = 200 \<and>
    (\<exists>p d. submits demo_env (demo_context ''D'') demo_request p \<and>
      read_device (DeviceID (Header p)) (repo_state st') = Ok d \<and> reports 0 p d)"
proof -
  let ?st = "initial_state NewInMemoryRepository"
  obtain resp st' where r: "HandleTelemetry (mem_api rev demo_env []) demo_env (\<lambda>n. int n) (demo_context ''D'')
      demo_request ?st = Some (Ok resp, st')" "StatusCode resp = 200"
    using mem_telemetry[OF demo_submits, where order = rev and url = "[]" and clk = "\<lambda>n. int n" and st = ?st] by (auto simp: json_response_def)
  have "mem_inv (repo_state ?st)" by (simp add: initial_state_def mem_inv_new)
  from telemetry_stored_or_refused[OF this r(1)] r show ?thesis by auto
qed

text \<open>
  C12: On the in-memory repository a request that submits a payload is always answered with 200: the
  server never refuses, crashes or hangs on it. The answer carries every pending command of the
  device; its sleep interval is 300 for a battery below 20 percent, otherwise the last interval among
  the pending CONFIG\_UPDATE commands, otherwise the stored one, otherwise 60. A device on firmware
  1.0.0 is offered the update, the update is never to another version than 1.1.0, and a device on
  1.1.0 is offered none. The alerts of the payload are recorded as events and started as webhook
  calls.
\<close>

theorem telemetry_answered:
  assumes "submits env ctx req p"
  shows "\<exists>resp st' ota. HandleTelemetry (mem_api order env url) env clk ctx req st = Some (Ok (answer resp), st') \<and>
    Commands resp = pending_of st (DeviceID (Header p)) \<and>
    SleepIntervalSec resp =
      (if unat (BatteryLevelPct (Metrics p)) < 20 then 300
       else case last_interval env (pending_of st (DeviceID (Header p))) of
              Some v \<Rightarrow> v
            | None \<Rightarrow> (case deviceSleepConfigs st (DeviceID (Header p)) of
                         Some sec \<Rightarrow> if unat sec = 0 then 60 else sec
                       | None \<Rightarrow> 60)) \<and>
    StatusCode (answer resp) = 200 \<and> OTA resp = Some ota \<and>
    (FirmwareVersion (Header p) = ''1.0.0'' \<longrightarrow> Available ota) \<and>
    (Available ota \<longrightarrow> TargetVersion ota = ''1.1.0'' \<and> FirmwareVersion (Header p) \<noteq> ''1.1.0'') \<and>
    webhook_calls st' = webhook_calls st @ (if url = [] then [] else alerts_at (clk 3) p) \<and>
    slice_of (events (repo_state st')) (DeviceID (Header p)) =
      slice_of (events (repo_state st)) (DeviceID (Header p)) @
      map (alert_record (Header p)) (alerts_at (clk 3) p)"
proof -
  let ?resp = "telemetry_response (mem_api order env url) env (clk 2) (deviceSleepConfigs st) p
      (pending_of st (DeviceID (Header p)))"
  obtain st' where st': "HandleTelemetry (mem_api order env url) env clk ctx req st = Some (Ok (answer ?resp), st')"
    "webhook_calls st' = webhook_calls st @ (if url = [] then [] else alerts_at (clk 3) p)"
    "slice_of (events (repo_state st')) (DeviceID (Header p)) =
      slice_of (events (repo_state st)) (DeviceID (Header p)) @ map (alert_record (Header p)) (alerts_at (clk 3) p)"
    using mem_telemetry[OF assms, where order = order and url = url and clk = clk and st = st] by auto
  have "unat (BatteryLevelPct (Metrics p)) < 20 \<longleftrightarrow> BatteryLevelPct (Metrics p) < 20"
    by (simp add: word_less_nat_alt)
  moreover have "unat sec = 0 \<longleftrightarrow> sec = 0" for sec :: u32 by (simp add: unat_eq_zero)
  ultimately show ?thesis
    using st' by (intro exI[of _ ?resp] exI[of _ st'] exI[of _ "the (OTA ?resp)"])
       (auto simp: telemetry_response_def chosen_interval_def ota_offer_def NewApiHandler_def zero_ota_def
          sleep_setting_def json_response_def split: option.splits)
qed

theorem telemetry_answered_witness:
  "\<exists>resp st'. HandleTelemetry (mem_api rev demo_env []) demo_env (\<lambda>n. int n) (demo_context ''D'') demo_request
      (initial_state NewInMemoryRepository) = Some (Ok (answer resp), st') \<and>
    Commands resp = [] \<and> SleepIntervalSec resp = 60"
  using telemetry_answered[OF demo_submits, where order = rev and url = "[]" and clk = "\<lambda>n. int n"
      and st = "initial_state NewInMemoryRepository"]
  by (auto simp: demo_payload_def initial_state_def NewInMemoryRepository_def sleep_setting_def
      last_interval_def List.map_filter_simps)

text \<open>
  C28: A single protobuf request of eleven bytes makes the handler run forever: it is never
  answered, whatever the state, the certificate and the bytes that follow.
\<close>

theorem back_jump_request_hangs:
  assumes "Method req = ''POST''" and "strings_Contains (ContentType req) ''protobuf''"
    and "Body req = Ok ([0x7a, 0xf5, 0xff, 0xff, 0xff, 0xff, 0xff, 0xff, 0xff, 0xff, 0x01] @ rest)"
  shows "HandleTelemetry h env clk ctx req st = None"
proof -
  have "decode_telemetry_body env req
      ([0x7a, 0xf5, 0xff, 0xff, 0xff, 0xff, 0xff, 0xff, 0xff, 0xff, 0x01] @ rest) = None"
    unfolding decode_telemetry_body_def decode_back_jump using assms(2) by simp
  with assms show ?thesis by (simp add: HandleTelemetry_def Let_def)
qed

theorem back_jump_request_hangs_witness:
  "HandleTelemetry (mem_api rev demo_env []) demo_env (\<lambda>n. int n) (demo_context ''D'')
     (demo_request\<lparr>ContentType := ''application/x-protobuf'',
        Body := Ok ([0x7a, 0xf5, 0xff, 0xff, 0xff, 0xff, 0xff, 0xff, 0xff, 0xff, 0x01] @ [])\<rparr>)
     (initial_state NewInMemoryRepository) = None"
proof (rule back_jump_request_hangs)
  show "strings_Contains (ContentType (demo_request\<lparr>ContentType := ''application/x-protobuf'',
      Body := Ok ([0x7a, 0xf5, 0xff, 0xff, 0xff, 0xff, 0xff, 0xff, 0xff, 0xff, 0x01] @ [])\<rparr>)) ''protobuf''"
    unfolding strings_Contains_def by simp code_simp
qed (simp_all add: demo_request_def)

section \<open>Properties of remote commands\<close>

text \<open>A queue request that the handler accepts.\<close>

definition queues :: "go_env \<Rightarrow> http_request \<Rightarrow> queue_request \<Rightarrow> bool" where
  "queues env req q \<longleftrightarrow> Method req = ''POST'' \<and> decode_queue_request env (Body req) = Ok q \<and>
     QueueDevice q \<noteq> [] \<and> QueueAction q \<noteq> []"

definition queued_command :: "time \<Rightarrow> queue_request \<Rightarrow> device_command" where
  "queued_command now q = \<lparr>CommandID = command_id now, Action = QueueAction q, Params = QueueParams q\<rparr>"

lemma mem_queue:
  assumes "queues env req q"
  shows "\<exists>resp st'. HandleQueueCommand (mem_api order env url) env clk ctx req st = Some (Ok resp, st') \<and>
    StatusCode resp = 200 \<and>
    repo_state st' = snd (mem_QueueCommand (QueueDevice q) (queued_command (clk 0) q) (repo_state st)) \<and>
    deviceSleepConfigs st' = (case config_interval env (QueueAction q) (QueueParams q) of
       Some v \<Rightarrow> (deviceSleepConfigs st)(QueueDevice q \<mapsto> v) | None \<Rightarrow> deviceSleepConfigs st)"
  using assms
  by (auto simp: queues_def HandleQueueCommand_def Let_def case_prod_beta queued_command_def
      mem_QueueCommand_def json_response_def split: option.splits)

lemma mem_ack:
  assumes "decode_ack_request env (Body req) = Ok a"
  shows "\<exists>resp. HandleAckCommand (mem_api order env url) env clk ctx req st =
      Some (Ok resp, st\<lparr>repo_state := snd (mem_AckCommand (AckDevice a) (AckID a) (repo_state st))\<rparr>) \<and>
    StatusCode resp = 200"
  using assms
  by (simp add: HandleAckCommand_def mem_AckCommand_def json_response_def)

lemma pending_queue:
  "slice_of (commands (snd (mem_QueueCommand dev c r))) d = slice_of (commands r) d @ (if d = dev then [c] else [])"
  by (simp add: mem_QueueCommand_def)

lemma pending_ack:
  "slice_of (commands (snd (mem_AckCommand dev cid r))) d =
     (if d = dev then filter (\<lambda>c. CommandID c \<noteq> cid) (slice_of (commands r) d) else slice_of (commands r) d)"
  by (simp add: mem_AckCommand_def)

lemma last_interval_snoc:
  "last_interval env (cmds @ [c]) =
     (case config_interval env (Action c) (Params c) of Some v \<Rightarrow> Some v | None \<Rightarrow> last_interval env cmds)"
  by (simp add: last_interval_def List.map_filter_def Let_def split: option.splits)

text \<open>
  C23: A command that the server accepted is in the answer to the device's next telemetry, as
  queued, after the commands that were pending before it.
\<close>

theorem queued_command_delivered:
  assumes "queues env qreq q" and "submits env ctx req p" and "DeviceID (Header p) = QueueDevice q"
    and "HandleQueueCommand (mem_api order env url) env clk qctx qreq st = Some (Ok qresp, st1)"
  shows "StatusCode qresp = 200 \<and>
    (\<exists>resp st2. HandleTelemetry (mem_api order env url) env clk' ctx req st1 = Some (Ok (answer resp), st2) \<and>
      Commands resp = pending_of st (QueueDevice q) @ [queued_command (clk 0) q])"
proof -
  from mem_queue[OF assms(1), where order = order and url = url and clk = clk and ctx = qctx and st = st]
  have q: "StatusCode qresp = 200"
    "repo_state st1 = snd (mem_QueueCommand (QueueDevice q) (queued_command (clk 0) q) (repo_state st))"
    unfolding assms(4) by auto
  from mem_telemetry[OF assms(2), where order = order and url = url and clk = clk' and st = st1]
  show ?thesis using q assms(3) by (auto simp: telemetry_response_def pending_queue)
qed

text \<open>
  C22: A CONFIG\_UPDATE command with a positive numeric interval takes effect at once and stays:
  the next telemetry of the device with at least 20 percent battery is answered with that
  interval, which for a value below \<open>2 ^ 32\<close> is its integer part, and the interval is stored
  as the device's setting.
\<close>

theorem config_update_effective:
  assumes "queues env qreq q" and "QueueAction q = ''CONFIG_UPDATE''" and "QueueParams q = Some kvs"
    and "map_of kvs ''sleep_interval_sec'' = Some (JNumber v)" and "f64_finite v"
    and "0 < f64_scaled v" and "f64_scaled v < 2 ^ 32 * 2 ^ 1074"
    and "submits env ctx req p" and "DeviceID (Header p) = QueueDevice q"
    and "20 \<le> unat (BatteryLevelPct (Metrics p))"
    and "HandleQueueCommand (mem_api order env url) env clk qctx qreq st = Some (Ok qresp, st1)"
  shows "\<exists>resp st2 sec. HandleTelemetry (mem_api order env url) env clk' ctx req st1 = Some (Ok (answer resp), st2) \<and>
    SleepIntervalSec resp = sec \<and> int (unat sec) = f64_scaled v div 2 ^ 1074 \<and>
    deviceSleepConfigs st1 (QueueDevice q) = Some sec \<and> deviceSleepConfigs st2 (QueueDevice q) = Some sec"
proof -
  let ?sec = "f64_to_u32 (u32_oor env) v"
  have "f64_gt v 0" using assms(5,6) by (simp add: f64_gt_def f64_lt_value default_low_value)
  then have c: "config_interval env (QueueAction q) (QueueParams q) = Some ?sec"
    using assms(2-4) by (simp add: config_interval_def)
  from mem_queue[OF assms(1), where order = order and url = url and clk = clk and ctx = qctx and st = st]
  have q: "repo_state st1 = snd (mem_QueueCommand (QueueDevice q) (queued_command (clk 0) q) (repo_state st))"
    "deviceSleepConfigs st1 (QueueDevice q) = Some ?sec"
    unfolding assms(11) c by auto
  have l: "last_interval env (pending_of st1 (QueueDevice q)) = Some ?sec"
    by (simp add: q(1) pending_queue last_interval_snoc) (simp add: queued_command_def c)
  have b: "\<not> BatteryLevelPct (Metrics p) < 20" using assms(10) by (simp add: word_less_nat_alt)
  have n: "int (unat ?sec) = f64_scaled v div 2 ^ 1074"
    using assms(5-7) by (intro f64_to_u32_floor) simp_all
  let ?resp = "telemetry_response (mem_api order env url) env (clk' 2) (deviceSleepConfigs st1) p
      (pending_of st1 (QueueDevice q))"
  have r: "SleepIntervalSec ?resp = ?sec" using b l assms(9) by (simp add: telemetry_response_def chosen_interval_def)
  obtain st2 where "HandleTelemetry (mem_api order env url) env clk' ctx req st1 = Some (Ok (answer ?resp), st2)"
    "deviceSleepConfigs st2 = merged_configs env (QueueDevice q) (pending_of st1 (QueueDevice q)) (deviceSleepConfigs st1)"
    using mem_telemetry[OF assms(8), where order = order and url = url and clk = clk' and st = st1] assms(9) by auto
  then show ?thesis
    by (intro exI[of _ ?resp] exI[of _ st2] exI[of _ ?sec] conjI r n q(2)) (simp_all add: merged_configs_def l)
qed

lemma demo_queues: "queues demo_env demo_request \<lparr>QueueDevice = ''D'', QueueAction = ''CONFIG_UPDATE'',
    QueueParams = Some [(''sleep_interval_sec'', JNumber 0x405E000000000000)]\<rparr>"
  by (simp add: queues_def demo_request_def demo_env_def)

theorem queued_command_delivered_witness:
  "\<exists>qresp st1 resp st2. HandleQueueCommand (mem_api rev demo_env []) demo_env (\<lambda>n. int n) background_context
      demo_request (initial_state NewInMemoryRepository) = Some (Ok qresp, st1) \<and>
    HandleTelemetry (mem_api rev demo_env []) demo_env (\<lambda>n. int n) (demo_context ''D'') demo_request st1 =
      Some (Ok (answer resp), st2) \<and> map CommandID (Commands resp) = [''cmd-0'']"
proof -
  let ?st = "initial_state NewInMemoryRepository"
  obtain qresp st1 where q: "HandleQueueCommand (mem_api rev demo_env []) demo_env (\<lambda>n. int n) background_context
      demo_request ?st = Some (Ok qresp, st1)"
    using mem_queue[OF demo_queues, where order = rev and url = "[]" and clk = "\<lambda>n. int n"
      and ctx = background_context and st = ?st] by auto
  have "pending_of ?st ''D'' = []" by (simp add: initial_state_def NewInMemoryRepository_def)
  moreover have "command_id 0 = ''cmd-0''" by (simp add: command_id_def show_int_def show_nat.simps) code_simp
  ultimately show ?thesis
    using queued_command_delivered[OF demo_queues demo_submits _ q, where clk' = "\<lambda>n. int n"] q
    by (auto simp: demo_payload_def queued_command_def)
qed

theorem config_update_effective_witness:
  "\<exists>st1 resp st2. HandleTelemetry (mem_api rev demo_env []) demo_env (\<lambda>n. int n) (demo_context ''D'') demo_request st1 =
      Some (Ok (answer resp), st2) \<and> int (unat (SleepIntervalSec resp)) = 120"
proof -
  let ?st = "initial_state NewInMemoryRepository"
  obtain qresp st1 where q: "HandleQueueCommand (mem_api rev demo_env []) demo_env (\<lambda>n. int n) background_context
      demo_request ?st = Some (Ok qresp, st1)"
    using mem_queue[OF demo_queues, where order = rev and url = "[]" and clk = "\<lambda>n. int n"
      and ctx = background_context and st = ?st] by auto
  have v: "f64_finite 0x405E000000000000" "0 < f64_scaled 0x405E000000000000"
    "f64_scaled 0x405E000000000000 < 2 ^ 32 * 2 ^ 1074" "f64_scaled 0x405E000000000000 div 2 ^ 1074 = 120"
    by (simp_all add: f64_eval)
  from config_update_effective[OF demo_queues _ _ _ v(1-3) demo_submits _ _ q, where clk' = "\<lambda>n. int n"] v(4)
  show ?thesis by (auto simp: demo_payload_def)
qed

section \<open>Properties of the listings\<close>

lemma mem_list_has:
  assumes "\<And>ks. set (order ks) = set ks"
  shows "d \<in> set (elements (ListDevices (mem_ops order) r)) \<longleftrightarrow> (\<exists>dev. read_device dev r = Ok d)"
proof -
  have read: "read_device dev r = Ok d \<longleftrightarrow> (\<exists>p. map_of (devices r) dev = Some p \<and> heap r p = Some d)" for dev
    by (auto simp: read_device_cases deref_def split: option.splits)
  have keys: "map_of (devices r) dev = Some p \<Longrightarrow> dev \<in> set (map fst (devices r))" for dev p
    by (force dest: map_of_SomeD)
  have "d \<in> set (elements (ListDevices (mem_ops order) r)) \<longleftrightarrow>
      (\<exists>p. (\<exists>dev \<in> set (map fst (devices r)). map_of (devices r) dev = Some p) \<and> heap r p = Some d)"
    using assms by (simp add: mem_ops_def mem_ListDevices_def set_map_filter Bex_def del: set_map)
  then show ?thesis using keys unfolding read by blast
qed

text \<open>
  C32: One accepted payload with a NaN or infinite temperature empties the whole device list:
  from then on, until that device reports a finite value, \<^verbatim>\<open>GET /api/v1/devices\<close> is
  answered 200 with no body at all, because the encoder rejects the list and its error is
  ignored.
\<close>

theorem non_finite_report_hides_devices:
  assumes "mem_inv (repo_state st)" and "\<And>ks. set (order ks) = set ks"
    and "submits env ctx req p" and "\<not> f64_finite (Temperature (Metrics p))"
    and "HandleTelemetry (mem_api order env url) env clk ctx req st = Some (Ok resp, st1)"
  shows "\<exists>lresp. HandleListDevices (mem_api order env url) lctx lreq st1 = Some (Ok lresp, st1) \<and>
    StatusCode lresp = 200 \<and> RespBody lresp = NoBody"
proof -
  let ?dev = "DeviceID (Header p)"
  from mem_telemetry[OF assms(3), where order = order and url = url and clk = clk and st = st]
  obtain s' where s': "repo_state st1 = s'" "s' = (snd (mem_SaveTelemetry (clk 0) p (repo_state st)))\<lparr>events := events s'\<rparr>"
    unfolding assms(5) by auto
  have rd: "read_device ?dev s' = read_device ?dev (snd (mem_SaveTelemetry (clk 0) p (repo_state st)))"
    by (subst s'(2)) (simp add: read_device_cases deref_def split: option.splits)
  obtain d where d: "read_device ?dev s' = Ok d" "LastMetrics d = Metrics p"
    unfolding rd read_device_save[OF assms(1)] by (auto simp: update_device_def)
  from mem_list_has[of order, OF assms(2)] d(1) have "d \<in> set (elements (ListDevices (mem_ops order) s'))" by blast
  moreover have "\<not> device_encodable d" using d(2) assms(4) by (simp add: device_encodable_def metrics_encodable_def)
  ultimately have "\<not> list_all device_encodable (elements (ListDevices (mem_ops order) s'))" by (auto simp: list_all_iff)
  then show ?thesis by (simp add: HandleListDevices_def s'(1) encoded_def json_response_def)
qed

text \<open>A protobuf body of the edge encoder whose temperature is a NaN.\<close>

lemma demo_protobuf_submits:
  assumes "DecodeTelemetryProtobuf (2 ^ 47) body = Some (Ok p)" and "DeviceID (Header p) = dev"
  shows "submits demo_env (demo_context dev) (demo_request\<lparr>ContentType := ''application/x-protobuf'', Body := Ok body\<rparr>) p"
proof -
  have "strings_Contains ''application/x-protobuf'' ''protobuf''" by (simp add: strings_Contains_def sublist_code)
  then show ?thesis
    using assms by (simp add: submits_def demo_request_def demo_context_def authenticated_id_def demo_env_def
        GetAuthenticatedDeviceID_def background_context_def decode_telemetry_body_def)
qed

theorem non_finite_report_hides_devices_witness:
  "\<exists>body p st1 resp lresp. DecodeTelemetryProtobuf (2 ^ 47) body = Some (Ok p) \<and> \<not> f64_finite (Temperature (Metrics p)) \<and>
    HandleTelemetry (mem_api rev demo_env []) demo_env (\<lambda>n. int n) (demo_context ''D'')
      (demo_request\<lparr>ContentType := ''application/x-protobuf'', Body := Ok body\<rparr>) (initial_state NewInMemoryRepository) =
      Some (Ok resp, st1) \<and>
    HandleListDevices (mem_api rev demo_env []) background_context demo_request st1 = Some (Ok lresp, st1) \<and>
    StatusCode lresp = 200 \<and> RespBody lresp = NoBody"
proof -
  let ?d = "example_data\<lparr>td_device_id := Some ''D'', td_temperature := 0x7FC00000\<rparr>"
  let ?st = "initial_state NewInMemoryRepository"
  have "length (c_default ''UNKNOWN'' (td_device_id ?d)) + length (c_default ''1.0.0'' (td_firmware_version ?d)) \<le> 42"
    by (simp add: example_data_def c_default_def)
  from decode_serialized[OF this, of 512 "2 ^ 47"] obtain body where
    body: "DecodeTelemetryProtobuf (2 ^ 47) body = Some (Ok (sent_payload ?d))" by auto
  have sub: "submits demo_env (demo_context ''D'')
      (demo_request\<lparr>ContentType := ''application/x-protobuf'', Body := Ok body\<rparr>) (sent_payload ?d)"
    by (rule demo_protobuf_submits[OF body]) (simp add: sent_payload_def c_default_def)
  have nan: "\<not> f64_finite (Temperature (Metrics (sent_payload ?d)))" by (simp add: sent_payload_def f64_eval)
  obtain resp st1 where r: "HandleTelemetry (mem_api rev demo_env []) demo_env (\<lambda>n. int n) (demo_context ''D'')
      (demo_request\<lparr>ContentType := ''application/x-protobuf'', Body := Ok body\<rparr>) ?st = Some (Ok resp, st1)"
    using mem_telemetry[OF sub, where order = rev and url = "[]" and clk = "\<lambda>n. int n" and st = ?st] by auto
  have "mem_inv (repo_state ?st)" by (simp add: initial_state_def mem_inv_new)
  from non_finite_report_hides_devices[OF this _ sub nan r, of background_context demo_request] nan r body
  show ?thesis by (intro exI[of _ body] exI[of _ "sent_payload ?d"]) auto
qed

end
