(* ===== verification/Server.thy ===== *)
theory Server
  imports Memory_Handlers
begin

text \<open>
  The program of server/main.go: two listeners over one handler and one repository. The edge
  listener (mTLS, port 8443) wraps every route but the health check in the middleware; the
  dashboard listener (plain HTTP, port 8080) serves some of the same handlers without it, and
  the static files. The runs here take the requests one after the other, each handled as a whole;
  \<^theory_text>\<open>Concurrent\<close> cuts them into steps.
  Which certificate a request presents is up to the TLS handshake, which is not modelled.
\<close>

section \<open>The request multiplexer of net/http\<close>

text \<open>\<^verbatim>\<open>path.Clean\<close> of a rooted path, on its segments: the kept segments are in reverse.\<close>

fun clean_segments :: "gostring list \<Rightarrow> gostring list \<Rightarrow> gostring list" where
  "clean_segments acc [] = rev acc"
| "clean_segments acc (seg # segs) =
     (if seg = [] \<or> seg = ''.'' then clean_segments acc segs
      else if seg = ''..'' then clean_segments (tl acc) segs
      else clean_segments (seg # acc) segs)"

definition path_Clean :: "gostring \<Rightarrow> gostring" where
  "path_Clean p =
     (case clean_segments [] (strings_Split CHR ''/'' p) of
        [] \<Rightarrow> ''/''
      | segs \<Rightarrow> concat (map (\<lambda>seg. CHR ''/'' # seg) segs))"

definition cleanPath :: "gostring \<Rightarrow> gostring" where
  "cleanPath p =
     (if p = [] then ''/''
      else let np = path_Clean p
           in if last p = CHR ''/'' \<and> np \<noteq> ''/'' then np @ ''/'' else np)"

datatype 'r mux_result = Redirect gostring | NotFound | Dispatch 'r

text \<open>A pattern that ends in a slash matches its subtree; an exact pattern wins, then the
  longest subtree. A path that is not clean, or lacks the slash of a subtree, is redirected.\<close>

definition subtree_match :: "(gostring \<times> 'r) list \<Rightarrow> gostring \<Rightarrow> 'r option" where
  "subtree_match routes path =
     (case sort_key (\<lambda>r. - int (length (fst r)))
             (filter (\<lambda>r. fst r \<noteq> [] \<and> last (fst r) = CHR ''/'' \<and> prefix (fst r) path) routes) of
        [] \<Rightarrow> None
      | r # _ \<Rightarrow> Some (snd r))"

definition ServeMux :: "(gostring \<times> 'r) list \<Rightarrow> gostring \<Rightarrow> 'r mux_result" where
  "ServeMux routes path =
     (if cleanPath path \<noteq> path then Redirect (cleanPath path)
      else case map_of routes path of
             Some r \<Rightarrow> Dispatch r
           | None \<Rightarrow>
               if map_of routes (path @ ''/'') \<noteq> None then Redirect (path @ ''/'')
               else case subtree_match routes path of
                      Some r \<Rightarrow> Dispatch r
                    | None \<Rightarrow> NotFound)"

section \<open>The routes (main.go)\<close>

datatype endpoint =
    Health | TelemetryEndpoint | EventsEndpoint | DevicesEndpoint | OtaDownloadEndpoint
  | HistoryEndpoint | CommandsEndpoint | CommandsAckEndpoint
  | FileServer gostring | ServeFile gostring

definition edge_routes :: "(gostring \<times> endpoint) list" where
  "edge_routes =
     [(''/healthz'', Health),
      (''/api/v1/telemetry'', TelemetryEndpoint),
      (''/api/v1/events'', EventsEndpoint),
      (''/api/v1/devices'', DevicesEndpoint),
      (''/api/v1/ota/download/'', OtaDownloadEndpoint),
      (''/api/v1/telemetry/history'', HistoryEndpoint),
      (''/api/v1/commands'', CommandsEndpoint),
      (''/api/v1/commands/ack'', CommandsAckEndpoint)]"

definition web_routes :: "(gostring \<times> endpoint) list" where
  "web_routes =
     [(''/healthz'', Health),
      (''/api/v1/devices'', DevicesEndpoint),
      (''/api/v1/telemetry/history'', HistoryEndpoint),
      (''/api/v1/commands'', CommandsEndpoint),
      (''/api/v1/commands/ack'', CommandsAckEndpoint),
      (''/'', FileServer ''./web''),
      (''/spec'', ServeFile ''../docs/system_specification.html''),
      (''/guide'', ServeFile ''../docs/server_user_guide.html''),
      (''/protocol'', ServeFile ''../docs/protocol_specification.html''),
      (''/stm32'', ServeFile ''../docs/edge_user_guide_stm32.html''),
      (''/esp32'', ServeFile ''../docs/edge_user_guide_esp32.html''),
      (''/images/'', FileServer ''../docs/images'')]"

text \<open>\<open>files\<close> is the answer of the file server, which reads the disk and not the state.\<close>

record 's server =
  api :: "'s api_handler"
  machine :: go_env
  requireMTLS :: bool
  files :: "endpoint \<Rightarrow> http_request \<Rightarrow> http_response"

definition serve_endpoint :: "'s server \<Rightarrow> (nat \<Rightarrow> time) \<Rightarrow> endpoint \<Rightarrow> 's api_state http_handler" where
  "serve_endpoint srv clk ep =
     (case ep of
        Health \<Rightarrow> HandleHealth clk
      | TelemetryEndpoint \<Rightarrow> HandleTelemetry (api srv) (machine srv) clk
      | EventsEndpoint \<Rightarrow> HandleEvents (api srv) (machine srv) clk
      | DevicesEndpoint \<Rightarrow> HandleListDevices (api srv)
      | OtaDownloadEndpoint \<Rightarrow> HandleOtaDownload
      | HistoryEndpoint \<Rightarrow> HandleTelemetryHistory (api srv) clk
      | CommandsEndpoint \<Rightarrow> HandleQueueCommand (api srv) (machine srv) clk
      | CommandsAckEndpoint \<Rightarrow> HandleAckCommand (api srv) (machine srv) clk
      | _ \<Rightarrow> (\<lambda>ctx req st. Some (Ok (files srv ep req), st)))"

definition redirect_response :: "gostring \<Rightarrow> http_response" where
  "redirect_response url = \<lparr>StatusCode = 301, Headers = [(''Location'', url)], RespBody = NoBody\<rparr>"

definition edge_serve :: "'s server \<Rightarrow> (nat \<Rightarrow> time) \<Rightarrow> http_request \<Rightarrow> 's api_state \<Rightarrow> 's api_state handled" where
  "edge_serve srv clk req st =
     (case ServeMux edge_routes (Path req) of
        Redirect url \<Rightarrow> Some (Ok (redirect_response url), st)
      | NotFound \<Rightarrow> Some (Ok (http_Error 404 ''404 page not found''), st)
      | Dispatch ep \<Rightarrow>
          (if ep = Health then serve_endpoint srv clk ep background_context req st
           else MTLSAuthMiddleware (requireMTLS srv) (serve_endpoint srv clk ep) background_context req st))"

definition web_serve :: "'s server \<Rightarrow> (nat \<Rightarrow> time) \<Rightarrow> http_request \<Rightarrow> 's api_state \<Rightarrow> 's api_state handled" where
  "web_serve srv clk req st =
     (case ServeMux web_routes (Path req) of
        Redirect url \<Rightarrow> Some (Ok (redirect_response url), st)
      | NotFound \<Rightarrow> Some (Ok (http_Error 404 ''404 page not found''), st)
      | Dispatch ep \<Rightarrow> serve_endpoint srv clk ep background_context req st)"

section \<open>Runs\<close>

datatype listener = Edge | Dashboard

definition serve :: "'s server \<Rightarrow> listener \<Rightarrow> (nat \<Rightarrow> time) \<Rightarrow> http_request \<Rightarrow> 's api_state \<Rightarrow> 's api_state handled" where
  "serve srv l = (case l of Edge \<Rightarrow> edge_serve srv | Dashboard \<Rightarrow> web_serve srv)"

text \<open>A request that never returns takes no step; one that panics leaves its partial effects.\<close>

inductive server_run :: "'s server \<Rightarrow> 's api_state \<Rightarrow> (listener \<times> http_request) list \<Rightarrow> 's api_state \<Rightarrow> bool"
  for srv :: "'s server" and st0 :: "'s api_state"
where
  start: "server_run srv st0 [] st0"
| request: "server_run srv st0 reqs st \<Longrightarrow> serve srv l clk req st = Some (res, st') \<Longrightarrow>
    server_run srv st0 (reqs @ [(l, req)]) st'"

inductive_cases server_run_snocE: "server_run srv st0 (reqs @ [r]) st"

definition mem_server ::
  "(gostring list \<Rightarrow> gostring list) \<Rightarrow> go_env \<Rightarrow> gostring \<Rightarrow> bool \<Rightarrow> (endpoint \<Rightarrow> http_request \<Rightarrow> http_response) \<Rightarrow> mem_repo server"
where
  "mem_server order env url mtls fs =
     \<lparr>api = mem_api order env url, machine = env, requireMTLS = mtls, files = fs\<rparr>"

section \<open>Facts about the multiplexer\<close>

lemma subtree_match_route:
  assumes "subtree_match routes path = Some r"
  shows "\<exists>pat. (pat, r) \<in> set routes \<and> last pat = CHR ''/'' \<and> prefix pat path"
proof -
  let ?l = "sort_key (\<lambda>r. - int (length (fst r)))
      (filter (\<lambda>r. fst r \<noteq> [] \<and> last (fst r) = CHR ''/'' \<and> prefix (fst r) path) routes)"
  obtain x xs where "?l = x # xs" "r = snd x"
    using assms by (auto simp: subtree_match_def split: list.splits)
  then have "x \<in> set ?l" by simp
  with \<open>r = snd x\<close> show ?thesis by (intro exI[of _ "fst x"]) simp
qed

lemma dispatch_route:
  assumes "ServeMux routes path = Dispatch r"
  shows "(path, r) \<in> set routes \<or> (\<exists>pat. (pat, r) \<in> set routes \<and> last pat = CHR ''/'' \<and> prefix pat path)"
proof -
  have "map_of routes path = Some r \<or> subtree_match routes path = Some r"
    using assms by (auto simp: ServeMux_def split: if_splits option.splits)
  then show ?thesis using map_of_SomeD[of routes path r] subtree_match_route[of routes path r] by blast
qed

lemma edge_health_route: "ServeMux edge_routes path = Dispatch Health \<Longrightarrow> path = ''/healthz''"
  by (drule dispatch_route) (auto simp: edge_routes_def)

lemma edge_telemetry_route: "ServeMux edge_routes ''/api/v1/telemetry'' = Dispatch TelemetryEndpoint"
  by code_simp

lemma web_has_no_telemetry:
  "ServeMux web_routes path = Dispatch ep \<Longrightarrow> ep \<noteq> TelemetryEndpoint \<and> ep \<noteq> EventsEndpoint"
  by (drule dispatch_route) (auto simp: web_routes_def)

section \<open>The effect of a request on the in-memory repository\<close>

lemma telemetry_effect:
  assumes "HandleTelemetry (mem_api order env url) env clk ctx req st = Some (res, st')"
  shows "\<exists>ops. repo_state st' = fold mem_step ops (repo_state st) \<and>
    (\<forall>now t. Saved now t \<in> set ops \<longrightarrow> submits env ctx req t)"
  using telemetry_cases[OF assms]
proof (elim disjE exE conjE)
  fix p assume p: "submits env ctx req p"
  from mem_telemetry[OF p, where order = order and url = url and clk = clk and st = st]
  have "repo_state st' = fold mem_step (telemetry_ops (clk 0) p (alerts_at (clk 3) p)) (repo_state st)"
    unfolding assms by auto
  moreover have "Saved now t \<in> set (telemetry_ops (clk 0) p alerts) \<Longrightarrow> t = p" for now t alerts
    by (auto simp: telemetry_ops_def)
  ultimately show ?thesis using p by blast
next
  assume "st' = st"
  then show ?thesis by (intro exI[of _ "[]"]) simp
qed

abbreviation no_saves :: "repo_op list \<Rightarrow> bool" where
  "no_saves ops \<equiv> \<forall>now t. Saved now t \<notin> set ops"

lemma queue_effect:
  assumes "HandleQueueCommand (mem_api order env url) env clk ctx req st = Some (res, st')"
  shows "\<exists>ops. repo_state st' = fold mem_step ops (repo_state st) \<and> no_saves ops"
proof (cases "\<exists>q. queues env req q")
  case True
  then obtain q where q: "queues env req q" by blast
  from mem_queue[OF q, where order = order and url = url and clk = clk and ctx = ctx and st = st]
  have "repo_state st' = mem_step (Queued (QueueDevice q) (queued_command (clk 0) q)) (repo_state st)"
    unfolding assms by auto
  then show ?thesis
    by (intro exI[of _ "[Queued (QueueDevice q) (queued_command (clk 0) q)]"]) simp
next
  case False
  then have "st' = st"
    using assms by (auto simp: HandleQueueCommand_def queues_def split: if_splits outcome.splits)
  then show ?thesis by (intro exI[of _ "[]"]) simp
qed

lemma ack_effect:
  assumes "HandleAckCommand (mem_api order env url) env clk ctx req st = Some (res, st')"
  shows "\<exists>ops. repo_state st' = fold mem_step ops (repo_state st) \<and> no_saves ops"
proof (cases "decode_ack_request env (Body req)")
  case (Ok a)
  from mem_ack[OF Ok, where order = order and url = url and clk = clk and ctx = ctx and st = st]
  have "repo_state st' = mem_step (Acked (AckDevice a) (AckID a)) (repo_state st)"
    unfolding assms by auto
  then show ?thesis
    by (intro exI[of _ "[Acked (AckDevice a) (AckID a)]"]) simp
qed (use assms in \<open>auto intro!: exI[of _ "[]"] simp: HandleAckCommand_def\<close>)

lemma mem_event: "mem_SaveEvent e r = (Ok (), mem_step (Recorded e) r)"
  by (simp add: mem_SaveEvent_def)

lemma events_effect:
  assumes "HandleEvents (mem_api order env url) env clk ctx req st = Some (res, st')"
  shows "\<exists>ops. repo_state st' = fold mem_step ops (repo_state st) \<and> no_saves ops"
proof (cases "st' = st")
  case False
  then obtain e where "repo_state st' = mem_step (Recorded e) (repo_state st)"
    using assms by (auto simp: HandleEvents_def mem_event Let_def simp del: mem_step.simps
        split: if_splits outcome.splits)
  then show ?thesis by (intro exI[of _ "[Recorded e]"]) simp
qed (intro exI[of _ "[]"], simp)

text \<open>Who vouches for a payload: the certificate that came with the request.\<close>

definition vouches :: "bool \<Rightarrow> listener \<Rightarrow> http_request \<Rightarrow> gostring \<Rightarrow> bool" where
  "vouches mtls l req dev \<longleftrightarrow> l = Edge \<and>
     (case peer_certificate req of
        Some c \<Rightarrow> CommonName c = dev \<or> CommonName c = []
      | None \<Rightarrow> \<not> mtls \<and> dev = ''DEV-ESP32-001'')"

definition carries :: "go_env \<Rightarrow> http_request \<Rightarrow> telemetry_payload \<Rightarrow> bool" where
  "carries env req t \<longleftrightarrow> (\<exists>body. Body req = Ok body \<and> decode_telemetry_body env req body = Some (Decoded t))"

lemma endpoint_effect:
  assumes "serve_endpoint (mem_server order env url mtls fs) clk ep ctx req st = Some (res, st')"
  shows "\<exists>ops. repo_state st' = fold mem_step ops (repo_state st) \<and>
    (\<forall>now t. Saved now t \<in> set ops \<longrightarrow> ep = TelemetryEndpoint \<and> submits env ctx req t)"
proof -
  have same: "st' = st \<Longrightarrow> ?thesis" by (intro exI[of _ "[]"]) simp
  show ?thesis
  proof (cases ep)
    case Health
    with assms readers_keep(4) show ?thesis by (intro same) (simp add: serve_endpoint_def)
  next
    case TelemetryEndpoint
    with assms telemetry_effect show ?thesis by (simp add: serve_endpoint_def mem_server_def)
  next
    case EventsEndpoint
    with assms events_effect show ?thesis by (simp add: serve_endpoint_def mem_server_def)
  next
    case DevicesEndpoint
    with assms readers_keep(2) show ?thesis by (intro same) (simp add: serve_endpoint_def)
  next
    case OtaDownloadEndpoint
    with assms readers_keep(1) show ?thesis by (intro same) (simp add: serve_endpoint_def)
  next
    case HistoryEndpoint
    with assms readers_keep(3) show ?thesis by (intro same) (simp add: serve_endpoint_def)
  next
    case CommandsEndpoint
    with assms queue_effect show ?thesis by (simp add: serve_endpoint_def mem_server_def)
  next
    case CommandsAckEndpoint
    with assms ack_effect show ?thesis by (simp add: serve_endpoint_def mem_server_def)
  next
    case (FileServer d)
    with assms show ?thesis by (intro same) (simp add: serve_endpoint_def)
  next
    case (ServeFile f)
    with assms show ?thesis by (intro same) (simp add: serve_endpoint_def)
  qed
qed

lemma edge_cases:
  assumes "edge_serve srv clk req st = Some (res, st')" and "st' \<noteq> st"
  shows "\<exists>ep ctx. serve_endpoint srv clk ep ctx req st = Some (res, st') \<and>
    (case peer_certificate req of
       Some c \<Rightarrow> authenticated_id ctx = CommonName c
     | None \<Rightarrow> \<not> requireMTLS srv \<and> authenticated_id ctx = ''DEV-ESP32-001'')"
proof -
  have id: "authenticated_id (ctx\<lparr>DeviceIDKey := Some dev\<rparr>) = dev"
    "authenticated_id (ctx\<lparr>DeviceIDKey := Some dev, CertKey := Some c\<rparr>) = dev" for ctx dev c
    by (simp_all add: authenticated_id_def GetAuthenticatedDeviceID_def)
  obtain ep where ep: "ServeMux edge_routes (Path req) = Dispatch ep" "ep \<noteq> Health"
    using assms by (auto simp: edge_serve_def serve_endpoint_def HandleHealth_def split: mux_result.splits if_splits)
  have run: "MTLSAuthMiddleware (requireMTLS srv) (serve_endpoint srv clk ep) background_context req st = Some (res, st')"
    using assms(1) ep by (simp add: edge_serve_def)
  show ?thesis
  proof (cases "peer_certificate req")
    case None
    with run assms(2) id show ?thesis
      by (intro exI[of _ ep] exI[of _ "background_context\<lparr>DeviceIDKey := Some ''DEV-ESP32-001''\<rparr>"])
         (auto simp: middleware_cases split: if_splits)
  next
    case (Some c)
    with run id show ?thesis
      by (intro exI[of _ ep] exI[of _ "background_context\<lparr>DeviceIDKey := Some (CommonName c), CertKey := Some c\<rparr>"])
         (simp add: middleware_cases)
  qed
qed

lemma serve_effect:
  assumes "serve (mem_server order env url mtls fs) l clk req st = Some (res, st')"
  shows "\<exists>ops. repo_state st' = fold mem_step ops (repo_state st) \<and>
    (\<forall>now t. Saved now t \<in> set ops \<longrightarrow> vouches mtls l req (DeviceID (Header t)) \<and> carries env req t)"
proof (cases "st' = st")
  case True
  then show ?thesis by (intro exI[of _ "[]"]) simp
next
  case False
  let ?srv = "mem_server order env url mtls fs"
  have rm: "requireMTLS ?srv = mtls" by (simp add: mem_server_def)
  show ?thesis
  proof (cases l)
    case Edge
    with assms have "edge_serve ?srv clk req st = Some (res, st')" by (simp add: serve_def)
    from edge_cases[OF this False] obtain ep ctx where e: "serve_endpoint ?srv clk ep ctx req st = Some (res, st')"
      "case peer_certificate req of Some c \<Rightarrow> authenticated_id ctx = CommonName c
       | None \<Rightarrow> \<not> mtls \<and> authenticated_id ctx = ''DEV-ESP32-001''" unfolding rm by blast
    have v: "submits env ctx req t \<Longrightarrow> vouches mtls l req (DeviceID (Header t)) \<and> carries env req t" for t
      using e(2) Edge by (auto simp: submits_def vouches_def carries_def split: option.splits)
    from endpoint_effect[OF e(1)] v show ?thesis by blast
  next
    case Dashboard
    with assms have "web_serve ?srv clk req st = Some (res, st')" by (simp add: serve_def)
    with False obtain ep where ep: "ServeMux web_routes (Path req) = Dispatch ep"
      "serve_endpoint ?srv clk ep background_context req st = Some (res, st')"
      by (auto simp: web_serve_def split: mux_result.splits)
    from endpoint_effect[OF ep(2)] web_has_no_telemetry[OF ep(1)] show ?thesis by blast
  qed
qed

text \<open>A run from the empty repository performs a sequence of repository operations.\<close>

definition backed :: "bool \<Rightarrow> go_env \<Rightarrow> (listener \<times> http_request) list \<Rightarrow> repo_op list \<Rightarrow> bool" where
  "backed mtls env reqs tr \<longleftrightarrow> (\<forall>now t. Saved now t \<in> set tr \<longrightarrow>
     (\<exists>(l, req) \<in> set reqs. vouches mtls l req (DeviceID (Header t)) \<and> carries env req t))"

lemma run_ops:
  assumes "server_run (mem_server order env url mtls fs) (initial_state NewInMemoryRepository) reqs st"
  shows "\<exists>tr. repo_state st = mem_run tr \<and> backed mtls env reqs tr"
  using assms
proof (induction rule: server_run.induct)
  case start
  show ?case by (intro exI[of _ "[]"]) (simp add: initial_state_def backed_def)
next
  case (request reqs st l clk req res st')
  then obtain tr where tr: "repo_state st = mem_run tr" "backed mtls env reqs tr" by blast
  from serve_effect[OF request.hyps(2)] obtain ops where ops: "repo_state st' = fold mem_step ops (repo_state st)"
    "\<And>now t. Saved now t \<in> set ops \<Longrightarrow> vouches mtls l req (DeviceID (Header t)) \<and> carries env req t" by blast
  have "repo_state st' = mem_run (tr @ ops)" by (simp add: ops(1) tr(1) mem_run_def)
  moreover have "backed mtls env (reqs @ [(l, req)]) (tr @ ops)"
    using tr(2) ops(2) by (fastforce simp: backed_def)
  ultimately show ?case by blast
qed

lemma fold_no_saves:
  assumes "no_saves ops"
  shows "read_device dev (fold mem_step ops r) = read_device dev r \<and>
    slice_of (telemetries (fold mem_step ops r)) dev = slice_of (telemetries r) dev"
  using assms
proof (induction ops arbitrary: r)
  case (Cons x ops)
  have "read_device dev (mem_step x r) = read_device dev r \<and>
      slice_of (telemetries (mem_step x r)) dev = slice_of (telemetries r) dev"
    using Cons.prems by (cases x) (auto simp: mem_SaveEvent_def mem_QueueCommand_def mem_AckCommand_def
        read_device_cases deref_def split: option.splits)
  with Cons show ?case by simp
qed simp

lemma saved_in_trace: "(now, t) \<in> set (saves dev tr) \<Longrightarrow> Saved now t \<in> set tr \<and> DeviceID (Header t) = dev"
  by (induction dev tr rule: saves.induct) (auto split: if_splits)

lemma edge_telemetry:
  assumes "Path req = ''/api/v1/telemetry''" and "peer_certificate req = Some c"
  shows "edge_serve srv clk req st = HandleTelemetry (api srv) (machine srv) clk
    (background_context\<lparr>DeviceIDKey := Some (CommonName c), CertKey := Some c\<rparr>) req st"
  using assms by (simp add: edge_serve_def edge_telemetry_route middleware_cases serve_endpoint_def)

text \<open>Only the protobuf decoder can keep a request from being answered.\<close>

lemma accept_returns: "accept_telemetry h env clk p st \<noteq> None"
  by (simp add: accept_telemetry_def respond_telemetry_def Let_def case_prod_beta split: outcome.splits)

lemma endpoint_returns:
  assumes "\<And>body. Body req = Ok body \<Longrightarrow> DecodeTelemetryProtobuf (max_alloc (machine srv)) body \<noteq> None"
  shows "serve_endpoint srv clk ep ctx req st \<noteq> None"
  using assms accept_returns
  by (cases ep) (auto simp: serve_endpoint_def HandleHealth_def HandleTelemetry_def HandleEvents_def
      HandleListDevices_def HandleOtaDownload_def HandleTelemetryHistory_def HandleQueueCommand_def
      HandleAckCommand_def decode_telemetry_body_def Let_def case_prod_beta
      split: outcome.splits if_splits decoded_body.splits option.splits)

section \<open>A run for the witnesses\<close>

definition demo_server :: "mem_repo server" where
  "demo_server = mem_server rev demo_env [] True (\<lambda>_ _. http_Error 404 ''404 page not found'')"

lemma demo_authenticated_submits:
  "authenticated_id ctx = ''D'' \<Longrightarrow> submits demo_env ctx demo_request demo_payload"
  using demo_submits by (simp add: submits_def demo_payload_def)

lemma demo_run:
  "\<exists>st. server_run demo_server (initial_state NewInMemoryRepository) [(Edge, demo_request)] st \<and>
    slice_of (telemetries (repo_state st)) ''D'' = [demo_payload]"
proof -
  let ?c = "\<lparr>CommonName = ''D'', IssuerName = [], DNSNames = []\<rparr>" and ?st = "initial_state NewInMemoryRepository"
  let ?ctx = "background_context\<lparr>DeviceIDKey := Some (CommonName ?c), CertKey := Some ?c\<rparr>"
  have s: "submits demo_env ?ctx demo_request demo_payload"
    by (rule demo_authenticated_submits) (simp add: authenticated_id_def GetAuthenticatedDeviceID_def)
  from mem_telemetry[OF s, where order = rev and url = "[]" and clk = "\<lambda>n. int n" and st = ?st]
  obtain resp st' where h: "HandleTelemetry (mem_api rev demo_env []) demo_env (\<lambda>n. int n) ?ctx demo_request ?st =
      Some (resp, st')" "repo_state st' = fold mem_step (telemetry_ops 0 demo_payload (alerts_at 3 demo_payload)) NewInMemoryRepository"
    by (auto simp: initial_state_def)
  have "serve demo_server Edge (\<lambda>n. int n) demo_request ?st = Some (resp, st')"
    using edge_telemetry[of demo_request ?c demo_server "\<lambda>n. int n" ?st] h(1)
    by (simp add: serve_def demo_request_def peer_certificate_def demo_server_def mem_server_def)
  with server_run.request[OF server_run.start] have run: "server_run demo_server ?st [(Edge, demo_request)] st'"
    by fastforce
  have "repo_state st' = mem_run (telemetry_ops 0 demo_payload (alerts_at 3 demo_payload))"
    by (simp add: h(2) mem_run_def)
  moreover have "saves ''D'' (map (\<lambda>a. Recorded (f a)) as) = []" for f and as :: "alert_event list"
    by (induction as) simp_all
  ultimately have "slice_of (telemetries (repo_state st')) ''D'' = [demo_payload]"
    by (simp add: run_telemetries telemetry_ops_def) (simp add: demo_payload_def)
  with run show ?thesis by blast
qed

section \<open>Properties of the server\<close>

lemma edge_health_iff: "ServeMux edge_routes path = Dispatch Health \<longleftrightarrow> path = ''/healthz''"
proof
  assume "path = ''/healthz''"
  moreover have "ServeMux edge_routes ''/healthz'' = Dispatch Health" by code_simp
  ultimately show "ServeMux edge_routes path = Dispatch Health" by (simp only:)
qed (rule edge_health_route)

text \<open>
  C29: With mTLS required, no request on the edge listener without a client certificate changes
  anything. The health check answers it with 200; every other path that the listener serves, with
  401; an unknown path, with 404; and a path that is not clean, with a redirect.
\<close>

theorem unauthenticated_edge_request:
  assumes "requireMTLS srv" and "peer_certificate req = None"
    and "serve srv Edge clk req st = Some (res, st')"
  shows "st' = st \<and> (\<exists>resp. res = Ok resp \<and> StatusCode resp =
    (case ServeMux edge_routes (Path req) of
       Redirect url \<Rightarrow> 301
     | NotFound \<Rightarrow> 404
     | Dispatch ep \<Rightarrow> if Path req = ''/healthz'' then 200 else 401))"
proof -
  have "res = Ok resp \<Longrightarrow> StatusCode resp = 200 \<and> st' = st" if "HandleHealth clk ctx req st = Some (res, st')" for ctx resp
    using that by (auto simp: HandleHealth_def json_response_def)
  with assms show ?thesis
    by (auto simp: edge_health_iff[symmetric] serve_def edge_serve_def serve_endpoint_def HandleHealth_def middleware_cases
        json_response_def http_Error_def redirect_response_def split: mux_result.splits)
qed

theorem unauthenticated_edge_request_witness:
  "\<exists>resp st'. serve demo_server Edge (\<lambda>n. int n) (demo_request\<lparr>PeerCertificates := None\<rparr>)
      (initial_state NewInMemoryRepository) = Some (Ok resp, st') \<and>
    st' = initial_state NewInMemoryRepository \<and> StatusCode resp = 401"
proof -
  let ?req = "demo_request\<lparr>PeerCertificates := None\<rparr>" and ?st = "initial_state NewInMemoryRepository"
  have p: "requireMTLS demo_server" "peer_certificate ?req = None" "Path ?req = ''/api/v1/telemetry''"
    by (simp_all add: demo_server_def mem_server_def peer_certificate_def demo_request_def)
  then obtain res st' where "serve demo_server Edge (\<lambda>n. int n) ?req ?st = Some (res, st')"
    by (simp add: serve_def edge_serve_def edge_telemetry_route middleware_cases)
  with unauthenticated_edge_request[OF p(1,2) this] p(3) show ?thesis by (auto simp: edge_telemetry_route)
qed

text \<open>
  C30: The dashboard listener never changes a device entry or a telemetry history, whatever is
  sent to it.
\<close>

theorem dashboard_keeps_devices:
  assumes "serve (mem_server order env url mtls fs) Dashboard clk req st = Some (res, st')"
  shows "read_device dev (repo_state st') = read_device dev (repo_state st) \<and>
    slice_of (telemetries (repo_state st')) dev = slice_of (telemetries (repo_state st)) dev"
proof -
  from serve_effect[OF assms] obtain ops where "repo_state st' = fold mem_step ops (repo_state st)" "no_saves ops"
    by (auto simp: vouches_def)
  with fold_no_saves show ?thesis by simp
qed

theorem dashboard_keeps_devices_witness:
  "\<exists>res st'. serve demo_server Dashboard (\<lambda>n. int n) (demo_request\<lparr>Path := ''/api/v1/commands''\<rparr>)
      (initial_state NewInMemoryRepository) = Some (res, st') \<and>
    read_device ''D'' (repo_state st') = Err DeviceNotFound \<and> pending_of st' ''D'' \<noteq> []"
proof -
  let ?req = "demo_request\<lparr>Path := ''/api/v1/commands''\<rparr>" and ?st = "initial_state NewInMemoryRepository"
  have route: "ServeMux web_routes ''/api/v1/commands'' = Dispatch CommandsEndpoint" by code_simp
  have q: "queues demo_env ?req \<lparr>QueueDevice = ''D'', QueueAction = ''CONFIG_UPDATE'',
      QueueParams = Some [(''sleep_interval_sec'', JNumber 0x405E000000000000)]\<rparr>"
    by (simp add: queues_def demo_request_def demo_env_def)
  from mem_queue[OF q, where order = rev and url = "[]" and clk = "\<lambda>n. int n" and ctx = background_context and st = ?st]
  obtain resp st' where r: "HandleQueueCommand (mem_api rev demo_env []) demo_env (\<lambda>n. int n) background_context ?req ?st =
      Some (Ok resp, st')" "pending_of st' ''D'' \<noteq> []" by (auto simp: pending_queue)
  have run: "serve demo_server Dashboard (\<lambda>n. int n) ?req ?st = Some (Ok resp, st')"
    using r(1) by (simp add: serve_def web_serve_def route serve_endpoint_def demo_server_def mem_server_def)
  have "read_device ''D'' (repo_state ?st) = Err DeviceNotFound"
    by (simp add: initial_state_def NewInMemoryRepository_def read_device_cases)
  with dashboard_keeps_devices[OF run[unfolded demo_server_def], of "''D''"] run r(2) show ?thesis by auto
qed

text \<open>
  C33: The gap in the authentication: with mTLS required, a client certificate with an empty
  common name is as good as any. A request that presents one stores a payload under whatever
  device id the payload names.
\<close>

theorem empty_common_name_bypass:
  assumes "Path req = ''/api/v1/telemetry''" and "Method req = ''POST''"
    and "peer_certificate req = Some c" and "CommonName c = []" and "carries env req p"
  shows "\<exists>resp st'. serve (mem_server order env url True fs) Edge clk req st = Some (Ok resp, st') \<and>
    StatusCode resp = 200 \<and>
    slice_of (telemetries (repo_state st')) (DeviceID (Header p)) =
      slice_of (telemetries (repo_state st)) (DeviceID (Header p)) @ [p]"
proof -
  let ?ctx = "background_context\<lparr>DeviceIDKey := Some (CommonName c), CertKey := Some c\<rparr>"
  have s: "submits env ?ctx req p"
    using assms(2,4,5) by (simp add: submits_def carries_def authenticated_id_def GetAuthenticatedDeviceID_def)
  from mem_telemetry[OF s, where order = order and url = url and clk = clk and st = st]
  obtain r s' st' where h: "HandleTelemetry (mem_api order env url) env clk ?ctx req st =
      Some (Ok (answer r), st')" "repo_state st' = s'"
    "s' = (snd (mem_SaveTelemetry (clk 0) p (repo_state st)))\<lparr>events := events s'\<rparr>" by fastforce
  have t: "telemetries s' = append_at (telemetries (repo_state st)) (DeviceID (Header p)) p"
    by (subst h(3)) (simp add: save_tables)
  have "serve (mem_server order env url True fs) Edge clk req st = Some (Ok (answer r), st')"
    using h(1) by (simp add: serve_def edge_telemetry[OF assms(1,3)] mem_server_def)
  with t h(2) show ?thesis by (intro exI[of _ "answer r"] exI[of _ st']) (simp add: json_response_def)
qed

theorem empty_common_name_bypass_witness:
  "\<exists>resp st'. serve demo_server Edge (\<lambda>n. int n) (demo_request\<lparr>PeerCertificates :=
      Some [\<lparr>CommonName = [], IssuerName = ''CA'', DNSNames = []\<rparr>]\<rparr>) (initial_state NewInMemoryRepository) =
      Some (Ok resp, st') \<and> slice_of (telemetries (repo_state st')) ''D'' = [demo_payload]"
proof -
  let ?c = "\<lparr>CommonName = [], IssuerName = ''CA'', DNSNames = []\<rparr>"
  let ?req = "demo_request\<lparr>PeerCertificates := Some [?c]\<rparr>"
  have r: "Path ?req = ''/api/v1/telemetry''" "Method ?req = ''POST''" "peer_certificate ?req = Some ?c"
    "CommonName ?c = []" "carries demo_env ?req demo_payload"
    using demo_decodes
    by (simp_all add: demo_request_def peer_certificate_def carries_def decode_telemetry_body_def)
  from empty_common_name_bypass[OF r, where order = rev and url = "[]" and clk = "\<lambda>n. int n"
      and st = "initial_state NewInMemoryRepository" and fs = "\<lambda>_ _. http_Error 404 ''404 page not found''"]
  show ?thesis
    by (auto simp: demo_server_def initial_state_def NewInMemoryRepository_def demo_payload_def)
qed

end
