(* ===== verification/Config.thy ===== *)
theory Config
  imports Go_Base
begin

text \<open>
  Package \<^verbatim>\<open>config\<close> (server/config/config.go): the configuration read from the environment
  and the TLS configuration built from it. \<open>host\<close> holds what the package asks of the
  operating system and of crypto/tls: the environment (the empty string for an unset
  variable), which paths can be stat'ed, the loading of a key pair, the reading of a file, and
  the parsing of PEM certificates into a pool.
\<close>

record config =
  Port :: gostring
  RequireMTLS :: bool
  ServerCert :: gostring
  ServerKey :: gostring
  RootCACert :: gostring
  DBDriver :: gostring
  DBDSN :: gostring
  WebhookURL :: gostring

record ('kp, 'pool) host =
  os_Getenv :: "gostring \<Rightarrow> gostring"
  os_Stat :: "gostring \<Rightarrow> bool"
  LoadX509KeyPair :: "gostring \<Rightarrow> gostring \<Rightarrow> 'kp outcome"
  os_ReadFile :: "gostring \<Rightarrow> u8 list outcome"
  AppendCertsFromPEM :: "u8 list \<Rightarrow> 'pool option"

datatype client_auth = NoClientCert | RequireAndVerifyClientCert

record ('kp, 'pool) tls_config =
  Certificates :: "'kp list"
  ClientCAs :: 'pool
  ClientAuth :: client_auth
  MinVersion :: nat

definition getEnv :: "('kp, 'pool) host \<Rightarrow> gostring \<Rightarrow> gostring \<Rightarrow> gostring" where
  "getEnv os key defaultVal = (let val = os_Getenv os key in if val \<noteq> [] then val else defaultVal)"

definition findCertPath :: "('kp, 'pool) host \<Rightarrow> gostring list \<Rightarrow> gostring" where
  "findCertPath os paths =
     (case find (os_Stat os) paths of
        Some p \<Rightarrow> p
      | None \<Rightarrow> (case paths of p # _ \<Rightarrow> p | [] \<Rightarrow> []))"

definition LoadConfig :: "('kp, 'pool) host \<Rightarrow> config" where
  "LoadConfig os =
     (let serverCert = getEnv os ''SERVER_CERT'' (findCertPath os
            [''../tools/certs/out/server.crt'', ''certs/server.crt'', ''tools/certs/out/server.crt'']);
          serverKey = getEnv os ''SERVER_KEY'' (findCertPath os
            [''../tools/certs/out/server.key'', ''certs/server.key'', ''tools/certs/out/server.key'']);
          rootCACert = getEnv os ''ROOT_CA_CERT'' (findCertPath os
            [''../tools/certs/out/ca.crt'', ''certs/ca.crt'', ''tools/certs/out/ca.crt''])
      in \<lparr>Port = getEnv os ''PORT'' ''8443'',
          RequireMTLS = (getEnv os ''REQUIRE_MTLS'' ''true'' = ''true''),
          ServerCert = serverCert, ServerKey = serverKey, RootCACert = rootCACert,
          DBDriver = getEnv os ''DB_DRIVER'' ''sqlite'',
          DBDSN = getEnv os ''DB_DSN'' ''iot_platform.db'',
          WebhookURL = getEnv os ''WEBHOOK_URL'' []\<rparr>)"

text \<open>\<^verbatim>\<open>tls.VersionTLS12\<close> is \<open>0x0303\<close>.\<close>

definition BuildTLSConfig :: "('kp, 'pool) host \<Rightarrow> config \<Rightarrow> ('kp, 'pool) tls_config outcome" where
  "BuildTLSConfig os c =
     (case LoadX509KeyPair os (ServerCert c) (ServerKey c) of
        Panic \<Rightarrow> Panic
      | Err e \<Rightarrow> Err (OtherError (''failed to load server keypair: '' @ error_text e))
      | Ok cert \<Rightarrow>
          (case os_ReadFile os (RootCACert c) of
             Panic \<Rightarrow> Panic
           | Err e \<Rightarrow> Err (OtherError (''failed to read root CA cert: '' @ error_text e))
           | Ok caCertPEM \<Rightarrow>
               (case AppendCertsFromPEM os caCertPEM of
                  None \<Rightarrow> Err (OtherError ''failed to parse root CA cert into pool'')
                | Some caPool \<Rightarrow>
                    let clientAuth = (if RequireMTLS c then RequireAndVerifyClientCert else NoClientCert)
                    in Ok \<lparr>Certificates = [cert], ClientCAs = caPool, ClientAuth = clientAuth,
                           MinVersion = 0x0303\<rparr>)))"

end
