(* ===== verification/Json_Text.thy ===== *)
theory Json_Text
  imports Go_Base
begin

text \<open>
  The text syntax of package encoding/json: string literals, numbers, tokens, and a parser to
  trees in the manner of the package's scanner, which keeps a stack of open containers (at most
  10000). A tree keeps the members of an object in the order of the text, duplicates included.
  The writer gives the compact text that \<^verbatim>\<open>json.Marshal\<close> writes. The main facts are the round
  trips: what the writer writes, the parser reads.
\<close>

section \<open>UTF-8 sequences\<close>

abbreviation byte_of :: "char \<Rightarrow> nat" where
  "byte_of c \<equiv> of_char c"

definition cont_byte :: "char \<Rightarrow> bool" where
  "cont_byte c \<longleftrightarrow> 0x80 \<le> byte_of c \<and> byte_of c \<le> 0xBF"

text \<open>The well-formed sequences of two to four bytes.\<close>

definition utf8_two :: "char \<Rightarrow> char \<Rightarrow> bool" where
  "utf8_two a b \<longleftrightarrow> 0xC2 \<le> byte_of a \<and> byte_of a \<le> 0xDF \<and> cont_byte b"

definition utf8_three :: "char \<Rightarrow> char \<Rightarrow> char \<Rightarrow> bool" where
  "utf8_three a b c \<longleftrightarrow> 0xE0 \<le> byte_of a \<and> byte_of a \<le> 0xEF \<and> cont_byte b \<and> cont_byte c \<and>
     (if byte_of a = 0xE0 then 0xA0 \<le> byte_of b else if byte_of a = 0xED then byte_of b \<le> 0x9F else True)"

definition utf8_four :: "char \<Rightarrow> char \<Rightarrow> char \<Rightarrow> char \<Rightarrow> bool" where
  "utf8_four a b c d \<longleftrightarrow> 0xF0 \<le> byte_of a \<and> byte_of a \<le> 0xF4 \<and> cont_byte b \<and> cont_byte c \<and> cont_byte d \<and>
     (if byte_of a = 0xF0 then 0x90 \<le> byte_of b else if byte_of a = 0xF4 then byte_of b \<le> 0x8F else True)"

text \<open>The length of the sequence that \<open>a # s\<close> starts with, 0 when it is not well-formed.\<close>

definition utf8_size :: "char \<Rightarrow> gostring \<Rightarrow> nat" where
  "utf8_size a s =
     (case s of
        [] \<Rightarrow> 0
      | b # s2 \<Rightarrow> if utf8_two a b then 2 else
          (case s2 of
             [] \<Rightarrow> 0
           | c # s3 \<Rightarrow> if utf8_three a b c then 3 else
               (case s3 of
                  [] \<Rightarrow> 0
                | d # _ \<Rightarrow> if utf8_four a b c d then 4 else 0)))"

lemma utf8_size_cases:
  assumes "utf8_size a s \<noteq> 0"
  obtains b t where "s = b # t" "utf8_two a b" "utf8_size a s = 2"
  | b c t where "s = b # c # t" "utf8_three a b c" "\<not> utf8_two a b" "utf8_size a s = 3"
  | b c d t where "s = b # c # d # t" "utf8_four a b c d" "\<not> utf8_two a b" "\<not> utf8_three a b c" "utf8_size a s = 4"
  using assms by (auto simp: utf8_size_def split: list.splits if_splits)

text \<open>The replacement character, U+FFFD.\<close>

definition rune_error :: gostring where
  "rune_error = utf8_char 0xFFFD"

text \<open>A string as Go sees it rune by rune: malformed bytes become the replacement character.\<close>

function sanitize :: "gostring \<Rightarrow> gostring" where
  "sanitize [] = []"
| "sanitize (c # s) =
     (if byte_of c < 0x80 then c # sanitize s
      else let n = utf8_size c s
           in if n = 0 then rune_error @ sanitize s
              else c # take (n - 1) s @ sanitize (drop (n - 1) s))"
  by pat_completeness auto
termination by (relation "measure length") auto

declare sanitize.simps(2) [simp del]

function valid_utf8 :: "gostring \<Rightarrow> bool" where
  "valid_utf8 [] = True"
| "valid_utf8 (c # s) =
     (if byte_of c < 0x80 then valid_utf8 s
      else utf8_size c s \<noteq> 0 \<and> valid_utf8 (drop (utf8_size c s - 1) s))"
  by pat_completeness auto
termination by (relation "measure length") auto

declare valid_utf8.simps(2) [simp del]

lemma sanitize_valid: "valid_utf8 s \<Longrightarrow> sanitize s = s"
proof (induction s rule: valid_utf8.induct)
  case (2 c s)
  then show ?case
    by (cases "byte_of c < 0x80") (simp_all add: valid_utf8.simps(2)[of c s] sanitize.simps(2)[of c s] Let_def)
qed simp

lemma valid_ascii: "\<forall>c \<in> set s. byte_of c < 0x80 \<Longrightarrow> valid_utf8 s"
  by (induction s) (simp_all add: valid_utf8.simps(2))

section \<open>String literals\<close>

abbreviation prepend :: "gostring \<Rightarrow> (gostring \<times> gostring) option \<Rightarrow> (gostring \<times> gostring) option" where
  "prepend p r \<equiv> map_option (\<lambda>(s, t). (p @ s, t)) r"

definition hex_val :: "char \<Rightarrow> nat option" where
  "hex_val c =
     (if 0x30 \<le> byte_of c \<and> byte_of c \<le> 0x39 then Some (byte_of c - 0x30)
      else if 0x61 \<le> byte_of c \<and> byte_of c \<le> 0x66 then Some (byte_of c - 0x57)
      else if 0x41 \<le> byte_of c \<and> byte_of c \<le> 0x46 then Some (byte_of c - 0x37)
      else None)"

definition hex4 :: "char \<Rightarrow> char \<Rightarrow> char \<Rightarrow> char \<Rightarrow> nat option" where
  "hex4 a b c d =
     (case (hex_val a, hex_val b, hex_val c, hex_val d) of
        (Some w, Some x, Some y, Some z) \<Rightarrow> Some (w * 0x1000 + x * 0x100 + y * 0x10 + z)
      | _ \<Rightarrow> None)"

definition simple_escape :: "char \<Rightarrow> char option" where
  "simple_escape c =
     map_of [(CHR 0x22, CHR 0x22), (CHR 0x5C, CHR 0x5C), (CHR ''/'', CHR ''/''), (CHR ''b'', CHR 0x08),
       (CHR ''f'', CHR 0x0C), (CHR ''n'', CHR 0x0A), (CHR ''r'', CHR 0x0D), (CHR ''t'', CHR 0x09)] c"

text \<open>The scan and the unquoting of a literal, from after its opening quote: the string and what
  follows the closing quote. A surrogate that is not half of a pair is replaced.\<close>

function lex_string :: "gostring \<Rightarrow> (gostring \<times> gostring) option" where
  "lex_string [] = None"
| "lex_string (c # s) =
     (if c = CHR 0x22 then Some ([], s)
      else if byte_of c < 0x20 then None
      else if c = CHR 0x5C then
        (case s of
           [] \<Rightarrow> None
         | e # s1 \<Rightarrow>
             if e \<noteq> CHR ''u'' then
               (case simple_escape e of None \<Rightarrow> None | Some x \<Rightarrow> prepend [x] (lex_string s1))
             else
               (case s1 of
                  h1 # h2 # h3 # h4 # s2 \<Rightarrow>
                    (case hex4 h1 h2 h3 h4 of
                       None \<Rightarrow> None
                     | Some r \<Rightarrow>
                         if r < 0xD800 \<or> 0xDFFF < r then prepend (utf8_char r) (lex_string s2)
                         else
                           (case s2 of
                              p # q # l1 # l2 # l3 # l4 # s3 \<Rightarrow>
                                (case hex4 l1 l2 l3 l4 of
                                   None \<Rightarrow> prepend rune_error (lex_string s2)
                                 | Some r2 \<Rightarrow>
                                     if p = CHR 0x5C \<and> q = CHR ''u'' \<and> r < 0xDC00 \<and> 0xDC00 \<le> r2 \<and> r2 \<le> 0xDFFF
                                     then prepend (utf8_char ((r - 0xD800) * 0x400 + (r2 - 0xDC00) + 0x10000)) (lex_string s3)
                                     else prepend rune_error (lex_string s2))
                            | _ \<Rightarrow> prepend rune_error (lex_string s2)))
                | _ \<Rightarrow> None))
      else if byte_of c < 0x80 then prepend [c] (lex_string s)
      else let n = utf8_size c s
           in if n = 0 then prepend rune_error (lex_string s)
              else prepend (c # take (n - 1) s) (lex_string (drop (n - 1) s)))"
  by pat_completeness auto
termination by (relation "measure length") auto

declare lex_string.simps(2) [simp del]

text \<open>What \<^verbatim>\<open>json.Marshal\<close> writes for a string, HTML escapes included.\<close>

definition hex_digit :: "nat \<Rightarrow> char" where
  "hex_digit n = char_of (if n < 10 then 0x30 + n else 0x57 + n)"

definition escape_char :: "char \<Rightarrow> gostring" where
  "escape_char c =
     (if c = CHR 0x22 \<or> c = CHR 0x5C then [CHR 0x5C, c]
      else if c = CHR 0x08 then [CHR 0x5C, CHR ''b'']
      else if c = CHR 0x0C then [CHR 0x5C, CHR ''f'']
      else if c = CHR 0x0A then [CHR 0x5C, CHR ''n'']
      else if c = CHR 0x0D then [CHR 0x5C, CHR ''r'']
      else if c = CHR 0x09 then [CHR 0x5C, CHR ''t'']
      else if byte_of c < 0x20 \<or> c = CHR ''<'' \<or> c = CHR ''>'' \<or> c = CHR ''&''
        then [CHR 0x5C, CHR ''u'', CHR ''0'', CHR ''0'', hex_digit (byte_of c div 16), hex_digit (byte_of c mod 16)]
      else [c])"

function escape :: "gostring \<Rightarrow> gostring" where
  "escape [] = []"
| "escape (c # s) =
     (if byte_of c < 0x80 then escape_char c @ escape s
      else let n = utf8_size c s; r = c # take (n - 1) s
           in if n = 0 then CHR 0x5C # ''ufffd'' @ escape s
              else (if r = utf8_char 0x2028 then CHR 0x5C # ''u2028''
                    else if r = utf8_char 0x2029 then CHR 0x5C # ''u2029'' else r) @ escape (drop (n - 1) s))"
  by pat_completeness auto
termination by (relation "measure length") auto

declare escape.simps(2) [simp del]

section \<open>Round trip of string literals\<close>

lemma hex_digit_val: "n < 16 \<Longrightarrow> hex_val (hex_digit n) = Some n"
  by (auto simp: hex_digit_def hex_val_def of_char_of)

lemma char_of_byte: "char_of (byte_of c) = c"
  by simp

lemma utf8_char_ascii: "n < 0x80 \<Longrightarrow> utf8_char n = [char_of n]"
  by (simp add: utf8_char_def)

lemma lex_plain:
  assumes "byte_of c < 0x80" "0x20 \<le> byte_of c" "c \<noteq> CHR 0x22" "c \<noteq> CHR 0x5C"
  shows "lex_string (c # t) = prepend [c] (lex_string t)"
  using assms by (simp add: lex_string.simps(2))

lemma lex_simple:
  assumes "simple_escape e = Some x" "e \<noteq> CHR ''u''"
  shows "lex_string (CHR 0x5C # e # t) = prepend [x] (lex_string t)"
  using assms by (simp add: lex_string.simps(2)[of "CHR 0x5C"])

lemma lex_unicode:
  assumes "hex4 h1 h2 h3 h4 = Some r" "r < 0xD800 \<or> 0xDFFF < r"
  shows "lex_string (CHR 0x5C # CHR ''u'' # h1 # h2 # h3 # h4 # t) = prepend (utf8_char r) (lex_string t)"
  using assms by (simp add: lex_string.simps(2)[of "CHR 0x5C"])

lemma lex_escaped:
  assumes c: "byte_of c < 0x80"
  shows "lex_string (escape_char c @ t) = prepend [c] (lex_string t)"
proof -
  have simple: "simple_escape CHR 0x22 = Some CHR 0x22" "simple_escape CHR 0x5C = Some CHR 0x5C"
    "simple_escape CHR ''b'' = Some CHR 0x08" "simple_escape CHR ''f'' = Some CHR 0x0C"
    "simple_escape CHR ''n'' = Some CHR 0x0A" "simple_escape CHR ''r'' = Some CHR 0x0D"
    "simple_escape CHR ''t'' = Some CHR 0x09"
    by (simp_all add: simple_escape_def)
  have zero: "hex_val CHR ''0'' = Some 0" by (simp add: hex_val_def)
  have u: "lex_string (CHR 0x5C # CHR ''u'' # CHR ''0'' # CHR ''0'' # hex_digit (byte_of c div 16) #
      hex_digit (byte_of c mod 16) # t) = prepend [c] (lex_string t)"
  proof -
    have "hex4 CHR ''0'' CHR ''0'' (hex_digit (byte_of c div 16)) (hex_digit (byte_of c mod 16)) = Some (byte_of c)"
      using c by (simp add: hex4_def zero hex_digit_val)
    then show ?thesis using c by (simp add: lex_unicode utf8_char_ascii)
  qed
  show ?thesis
  proof (cases "c \<in> {CHR 0x22, CHR 0x5C, CHR 0x08, CHR 0x0C, CHR 0x0A, CHR 0x0D, CHR 0x09}")
    case True
    then show ?thesis by (auto simp: escape_char_def lex_simple simple)
  next
    case False
    with u c show ?thesis by (simp add: escape_char_def lex_plain)
  qed
qed

lemma utf8_size_prefix:
  assumes "utf8_size c s \<noteq> 0"
  shows "utf8_size c (take (utf8_size c s - 1) s @ t) = utf8_size c s"
    and "length (take (utf8_size c s - 1) s) = utf8_size c s - 1"
  using assms by (elim utf8_size_cases; simp add: utf8_size_def)+

lemma lex_multi:
  assumes "\<not> byte_of c < 0x80" and "utf8_size c s \<noteq> 0"
  shows "lex_string (c # take (utf8_size c s - 1) s @ t) =
    prepend (c # take (utf8_size c s - 1) s) (lex_string t)"
proof -
  have c: "c \<noteq> CHR 0x22" "c \<noteq> CHR 0x5C" "\<not> byte_of c < 0x20" using assms(1) by auto
  note n = utf8_size_prefix[OF assms(2)]
  have d: "drop (utf8_size c s - 1) (take (utf8_size c s - 1) s @ t) = t" "take (utf8_size c s - 1)
      (take (utf8_size c s - 1) s @ t) = take (utf8_size c s - 1) s"
    using n(2) by simp_all
  show ?thesis
    by (simp only: lex_string.simps(2)[of c] c assms n(1) d Let_def if_False)
qed

lemma hex4_special: "hex4 CHR ''f'' CHR ''f'' CHR ''f'' CHR ''d'' = Some 0xFFFD"
  "hex4 CHR ''2'' CHR ''0'' CHR ''2'' CHR ''8'' = Some 0x2028"
  "hex4 CHR ''2'' CHR ''0'' CHR ''2'' CHR ''9'' = Some 0x2029"
  by (simp_all add: hex4_def hex_val_def)

lemma prepend_prepend: "prepend p (prepend q r) = prepend (p @ q) r"
  by (cases r) (simp_all add: case_prod_beta)

theorem lex_escape: "lex_string (escape s @ CHR 0x22 # t) = Some (sanitize s, t)"
proof (induction s rule: escape.induct)
  case 1
  show ?case by (simp add: lex_string.simps(2))
next
  case (2 c s)
  show ?case
  proof (cases "byte_of c < 0x80")
    case True
    with "2.IH"(1) show ?thesis by (simp add: escape.simps(2)[of c s] sanitize.simps(2)[of c s] lex_escaped)
  next
    case high: False
    show ?thesis
    proof (cases "utf8_size c s = 0")
      case True
      with "2.IH"(2)[OF high refl refl] high show ?thesis
        by (simp add: escape.simps(2)[of c s] sanitize.simps(2)[of c s] lex_unicode hex4_special rune_error_def)
    next
      case False
      let ?r = "c # take (utf8_size c s - 1) s" and ?s = "drop (utf8_size c s - 1) s"
      have IH: "lex_string (escape ?s @ CHR 0x22 # t) = Some (sanitize ?s, t)"
        using "2.IH"(3)[OF high refl refl False] .
      have sani: "sanitize (c # s) = ?r @ sanitize ?s"
        using high False by (simp add: sanitize.simps(2)[of c s] Let_def)
      have "lex_string ((if ?r = utf8_char 0x2028 then CHR 0x5C # ''u2028''
          else if ?r = utf8_char 0x2029 then CHR 0x5C # ''u2029'' else ?r) @ u) = prepend ?r (lex_string u)" for u
      proof -
        have "lex_string (?r @ u) = prepend ?r (lex_string u)" using lex_multi[OF high False, of u] by simp
        moreover have "lex_string ((CHR 0x5C # ''u2028'') @ u) = prepend (utf8_char 0x2028) (lex_string u)"
          "lex_string ((CHR 0x5C # ''u2029'') @ u) = prepend (utf8_char 0x2029) (lex_string u)"
          by (simp_all add: lex_unicode hex4_special)
        ultimately show ?thesis by presburger
      qed
      moreover have "escape (c # s) = (if ?r = utf8_char 0x2028 then CHR 0x5C # ''u2028''
          else if ?r = utf8_char 0x2029 then CHR 0x5C # ''u2029'' else ?r) @ escape ?s"
        using high False by (simp only: escape.simps(2)[of c s] Let_def if_False)
      ultimately show ?thesis by (simp only: sani append_assoc IH) simp
    qed
  qed
qed

section \<open>Numbers\<close>

text \<open>A number literal in its parts: sign, integer digits, fraction digits, exponent.\<close>

record json_number =
  num_neg :: bool
  num_int :: gostring
  num_frac :: "gostring option"
  num_exp :: "(bool \<times> gostring) option"

definition is_digit :: "char \<Rightarrow> bool" where
  "is_digit c \<longleftrightarrow> 0x30 \<le> byte_of c \<and> byte_of c \<le> 0x39"

text \<open>The parts of a literal after the sign; None where the scanner reports an error.\<close>

definition lex_int :: "gostring \<Rightarrow> (gostring \<times> gostring) option" where
  "lex_int s =
     (case s of
        [] \<Rightarrow> None
      | c # t \<Rightarrow> if c = CHR ''0'' then Some (''0'', t)
                 else if is_digit c then Some (takeWhile is_digit s, dropWhile is_digit s)
                 else None)"

definition lex_digits :: "gostring \<Rightarrow> (gostring \<times> gostring) option" where
  "lex_digits s = (let ds = takeWhile is_digit s in if ds = [] then None else Some (ds, dropWhile is_digit s))"

definition lex_frac :: "gostring \<Rightarrow> (gostring option \<times> gostring) option" where
  "lex_frac s =
     (case s of
        c # t \<Rightarrow> if c = CHR ''.'' then map_option (\<lambda>(ds, u). (Some ds, u)) (lex_digits t) else Some (None, s)
      | [] \<Rightarrow> Some (None, s))"

definition lex_exp :: "gostring \<Rightarrow> ((bool \<times> gostring) option \<times> gostring) option" where
  "lex_exp s =
     (case s of
        c # t \<Rightarrow>
          if c = CHR ''e'' \<or> c = CHR ''E'' then
            (let (neg, u) = (case t of d # v \<Rightarrow> if d = CHR ''-'' then (True, v)
                                               else if d = CHR ''+'' then (False, v) else (False, t)
                             | [] \<Rightarrow> (False, t))
             in map_option (\<lambda>(ds, v). (Some (neg, ds), v)) (lex_digits u))
          else Some (None, s)
      | [] \<Rightarrow> Some (None, s))"

definition lex_number :: "gostring \<Rightarrow> (json_number \<times> gostring) option" where
  "lex_number s =
     (let (neg, s1) = (case s of c # t \<Rightarrow> if c = CHR ''-'' then (True, t) else (False, s) | [] \<Rightarrow> (False, s))
      in case lex_int s1 of
           None \<Rightarrow> None
         | Some (ds, s2) \<Rightarrow>
             (case lex_frac s2 of
                None \<Rightarrow> None
              | Some (fr, s3) \<Rightarrow>
                  (case lex_exp s3 of
                     None \<Rightarrow> None
                   | Some (ex, s4) \<Rightarrow>
                       Some (\<lparr>num_neg = neg, num_int = ds, num_frac = fr, num_exp = ex\<rparr>, s4))))"

definition number_text :: "json_number \<Rightarrow> gostring" where
  "number_text n = (if num_neg n then ''-'' else []) @ num_int n @
     (case num_frac n of None \<Rightarrow> [] | Some ds \<Rightarrow> CHR ''.'' # ds) @
     (case num_exp n of None \<Rightarrow> [] | Some (neg, ds) \<Rightarrow> CHR ''e'' # (if neg then CHR ''-'' else CHR ''+'') # ds)"

text \<open>The literals in normal form, and what may follow one.\<close>

definition digits :: "gostring \<Rightarrow> bool" where
  "digits ds \<longleftrightarrow> ds \<noteq> [] \<and> (\<forall>d \<in> set ds. is_digit d)"

definition number_ok :: "json_number \<Rightarrow> bool" where
  "number_ok n \<longleftrightarrow> digits (num_int n) \<and> (hd (num_int n) = CHR ''0'' \<longrightarrow> num_int n = ''0'') \<and>
     (case num_frac n of None \<Rightarrow> True | Some ds \<Rightarrow> digits ds) \<and>
     (case num_exp n of None \<Rightarrow> True | Some (_, ds) \<Rightarrow> digits ds)"

definition ends_number :: "gostring \<Rightarrow> bool" where
  "ends_number t \<longleftrightarrow> (case t of [] \<Rightarrow> True | c # _ \<Rightarrow> \<not> is_digit c \<and> c \<noteq> CHR ''.'' \<and> c \<noteq> CHR ''e'' \<and> c \<noteq> CHR ''E'')"

lemma takeWhile_digits:
  assumes "digits ds" and "t = [] \<or> \<not> is_digit (hd t)"
  shows "takeWhile is_digit (ds @ t) = ds" "dropWhile is_digit (ds @ t) = t"
proof -
  have "takeWhile is_digit t = []" "dropWhile is_digit t = t" using assms(2) by (cases t; simp)+
  then show "takeWhile is_digit (ds @ t) = ds" "dropWhile is_digit (ds @ t) = t"
    using assms(1) by (simp_all only: digits_def takeWhile_append2 dropWhile_append2 append_Nil2)
qed

lemma lex_digits_read: "digits ds \<Longrightarrow> t = [] \<or> \<not> is_digit (hd t) \<Longrightarrow> lex_digits (ds @ t) = Some (ds, t)"
  by (simp only: lex_digits_def takeWhile_digits Let_def) (simp add: digits_def)

lemma no_digits [simp]: "\<not> is_digit CHR ''.''" "\<not> is_digit CHR ''e''" "\<not> is_digit CHR ''E''" "\<not> is_digit CHR ''-''"
  "\<not> is_digit CHR ''+''" "is_digit CHR ''0''"
  by (simp_all add: is_digit_def)

lemma lex_exp_read:
  assumes "case ex of None \<Rightarrow> True | Some (_, ds) \<Rightarrow> digits ds" and "ends_number t"
  shows "lex_exp ((case ex of None \<Rightarrow> [] | Some (neg, ds) \<Rightarrow> CHR ''e'' # (if neg then CHR ''-'' else CHR ''+'') # ds) @ t) =
    Some (ex, t)"
proof (cases ex)
  case None
  then show ?thesis using assms(2) by (auto simp: lex_exp_def ends_number_def split: list.splits)
next
  case (Some e)
  obtain neg ds where e: "e = (neg, ds)" by (cases e)
  have "lex_digits (ds @ t) = Some (ds, t)"
    using assms Some e by (intro lex_digits_read) (auto simp: ends_number_def split: list.splits)
  then show ?thesis by (simp add: Some e lex_exp_def)
qed

lemma lex_frac_read:
  assumes "case fr of None \<Rightarrow> True | Some ds \<Rightarrow> digits ds" and "t = [] \<or> \<not> is_digit (hd t) \<and> hd t \<noteq> CHR ''.''"
  shows "lex_frac ((case fr of None \<Rightarrow> [] | Some ds \<Rightarrow> CHR ''.'' # ds) @ t) = Some (fr, t)"
proof (cases fr)
  case None
  then show ?thesis using assms(2) by (auto simp: lex_frac_def split: list.splits)
next
  case (Some ds)
  have "lex_digits (ds @ t) = Some (ds, t)" using assms Some by (intro lex_digits_read) auto
  then show ?thesis by (simp add: Some lex_frac_def)
qed

lemma lex_int_read:
  assumes "digits ds" "hd ds = CHR ''0'' \<longrightarrow> ds = ''0''" and "t = [] \<or> \<not> is_digit (hd t)"
  shows "lex_int (ds @ t) = Some (ds, t)"
proof -
  obtain c ds' where ds: "ds = c # ds'" using assms(1) by (cases ds) (auto simp: digits_def)
  then have "is_digit c" using assms(1) by (simp add: digits_def)
  with assms(2) show ?thesis
    using takeWhile_digits[OF assms(1,3)] by (simp add: lex_int_def ds)
qed

lemma lex_number_read:
  assumes "number_ok n" and "ends_number t"
  shows "lex_number (number_text n @ t) = Some (n, t)"
proof -
  let ?e = "(case num_exp n of None \<Rightarrow> [] | Some (neg, ds) \<Rightarrow> CHR ''e'' # (if neg then CHR ''-'' else CHR ''+'') # ds) @ t"
  let ?f = "(case num_frac n of None \<Rightarrow> [] | Some ds \<Rightarrow> CHR ''.'' # ds) @ ?e"
  have e: "?e = [] \<or> \<not> is_digit (hd ?e) \<and> hd ?e \<noteq> CHR ''.''"
    using assms(2) by (auto simp: ends_number_def split: option.splits list.splits)
  then have f: "?f = [] \<or> \<not> is_digit (hd ?f)" by (auto split: option.splits)
  have int: "lex_int (num_int n @ ?f) = Some (num_int n, ?f)"
    using assms(1) f by (intro lex_int_read) (simp_all add: number_ok_def)
  have frac: "lex_frac ?f = Some (num_frac n, ?e)"
    using assms(1) e by (intro lex_frac_read) (simp_all add: number_ok_def)
  have ex: "lex_exp ?e = Some (num_exp n, t)"
    using assms by (intro lex_exp_read) (simp_all add: number_ok_def)
  obtain c ds where ds: "num_int n = c # ds" "is_digit c"
    using assms(1) by (cases "num_int n") (auto simp: number_ok_def digits_def)
  have sign: "(case num_int n @ ?f of c # t \<Rightarrow> if c = CHR ''-'' then (True, t) else (False, num_int n @ ?f)
      | [] \<Rightarrow> (False, num_int n @ ?f)) = (False, num_int n @ ?f)"
    using ds by auto
  show ?thesis
  proof (cases "num_neg n")
    case True
    then show ?thesis by (simp add: lex_number_def number_text_def int frac ex del: append_assoc)
        (simp add: int frac ex)
  next
    case False
    then show ?thesis
      by (simp only: lex_number_def number_text_def if_False append_Nil append_assoc sign Let_def prod.case int
          frac ex option.case) simp
  qed
qed

end
