(* ===== verification/Json_Parser.thy ===== *)
theory Json_Parser
  imports Json_Text
begin

text \<open>
  Tokens, trees, and the parser with its stack of open containers. The lexer stops at the first
  malformed token; the parser stops after the first value, and leaves the rest to its caller:
  \<^verbatim>\<open>json.Unmarshal\<close> requires that nothing follows, a \<^verbatim>\<open>json.Decoder\<close> ignores it.
\<close>

datatype json_tree =
    TNull
  | TBool bool
  | TNum json_number
  | TStr gostring
  | TArr "json_tree list"
  | TObj "(gostring \<times> json_tree) list"

datatype token = LBrace | RBrace | LBracket | RBracket | Comma | Colon | Literal json_tree | Malformed

section \<open>The lexer\<close>

definition is_space :: "char \<Rightarrow> bool" where
  "is_space c \<longleftrightarrow> c = CHR '' '' \<or> c = CHR 0x09 \<or> c = CHR 0x0A \<or> c = CHR 0x0D"

definition punctuation :: "char \<Rightarrow> token option" where
  "punctuation c =
     (if c = CHR 0x7B then Some LBrace else if c = CHR 0x7D then Some RBrace
      else if c = CHR 0x5B then Some LBracket else if c = CHR 0x5D then Some RBracket
      else if c = CHR '','' then Some Comma else if c = CHR '':'' then Some Colon else None)"

text \<open>The literals that a character can start, with what follows them.\<close>

definition lex_literal :: "char \<Rightarrow> gostring \<Rightarrow> (json_tree \<times> gostring) option" where
  "lex_literal c s =
     (if c = CHR 0x22 then map_option (\<lambda>(str, t). (TStr str, t)) (lex_string s)
      else if c = CHR ''-'' \<or> is_digit c then map_option (\<lambda>(n, t). (TNum n, t)) (lex_number (c # s))
      else if c # take 3 s = ''true'' then Some (TBool True, drop 3 s)
      else if c # take 4 s = ''false'' then Some (TBool False, drop 4 s)
      else if c # take 3 s = ''null'' then Some (TNull, drop 3 s)
      else None)"

text \<open>A lexer leaves less than it was given.\<close>

definition shorter :: "nat \<Rightarrow> ('a \<times> gostring) option \<Rightarrow> bool" where
  "shorter n r \<longleftrightarrow> (case r of None \<Rightarrow> True | Some (_, t) \<Rightarrow> length t < n)"

lemma shorter_simps [simp]:
  "shorter n None" "shorter n (Some (x, t)) \<longleftrightarrow> length t < n"
  "shorter n (map_option (\<lambda>(x, t). (f x, t)) r) \<longleftrightarrow> shorter n r"
  by (auto simp: shorter_def split: option.splits)

lemma shorter_mono: "shorter m r \<Longrightarrow> m \<le> n \<Longrightarrow> shorter n r"
  by (auto simp: shorter_def split: option.splits)

lemma lex_string_shorter: "shorter (length s) (lex_string s)"
proof (induction s rule: length_induct)
  case (1 s)
  show ?case
  proof (cases s)
    case (Cons c s')
    define n where "n = Suc (length s')"
    have IH: "shorter n (lex_string u)" if "length u < n" for u
      using "1.IH"[rule_format, of u] that by (auto simp: Cons n_def intro: shorter_mono)
    have len: "length s' < n" by (simp add: n_def)
    then have "shorter n (lex_string (c # s'))"
      unfolding lex_string.simps(2) by (auto simp: IH Let_def split: list.splits option.splits)
    then show ?thesis by (simp add: Cons n_def)
  qed simp
qed

lemma dropWhile_le: "length (dropWhile P s) \<le> length s"
  by (rule length_dropWhile_le)

lemma lex_digits_le: "lex_digits s = Some (ds, t) \<Longrightarrow> length t \<le> length s"
  by (auto simp: lex_digits_def Let_def dropWhile_le split: if_splits)

lemma lex_number_shorter: "shorter (length s) (lex_number s)"
proof -
  have int: "lex_int u = Some (ds, t) \<Longrightarrow> length t < length u" for u ds t
    by (cases u) (auto simp: lex_int_def dropWhile_le less_Suc_eq_le split: if_splits)
  have frac: "lex_frac u = Some (fr, t) \<Longrightarrow> length t \<le> length u" for u fr t
    using lex_digits_le by (cases u) (fastforce simp: lex_frac_def split: if_splits)+
  have ex: "lex_exp u = Some (e, t) \<Longrightarrow> length t \<le> length u" for u e t
    using lex_digits_le
    by (cases u) (fastforce simp: lex_exp_def split: if_splits list.splits)+
  let ?sp = "case s of c # t \<Rightarrow> if c = CHR ''-'' then (True, t) else (False, s) | [] \<Rightarrow> (False, s)"
  obtain neg s1 where sp: "?sp = (neg, s1)" by (cases ?sp)
  have "length (snd ?sp) \<le> length s" by (cases s) auto
  then have le: "length s1 \<le> length s" by (simp only: sp snd_conv)
  show ?thesis
  proof (cases "lex_number s")
    case (Some r)
    then obtain ds s2 fr s3 e s4 where "lex_int s1 = Some (ds, s2)" "lex_frac s2 = Some (fr, s3)"
      "lex_exp s3 = Some (e, s4)" "snd r = s4"
      by (simp add: lex_number_def sp split: option.splits prod.splits) (metis snd_conv)
    with int frac ex le have "length (snd r) < length s" by (meson le_less_trans less_le_trans order_trans)
    with Some show ?thesis by (cases r) simp
  qed simp
qed

lemma lex_literal_shorter: "shorter (Suc (length s)) (lex_literal c s)"
  using lex_string_shorter[of s] lex_number_shorter[of "c # s"]
  by (auto simp: lex_literal_def intro: shorter_mono)

function lex :: "gostring \<Rightarrow> token list" where
  "lex [] = []"
| "lex (c # s) =
     (if is_space c then lex s
      else case punctuation c of
             Some t \<Rightarrow> t # lex s
           | None \<Rightarrow>
               (case lex_literal c s of
                  None \<Rightarrow> [Malformed]
                | Some (v, t) \<Rightarrow> Literal v # lex t))"
  by pat_completeness auto
termination
proof (relation "measure length")
  fix c :: char and s :: gostring and r v t
  assume "lex_literal c s = Some r" "(v, t) = r"
  then show "(t, c # s) \<in> measure length" using lex_literal_shorter[of s c] by auto
qed auto

declare lex.simps(2) [simp del]

section \<open>The parser\<close>

text \<open>An open container: the elements or members so far, in reverse, and the key of the member
  whose value is being read.\<close>

datatype frame = InArray "json_tree list" | InObject "(gostring \<times> json_tree) list" gostring

datatype expecting = Value | ValueOrEnd | Key | KeyOrEnd | AfterKey | AfterValue

datatype progress = Continue expecting "frame list" | Finished json_tree | Failed

definition max_nesting :: nat where
  "max_nesting = 10000"

text \<open>A value is complete.\<close>

definition complete :: "json_tree \<Rightarrow> frame list \<Rightarrow> progress" where
  "complete v fs =
     (case fs of
        [] \<Rightarrow> Finished v
      | InArray vs # fs' \<Rightarrow> Continue AfterValue (InArray (v # vs) # fs')
      | InObject kvs k # fs' \<Rightarrow> Continue AfterValue (InObject ((k, v) # kvs) k # fs'))"

definition open_frame :: "expecting \<Rightarrow> frame \<Rightarrow> frame list \<Rightarrow> progress" where
  "open_frame e f fs = (if max_nesting \<le> length fs then Failed else Continue e (f # fs))"

definition token_step :: "expecting \<Rightarrow> frame list \<Rightarrow> token \<Rightarrow> progress" where
  "token_step e fs t =
     (case e of
        AfterKey \<Rightarrow> (if t = Colon then Continue Value fs else Failed)
      | AfterValue \<Rightarrow>
          (case (fs, t) of
             (InArray vs # fs', Comma) \<Rightarrow> Continue Value fs
           | (InArray vs # fs', RBracket) \<Rightarrow> complete (TArr (rev vs)) fs'
           | (InObject kvs k # fs', Comma) \<Rightarrow> Continue Key fs
           | (InObject kvs k # fs', RBrace) \<Rightarrow> complete (TObj (rev kvs)) fs'
           | _ \<Rightarrow> Failed)
      | _ \<Rightarrow>
          if e = Key \<or> e = KeyOrEnd then
            (case (fs, t) of
               (InObject kvs k # fs', Literal (TStr k')) \<Rightarrow> Continue AfterKey (InObject kvs k' # fs')
             | (InObject kvs k # fs', RBrace) \<Rightarrow> if e = KeyOrEnd then complete (TObj (rev kvs)) fs' else Failed
             | _ \<Rightarrow> Failed)
          else
            (case t of
               Literal v \<Rightarrow> complete v fs
             | LBrace \<Rightarrow> open_frame KeyOrEnd (InObject [] []) fs
             | LBracket \<Rightarrow> open_frame ValueOrEnd (InArray []) fs
             | RBracket \<Rightarrow> (case fs of InArray vs # fs' \<Rightarrow> if e = ValueOrEnd then complete (TArr (rev vs)) fs' else Failed
                            | _ \<Rightarrow> Failed)
             | _ \<Rightarrow> Failed))"

fun parse_tokens :: "expecting \<Rightarrow> frame list \<Rightarrow> token list \<Rightarrow> (json_tree \<times> token list) option" where
  "parse_tokens e fs [] = None"
| "parse_tokens e fs (t # ts) =
     (case token_step e fs t of
        Continue e' fs' \<Rightarrow> parse_tokens e' fs' ts
      | Finished v \<Rightarrow> Some (v, ts)
      | Failed \<Rightarrow> None)"

text \<open>\<^verbatim>\<open>json.Unmarshal\<close> and \<^verbatim>\<open>Decoder.Decode\<close> up to the tree.\<close>

definition json_parse :: "gostring \<Rightarrow> json_tree option" where
  "json_parse s = (case parse_tokens Value [] (lex s) of Some (v, []) \<Rightarrow> Some v | _ \<Rightarrow> None)"

definition json_parse_first :: "gostring \<Rightarrow> json_tree option" where
  "json_parse_first s = map_option fst (parse_tokens Value [] (lex s))"

section \<open>The writer\<close>

fun separated :: "token list list \<Rightarrow> token list" where
  "separated [] = []"
| "separated (ts # tss) = ts @ concat (map (\<lambda>us. Comma # us) tss)"

fun tokens :: "json_tree \<Rightarrow> token list" where
  "tokens (TArr vs) = LBracket # separated (map tokens vs) @ [RBracket]"
| "tokens (TObj kvs) =
     LBrace # separated (map (\<lambda>kv. Literal (TStr (fst kv)) # Colon # tokens (snd kv)) kvs) @ [RBrace]"
| "tokens v = [Literal v]"

fun token_text :: "token \<Rightarrow> gostring" where
  "token_text LBrace = [CHR 0x7B]"
| "token_text RBrace = [CHR 0x7D]"
| "token_text LBracket = [CHR 0x5B]"
| "token_text RBracket = [CHR 0x5D]"
| "token_text Comma = '',''"
| "token_text Colon = '':''"
| "token_text (Literal TNull) = ''null''"
| "token_text (Literal (TBool b)) = (if b then ''true'' else ''false'')"
| "token_text (Literal (TNum n)) = number_text n"
| "token_text (Literal (TStr s)) = CHR 0x22 # escape s @ [CHR 0x22]"
| "token_text _ = []"

definition json_text :: "json_tree \<Rightarrow> gostring" where
  "json_text v = concat (map token_text (tokens v))"

section \<open>The lexer reads what the writer writes\<close>

fun is_literal :: "token \<Rightarrow> bool" where
  "is_literal (Literal v) = True"
| "is_literal _ = False"

fun token_ok :: "token \<Rightarrow> bool" where
  "token_ok (Literal TNull) = True"
| "token_ok (Literal (TBool b)) = True"
| "token_ok (Literal (TNum n)) = number_ok n"
| "token_ok (Literal (TStr s)) = valid_utf8 s"
| "token_ok (Literal v) = False"
| "token_ok Malformed = False"
| "token_ok _ = True"

text \<open>No two literals next to each other.\<close>

fun spaced :: "token list \<Rightarrow> bool" where
  "spaced (a # b # ts) \<longleftrightarrow> \<not> (is_literal a \<and> is_literal b) \<and> spaced (b # ts)"
| "spaced _ = True"

lemma lex_punctuation:
  assumes "punctuation c = Some t"
  shows "lex (c # s) = t # lex s"
proof -
  have "\<not> is_space c" using assms by (auto simp: punctuation_def is_space_def split: if_splits)
  with assms show ?thesis by (simp add: lex.simps(2)[of c s])
qed

lemma lex_value:
  assumes "lex_literal c s = Some (v, t)" "\<not> is_space c" "punctuation c = None"
  shows "lex (c # s) = Literal v # lex t"
  using assms by (simp add: lex.simps(2)[of c s])

lemma number_text_start:
  assumes "number_ok n"
  obtains c s where "number_text n = c # s" "c = CHR ''-'' \<or> is_digit c"
proof -
  obtain d ds where "num_int n = d # ds" "is_digit d"
    using assms by (cases "num_int n") (auto simp: number_ok_def digits_def)
  with that show ?thesis by (cases "num_neg n") (auto simp: number_text_def)
qed

lemma digit_plain:
  assumes "c = CHR ''-'' \<or> is_digit c"
  shows "\<not> is_space c" "punctuation c = None" "c \<noteq> CHR 0x22"
  using assms by (auto simp: is_digit_def is_space_def punctuation_def)

lemma lex_token:
  assumes "token_ok t" and "is_literal t \<Longrightarrow> ends_number u"
  shows "lex (token_text t @ u) = t # lex u"
proof (cases t)
  case (Literal v)
  show ?thesis
  proof (cases v)
    case (TNum n)
    then have ok: "number_ok n" using assms(1) Literal by simp
    obtain c s where s: "number_text n = c # s" "c = CHR ''-'' \<or> is_digit c"
      using number_text_start[OF ok] by blast
    have "lex_number (c # s @ u) = Some (n, u)"
      using lex_number_read[OF ok assms(2)] Literal s(1) by simp
    then have "lex_literal c (s @ u) = Some (TNum n, u)"
      using s(2) digit_plain(3)[OF s(2)] by (simp add: lex_literal_def)
    with digit_plain[OF s(2)] show ?thesis by (simp add: Literal TNum s(1) lex_value)
  next
    case (TStr str)
    then have "sanitize str = str" using assms(1) Literal by (simp add: sanitize_valid)
    then have "lex_literal CHR 0x22 (escape str @ CHR 0x22 # u) = Some (TStr str, u)"
      by (simp add: lex_literal_def lex_escape)
    then show ?thesis by (simp add: Literal TStr lex_value is_space_def punctuation_def)
  next
    case (TBool b)
    have "lex_literal CHR ''t'' (''rue'' @ u) = Some (TBool True, u)"
      "lex_literal CHR ''f'' (''alse'' @ u) = Some (TBool False, u)"
      by (simp_all add: lex_literal_def is_digit_def)
    then show ?thesis by (cases b) (simp_all add: Literal TBool lex_value is_space_def punctuation_def)
  next
    case TNull
    have "lex_literal CHR ''n'' (''ull'' @ u) = Some (TNull, u)"
      by (simp add: lex_literal_def is_digit_def)
    then show ?thesis by (simp add: Literal TNull lex_value is_space_def punctuation_def)
  qed (use assms(1) Literal in simp_all)
qed (use assms(1) in \<open>simp_all add: lex_punctuation punctuation_def\<close>)

lemma lex_tokens:
  assumes "spaced ts" and "\<forall>t \<in> set ts. token_ok t" and "ends_number u"
  shows "lex (concat (map token_text ts) @ u) = ts @ lex u"
  using assms
proof (induction ts rule: induct_list012)
  case (3 a b ts)
  have "ends_number (concat (map token_text (b # ts)) @ u)" if "is_literal a"
  proof -
    have "\<not> is_literal b" using "3.prems"(1) that by simp
    moreover have "b \<noteq> Malformed" using "3.prems"(2) by auto
    ultimately show ?thesis by (cases b) (simp_all add: ends_number_def is_digit_def)
  qed
  from lex_token[OF _ this] "3.IH"(2) "3.prems" show ?case by simp
next
  case (2 t)
  then show ?case using lex_token[of t u] by simp
qed simp

section \<open>The tokens of a tree\<close>

text \<open>Trees that the writer can write: valid strings, numbers in normal form, nesting within the
  limit when \<open>n\<close> containers are open.\<close>

fun tree_ok :: "nat \<Rightarrow> json_tree \<Rightarrow> bool" where
  "tree_ok n (TNum m) = number_ok m"
| "tree_ok n (TStr s) = valid_utf8 s"
| "tree_ok n (TArr vs) = (n < max_nesting \<and> (\<forall>v \<in> set vs. tree_ok (Suc n) v))"
| "tree_ok n (TObj kvs) = (n < max_nesting \<and> (\<forall>kv \<in> set kvs. valid_utf8 (fst kv) \<and> tree_ok (Suc n) (snd kv)))"
| "tree_ok n _ = True"

lemma set_separated: "set (separated tss) \<subseteq> insert Comma (\<Union> (set (map set tss)))"
  by (cases tss) auto

lemma tokens_ok: "tree_ok n v \<Longrightarrow> t \<in> set (tokens v) \<Longrightarrow> token_ok t"
proof (induction n v arbitrary: t rule: tree_ok.induct)
  case (3 n vs)
  then show ?case using set_separated[of "map tokens vs"] by fastforce
next
  case (4 n kvs)
  have "t \<in> {LBrace, RBrace, Comma} \<or>
      (\<exists>kv \<in> set kvs. t \<in> set (Literal (TStr (fst kv)) # Colon # tokens (snd kv)))"
    using "4.prems"(2) set_separated[of "map (\<lambda>kv. Literal (TStr (fst kv)) # Colon # tokens (snd kv)) kvs"] by auto
  then show ?case
  proof (elim disjE bexE)
    fix kv assume kv: "kv \<in> set kvs" "t \<in> set (Literal (TStr (fst kv)) # Colon # tokens (snd kv))"
    with "4.prems"(1) have "valid_utf8 (fst kv)" "tree_ok (Suc n) (snd kv)" by simp_all
    with kv "4.IH"[OF kv(1)] show ?thesis by auto
  qed auto
qed auto

text \<open>What may follow a value.\<close>

definition follows :: "token list \<Rightarrow> bool" where
  "follows ts \<longleftrightarrow> spaced ts \<and> (case ts of [] \<Rightarrow> True | t # _ \<Rightarrow> \<not> is_literal t)"

lemma spaced_punct: "\<not> is_literal t \<Longrightarrow> spaced (t # ts) = spaced ts"
  by (cases ts) auto

lemma spaced_value: "follows ts \<Longrightarrow> is_literal t \<Longrightarrow> spaced (t # ts)"
  by (cases ts) (auto simp: follows_def)

lemma spaced_separated:
  assumes "\<And>us ts. us \<in> set tss \<Longrightarrow> follows ts \<Longrightarrow> spaced (us @ ts)" and "follows ts"
  shows "spaced (separated tss @ ts)"
proof -
  have rest: "follows (concat (map (\<lambda>us. Comma # us) uss) @ ts)" if "set uss \<subseteq> set tss" for uss
    using that
  proof (induction uss)
    case (Cons us uss)
    then have "spaced (us @ concat (map (\<lambda>us. Comma # us) uss) @ ts)" by (intro assms(1)) simp_all
    then show ?case by (simp add: follows_def spaced_punct)
  qed (simp add: assms(2))
  show ?thesis
  proof (cases tss)
    case Nil
    then show ?thesis using assms(2) by (simp add: follows_def)
  next
    case (Cons us uss)
    then have "spaced (us @ concat (map (\<lambda>us. Comma # us) uss) @ ts)"
      by (intro assms(1) rest) auto
    then show ?thesis by (simp add: Cons)
  qed
qed

lemma spaced_tokens: "follows ts \<Longrightarrow> spaced (tokens v @ ts)"
proof (induction v arbitrary: ts rule: tokens.induct)
  case (1 vs)
  have "follows (RBracket # ts)" using 1(2) by (simp add: follows_def spaced_punct)
  with 1 show ?case by (auto simp: spaced_punct intro!: spaced_separated)
next
  case (2 kvs)
  have "follows (RBrace # ts)" using 2(2) by (simp add: follows_def spaced_punct)
  with 2 show ?case by (auto simp: spaced_punct intro!: spaced_separated)
qed (simp_all add: spaced_value)

section \<open>The parser reads what the writer writes\<close>

definition resume :: "progress \<Rightarrow> token list \<Rightarrow> (json_tree \<times> token list) option" where
  "resume p ts = (case p of Continue e fs \<Rightarrow> parse_tokens e fs ts | Finished v \<Rightarrow> Some (v, ts) | Failed \<Rightarrow> None)"

lemma parse_step: "parse_tokens e fs (t # ts) = resume (token_step e fs t) ts"
  by (simp add: resume_def)

lemma resume_simps [simp]:
  "resume (Continue e fs) ts = parse_tokens e fs ts" "resume (Finished v) ts = Some (v, ts)" "resume Failed ts = None"
  by (simp_all add: resume_def)

declare parse_tokens.simps(2) [simp del]

definition starts_value :: "expecting \<Rightarrow> bool" where
  "starts_value e \<longleftrightarrow> e = Value \<or> e = ValueOrEnd"

lemma parse_elements:
  assumes "\<And>v e fs ts. v \<in> set vs \<Longrightarrow> starts_value e \<Longrightarrow> length fs = Suc n \<Longrightarrow>
    parse_tokens e fs (tokens v @ ts) = resume (complete v fs) ts"
    and "length fs = n"
  shows "parse_tokens AfterValue (InArray acc # fs) (concat (map (\<lambda>us. Comma # us) (map tokens vs)) @ RBracket # ts) =
    resume (complete (TArr (rev acc @ vs)) fs) ts"
  using assms(1)
proof (induction vs arbitrary: acc)
  case Nil
  show ?case by (simp add: parse_step token_step_def)
next
  case (Cons v vs)
  have "parse_tokens Value (InArray acc # fs) (tokens v @ concat (map (\<lambda>us. Comma # us) (map tokens vs)) @ RBracket # ts) =
      resume (complete v (InArray acc # fs)) (concat (map (\<lambda>us. Comma # us) (map tokens vs)) @ RBracket # ts)"
    using Cons.prems assms(2) by (simp add: starts_value_def)
  also have "\<dots> = resume (complete (TArr (rev acc @ v # vs)) fs) ts"
    using Cons.IH[of "v # acc"] Cons.prems by (simp add: complete_def)
  finally show ?case by (simp add: parse_step token_step_def)
qed

lemma parse_members:
  assumes "\<And>kv e fs ts. kv \<in> set kvs \<Longrightarrow> starts_value e \<Longrightarrow> length fs = Suc n \<Longrightarrow>
    parse_tokens e fs (tokens (snd kv) @ ts) = resume (complete (snd kv) fs) ts"
    and "length fs = n"
  shows "parse_tokens AfterValue (InObject acc k # fs)
      (concat (map (\<lambda>us. Comma # us) (map (\<lambda>kv. Literal (TStr (fst kv)) # Colon # tokens (snd kv)) kvs)) @ RBrace # ts) =
    resume (complete (TObj (rev acc @ kvs)) fs) ts"
  using assms(1)
proof (induction kvs arbitrary: acc k)
  case Nil
  show ?case by (simp add: parse_step token_step_def)
next
  case (Cons kv kvs)
  obtain k' v where kv: "kv = (k', v)" by (cases kv)
  let ?rest = "concat (map (\<lambda>us. Comma # us) (map (\<lambda>kv. Literal (TStr (fst kv)) # Colon # tokens (snd kv)) kvs)) @ RBrace # ts"
  have "parse_tokens Value (InObject acc k' # fs) (tokens v @ ?rest) = resume (complete v (InObject acc k' # fs)) ?rest"
    using Cons.prems[of kv Value "InObject acc k' # fs" ?rest] assms(2) by (simp add: starts_value_def kv)
  also have "\<dots> = resume (complete (TObj (rev acc @ kv # kvs)) fs) ts"
    using Cons.IH[of "(k', v) # acc" k'] Cons.prems by (simp add: complete_def kv)
  finally show ?case by (simp add: parse_step token_step_def kv)
qed

lemma parse_tree:
  assumes "tree_ok n v" and "starts_value e" and "length fs = n"
  shows "parse_tokens e fs (tokens v @ ts) = resume (complete v fs) ts"
  using assms
proof (induction n v arbitrary: e fs ts rule: tree_ok.induct)
  case (3 n vs)
  have lim: "\<not> max_nesting \<le> length fs" using "3.prems" by simp
  have IH: "parse_tokens e' fs' (tokens v @ ts') = resume (complete v fs') ts'"
    if "v \<in> set vs" "starts_value e'" "length fs' = Suc n" for v e' fs' ts'
    using "3.IH"[OF that(1) _ that(2,3)] "3.prems"(1) that(1) by simp
  have first: "parse_tokens e fs (LBracket # us) = parse_tokens ValueOrEnd (InArray [] # fs) us" for us
    using "3.prems"(2) lim by (auto simp: parse_step token_step_def starts_value_def open_frame_def)
  show ?case
  proof (cases vs)
    case Nil
    then show ?thesis by (simp add: first) (simp add: parse_step token_step_def)
  next
    case (Cons v vs')
    have "parse_tokens ValueOrEnd (InArray [] # fs)
        (tokens v @ concat (map (\<lambda>us. Comma # us) (map tokens vs')) @ RBracket # ts) =
      parse_tokens AfterValue (InArray [v] # fs) (concat (map (\<lambda>us. Comma # us) (map tokens vs')) @ RBracket # ts)"
      using IH[of v ValueOrEnd "InArray [] # fs"] "3.prems"(3) by (simp add: Cons starts_value_def complete_def)
    also have "\<dots> = resume (complete (TArr (rev [v] @ vs')) fs) ts"
      by (rule parse_elements[where n = n]) (use IH Cons "3.prems"(3) in auto)
    finally show ?thesis by (simp add: Cons first)
  qed
next
  case (4 n kvs)
  have lim: "\<not> max_nesting \<le> length fs" using "4.prems" by simp
  have IH: "parse_tokens e' fs' (tokens (snd kv) @ ts') = resume (complete (snd kv) fs') ts'"
    if "kv \<in> set kvs" "starts_value e'" "length fs' = Suc n" for kv e' fs' ts'
    using "4.IH"[OF that(1) _ that(2,3)] "4.prems"(1) that(1) by simp
  have first: "parse_tokens e fs (LBrace # us) = parse_tokens KeyOrEnd (InObject [] [] # fs) us" for us
    using "4.prems"(2) lim by (auto simp: parse_step token_step_def starts_value_def open_frame_def)
  show ?case
  proof (cases kvs)
    case Nil
    then show ?thesis by (simp add: first) (simp add: parse_step token_step_def)
  next
    case (Cons kv kvs')
    let ?rest = "concat (map (\<lambda>us. Comma # us) (map (\<lambda>kv. Literal (TStr (fst kv)) # Colon # tokens (snd kv)) kvs')) @ RBrace # ts"
    have "parse_tokens KeyOrEnd (InObject [] [] # fs) (Literal (TStr (fst kv)) # Colon # tokens (snd kv) @ ?rest) =
      parse_tokens Value (InObject [] (fst kv) # fs) (tokens (snd kv) @ ?rest)"
      by (simp add: parse_step token_step_def)
    also have "\<dots> = parse_tokens AfterValue (InObject [kv] (fst kv) # fs) ?rest"
      using IH[of kv Value "InObject [] (fst kv) # fs" ?rest] "4.prems"(3)
      by (simp add: Cons starts_value_def complete_def)
    also have "\<dots> = resume (complete (TObj (rev [kv] @ kvs')) fs) ts"
      by (rule parse_members[where n = n]) (use IH Cons "4.prems"(3) in auto)
    finally show ?thesis by (simp add: Cons first)
  qed
qed (auto simp: parse_step token_step_def starts_value_def)

theorem json_parse_text: "tree_ok 0 v \<Longrightarrow> json_parse (json_text v) = Some v"
  and json_parse_first_text: "tree_ok 0 v \<Longrightarrow> json_parse_first (json_text v) = Some v"
  and json_parse_line: "tree_ok 0 v \<Longrightarrow> json_parse (json_text v @ [CHR 0x0A]) = Some v"
proof -
  assume ok: "tree_ok 0 v"
  have "spaced (tokens v)" using spaced_tokens[of "[]" v] by (simp add: follows_def)
  then have "lex (json_text v @ u) = tokens v @ lex u" if "ends_number u" for u
    unfolding json_text_def using tokens_ok[OF ok] that by (intro lex_tokens) auto
  from this[of "[]"] this[of "[CHR 0x0A]"]
  have "lex (json_text v) = tokens v" "lex (json_text v @ [CHR 0x0A]) = tokens v"
    by (simp_all add: ends_number_def is_digit_def lex.simps(2) is_space_def)
  moreover have "parse_tokens Value [] (tokens v @ []) = resume (complete v []) []"
    using ok by (intro parse_tree) (simp_all add: starts_value_def)
  ultimately show "json_parse (json_text v) = Some v" "json_parse_first (json_text v) = Some v"
      "json_parse (json_text v @ [CHR 0x0A]) = Some v"
    by (simp_all add: json_parse_def json_parse_first_def complete_def)
qed

end
