(* ===== verification/Json_Wellformed.thy ===== *)
theory Json_Wellformed
  imports Json_Parser
begin

text \<open>
  What the parser accepts: its strings are well-formed UTF-8, its numbers are in normal form and
  its containers nest within the limit, so every tree that is read can be written again.
\<close>

section \<open>Strings\<close>

lemma take_drop_prefix:
  assumes "utf8_size c s \<noteq> 0"
  shows "utf8_size c (s @ q) = utf8_size c s"
    and "drop (utf8_size c s - 1) (s @ q) = drop (utf8_size c s - 1) s @ q"
    and "utf8_size c (take (utf8_size c s - 1) s) = utf8_size c s"
    and "drop (utf8_size c s - 1) (take (utf8_size c s - 1) s) = []"
  using assms by (cases rule: utf8_size_cases; simp add: utf8_size_def)+

lemma valid_append: "valid_utf8 p \<Longrightarrow> valid_utf8 q \<Longrightarrow> valid_utf8 (p @ q)"
proof (induction p rule: valid_utf8.induct)
  case (2 c s)
  show ?case
  proof (cases "byte_of c < 0x80")
    case True
    with 2 show ?thesis by (simp add: valid_utf8.simps(2))
  next
    case False
    then have n: "utf8_size c s \<noteq> 0" "valid_utf8 (drop (utf8_size c s - 1) s)"
      using "2.prems"(1) by (simp_all add: valid_utf8.simps(2)[of c s])
    have "valid_utf8 (drop (utf8_size c s - 1) s @ q)" by (rule "2.IH"(2)[OF False n(2) "2.prems"(2)])
    then show ?thesis
      using False n(1) take_drop_prefix(1,2)[OF n(1), of q] by (simp only: append_Cons valid_utf8.simps(2)[of c "s @ q"]) simp
  qed
qed simp

lemma valid_sequence:
  assumes "\<not> byte_of c < 0x80" "utf8_size c s \<noteq> 0"
  shows "valid_utf8 (c # take (utf8_size c s - 1) s)"
  using assms take_drop_prefix(3,4)[OF assms(2)]
  by (simp only: valid_utf8.simps(2)[of c "take (utf8_size c s - 1) s"]) simp

lemma byte_of_char_of: "n < 256 \<Longrightarrow> byte_of (char_of n) = n"
  by (simp add: of_char_of)

lemma valid_two: "utf8_two a b \<Longrightarrow> valid_utf8 [a, b]"
  by (simp add: valid_utf8.simps(2) utf8_size_def utf8_two_def)

lemma valid_three: "utf8_three a b c \<Longrightarrow> valid_utf8 [a, b, c]"
  by (simp add: valid_utf8.simps(2) utf8_size_def utf8_three_def utf8_two_def)

lemma valid_four: "utf8_four a b c d \<Longrightarrow> valid_utf8 [a, b, c, d]"
  by (simp add: valid_utf8.simps(2) utf8_size_def utf8_four_def utf8_three_def utf8_two_def)

lemma six_bits: "n = n div 0x40 * 0x40 + n mod 0x40" for n :: nat
  by simp

lemma div_div_numeral: "n div 0x40 div 0x40 = n div 0x1000" "n div 0x1000 div 0x40 = n div 0x40000" for n :: nat
  by (simp_all add: div_mult2_eq[symmetric])

lemma valid_utf8_char:
  assumes "r < 0xD800 \<or> 0xDFFF < r" and "r < 0x110000"
  shows "valid_utf8 (utf8_char r)"
proof -
  consider "r < 0x80" | "0x80 \<le> r" "r < 0x800" | "0x800 \<le> r" "r < 0x10000" | "0x10000 \<le> r"
    by linarith
  then show ?thesis
  proof cases
    case 1
    then show ?thesis by (simp add: utf8_char_ascii valid_utf8.simps(2) byte_of_char_of)
  next
    case 2
    define a b where d: "a = r div 0x40" "b = r mod 0x40"
    have r: "r = a * 0x40 + b" "b < 0x40" by (simp_all add: d)
    then have "2 \<le> a" "a < 0x20" using 2 by linarith+
    with r(2) have "utf8_two (char_of (0xC0 + a)) (char_of (0x80 + b))"
      by (simp add: utf8_two_def cont_byte_def byte_of_char_of)
    then have "valid_utf8 [char_of (0xC0 + a), char_of (0x80 + b)]" by (rule valid_two)
    moreover have "\<not> r < 0x80" using 2 by linarith
    ultimately show ?thesis using 2(2) by (simp only: utf8_char_def d if_False if_True list.map)
  next
    case 3
    define a b c where d: "a = r div 0x1000" "b = r div 0x40 mod 0x40" "c = r mod 0x40"
    have r: "r = a * 0x1000 + b * 0x40 + c"
      using six_bits[of r] six_bits[of "r div 0x40"] by (simp only: d div_div_numeral)
    have lim: "b < 0x40" "c < 0x40" by (simp_all add: d)
    have lim': "a < 16" using 3 r by linarith
    have low: "a = 0 \<Longrightarrow> 0x20 \<le> b" using 3 r lim by linarith
    have sur: "a = 13 \<Longrightarrow> b \<le> 0x1F" using assms(1) r lim by linarith
    have "utf8_three (char_of (0xE0 + a)) (char_of (0x80 + b)) (char_of (0x80 + c))"
      using lim lim' low sur by (auto simp: utf8_three_def cont_byte_def byte_of_char_of)
    then have "valid_utf8 [char_of (0xE0 + a), char_of (0x80 + b), char_of (0x80 + c)]" by (rule valid_three)
    moreover have "\<not> r < 0x80" "\<not> r < 0x800" using 3 by linarith+
    ultimately show ?thesis using 3(2) by (simp only: utf8_char_def d if_False if_True list.map)
  next
    case 4
    define a b c e where d: "a = r div 0x40000" "b = r div 0x1000 mod 0x40" "c = r div 0x40 mod 0x40" "e = r mod 0x40"
    have r: "r = a * 0x40000 + b * 0x1000 + c * 0x40 + e"
      using six_bits[of r] six_bits[of "r div 0x40"] six_bits[of "r div 0x1000"]
      by (simp only: d div_div_numeral)
    have lim: "b < 0x40" "c < 0x40" "e < 0x40" by (simp_all add: d)
    have lim': "a < 5" using assms(2) r by linarith
    have low: "a = 0 \<Longrightarrow> 0x10 \<le> b" using 4 r lim by linarith
    have high: "a = 4 \<Longrightarrow> b \<le> 0xF" using assms(2) r lim by linarith
    have "utf8_four (char_of (0xF0 + a)) (char_of (0x80 + b)) (char_of (0x80 + c)) (char_of (0x80 + e))"
      using lim lim' low high by (auto simp: utf8_four_def cont_byte_def byte_of_char_of)
    then have "valid_utf8 [char_of (0xF0 + a), char_of (0x80 + b), char_of (0x80 + c), char_of (0x80 + e)]"
      by (rule valid_four)
    moreover have "\<not> r < 0x80" "\<not> r < 0x800" "\<not> r < 0x10000" using 4 by linarith+
    ultimately show ?thesis by (simp only: utf8_char_def d if_False if_True list.map)
  qed
qed

definition reads :: "('a \<Rightarrow> bool) \<Rightarrow> ('a \<times> gostring) option \<Rightarrow> bool" where
  "reads P r \<longleftrightarrow> (case r of None \<Rightarrow> True | Some (x, _) \<Rightarrow> P x)"

lemma reads_simps [simp]:
  "reads P None" "reads P (Some (x, t)) \<longleftrightarrow> P x"
  by (simp_all add: reads_def)

lemma reads_branches:
  "(b \<Longrightarrow> reads P x) \<Longrightarrow> (\<not> b \<Longrightarrow> reads P y) \<Longrightarrow> reads P (if b then x else y)"
  "(xs = [] \<Longrightarrow> reads P x) \<Longrightarrow> (\<And>a as. xs = a # as \<Longrightarrow> reads P (f a as)) \<Longrightarrow>
    reads P (case xs of [] \<Rightarrow> x | a # as \<Rightarrow> f a as)"
  "(r = None \<Longrightarrow> reads P z) \<Longrightarrow> (\<And>a. r = Some a \<Longrightarrow> reads P (g a)) \<Longrightarrow>
    reads P (case r of None \<Rightarrow> z | Some a \<Rightarrow> g a)"
  by (simp_all split: list.split option.split)

lemma reads_prepend: "valid_utf8 p \<Longrightarrow> reads valid_utf8 r \<Longrightarrow> reads valid_utf8 (prepend p r)"
  by (cases r) (auto simp: valid_append)

lemma hex4_less: "hex4 a b c d = Some r \<Longrightarrow> r < 0x10000"
proof -
  have hv: "hex_val c = Some n \<Longrightarrow> n < 16" for c n by (auto simp: hex_val_def split: if_splits)
  assume "hex4 a b c d = Some r"
  then obtain w x y z where "hex_val a = Some w" "hex_val b = Some x" "hex_val c = Some y" "hex_val d = Some z"
    and r: "r = w * 0x1000 + x * 0x100 + y * 0x10 + z"
    by (auto simp: hex4_def split: option.splits)
  then have "w < 16" "x < 16" "y < 16" "z < 16" using hv by blast+
  then show ?thesis unfolding r by linarith
qed

lemma valid_replacement: "valid_utf8 rune_error"
  unfolding rune_error_def by (rule valid_utf8_char) simp_all

lemma valid_byte: "byte_of c < 0x80 \<Longrightarrow> valid_utf8 [c]"
  by (simp add: valid_utf8.simps(2))

lemma valid_simple: "simple_escape e = Some x \<Longrightarrow> valid_utf8 [x]"
  by (auto simp: simple_escape_def valid_utf8.simps(2) split: if_splits)

lemma valid_unit: "hex4 a b c d = Some r \<Longrightarrow> r < 0xD800 \<or> 0xDFFF < r \<Longrightarrow> valid_utf8 (utf8_char r)"
  using hex4_less[of a b c d r] by (intro valid_utf8_char) simp_all

lemma valid_pair:
  "r < 0xDC00 \<Longrightarrow> 0xDC00 \<le> r2 \<Longrightarrow> r2 \<le> 0xDFFF \<Longrightarrow> valid_utf8 (utf8_char (0x2400 + ((r - 0xD800) * 0x400 + r2)))"
  by (intro valid_utf8_char) linarith+

lemma lex_string_valid: "reads valid_utf8 (lex_string s)"
proof (induction s rule: length_induct)
  case (1 s)
  show ?case
  proof (cases s)
    case (Cons c s')
    define n where "n = Suc (length s')"
    have IH: "length u < n \<Longrightarrow> valid_utf8 p \<Longrightarrow> reads valid_utf8 (prepend p (lex_string u))" for u p
      using "1.IH"[rule_format, of u] by (intro reads_prepend) (simp_all add: Cons n_def)
    have "reads valid_utf8 (lex_string (c # s'))"
      unfolding lex_string.simps(2)[of c s'] Let_def
      by (intro reads_branches IH) (simp_all add: n_def valid_replacement valid_byte valid_simple valid_unit
          valid_pair valid_sequence[simplified])
    then show ?thesis by (simp add: Cons)
  qed simp
qed

section \<open>Numbers\<close>

lemma lex_digits_ok: "reads digits (lex_digits s)"
  by (auto simp: lex_digits_def Let_def digits_def dest: set_takeWhileD)

lemma lex_int_ok: "reads (\<lambda>ds. digits ds \<and> (hd ds = CHR ''0'' \<longrightarrow> ds = ''0'')) (lex_int s)"
  by (cases s) (auto simp: lex_int_def digits_def dest: set_takeWhileD)

lemma lex_frac_ok: "reads (\<lambda>fr. case fr of None \<Rightarrow> True | Some ds \<Rightarrow> digits ds) (lex_frac s)"
proof (cases s)
  case (Cons c t)
  then show ?thesis using lex_digits_ok[of t] by (cases "lex_digits t") (auto simp: lex_frac_def)
qed (simp add: lex_frac_def)

lemma lex_exp_ok: "reads (\<lambda>ex. case ex of None \<Rightarrow> True | Some (_, ds) \<Rightarrow> digits ds) (lex_exp s)"
proof (cases s)
  case (Cons c t)
  let ?sign = "case t of d # v \<Rightarrow> if d = CHR ''-'' then (True, v) else if d = CHR ''+'' then (False, v) else (False, t)
    | [] \<Rightarrow> (False, t)"
  obtain neg u where "?sign = (neg, u)" by (cases ?sign)
  then show ?thesis using lex_digits_ok[of u] by (cases "lex_digits u") (auto simp: lex_exp_def Cons)
qed (simp add: lex_exp_def)

lemma lex_number_ok: "reads number_ok (lex_number s)"
proof (cases "lex_number s")
  case (Some r)
  let ?sp = "case s of c # t \<Rightarrow> if c = CHR ''-'' then (True, t) else (False, s) | [] \<Rightarrow> (False, s)"
  obtain neg s1 where sp: "?sp = (neg, s1)" by (cases ?sp)
  from Some obtain ds s2 fr s3 e s4 where "lex_int s1 = Some (ds, s2)" "lex_frac s2 = Some (fr, s3)"
      "lex_exp s3 = Some (e, s4)" "r = (\<lparr>num_neg = neg, num_int = ds, num_frac = fr, num_exp = e\<rparr>, s4)"
    by (auto simp: lex_number_def sp split: option.splits prod.splits)
  then show ?thesis using lex_int_ok[of s1] lex_frac_ok[of s2] lex_exp_ok[of s3] by (simp add: Some number_ok_def)
qed simp

section \<open>Tokens\<close>

lemma lex_literal_ok: "reads (tree_ok n) (lex_literal c s)"
proof -
  have "reads (tree_ok n) (map_option (\<lambda>(str, t). (TStr str, t)) (lex_string s))"
    using lex_string_valid[of s] by (cases "lex_string s") auto
  moreover have "reads (tree_ok n) (map_option (\<lambda>(m, t). (TNum m, t)) (lex_number (c # s)))"
    using lex_number_ok[of "c # s"] by (cases "lex_number (c # s)") auto
  ultimately show ?thesis by (simp add: lex_literal_def)
qed

lemma lex_ok: "Literal v \<in> set (lex s) \<Longrightarrow> tree_ok n v"
proof (induction s rule: lex.induct)
  case (2 c s)
  then show ?case using lex_literal_ok[of n c s]
    by (auto simp: lex.simps(2)[of c s] punctuation_def split: if_splits option.splits prod.splits)
qed simp

section \<open>Trees\<close>

text \<open>The invariant of the stack: the frames hold what the writer can write at their depth.\<close>

fun frames_ok :: "frame list \<Rightarrow> bool" where
  "frames_ok [] = True"
| "frames_ok (InArray vs # fs) \<longleftrightarrow>
     length fs < max_nesting \<and> (\<forall>v \<in> set vs. tree_ok (Suc (length fs)) v) \<and> frames_ok fs"
| "frames_ok (InObject kvs k # fs) \<longleftrightarrow>
     length fs < max_nesting \<and> valid_utf8 k \<and>
     (\<forall>kv \<in> set kvs. valid_utf8 (fst kv) \<and> tree_ok (Suc (length fs)) (snd kv)) \<and> frames_ok fs"

definition progress_ok :: "progress \<Rightarrow> bool" where
  "progress_ok p \<longleftrightarrow> (case p of Continue e fs \<Rightarrow> frames_ok fs | Finished v \<Rightarrow> tree_ok 0 v | Failed \<Rightarrow> True)"

lemma progress_ok_simps [simp]:
  "progress_ok (Continue e fs) \<longleftrightarrow> frames_ok fs" "progress_ok (Finished v) \<longleftrightarrow> tree_ok 0 v" "progress_ok Failed"
  by (simp_all add: progress_ok_def)

lemma complete_ok: "frames_ok fs \<Longrightarrow> tree_ok (length fs) v \<Longrightarrow> progress_ok (complete v fs)"
  by (cases fs rule: frames_ok.cases) (auto simp: complete_def)

lemma token_step_ok:
  assumes "frames_ok fs" and "\<And>v n. t = Literal v \<Longrightarrow> tree_ok n v"
  shows "progress_ok (token_step e fs t)"
proof -
  have "t = Literal (TStr k) \<Longrightarrow> valid_utf8 k" for k using assms(2)[of "TStr k" 0] by simp
  with assms show ?thesis
    by (cases fs rule: frames_ok.cases)
      (auto simp: token_step_def open_frame_def complete_ok split: expecting.splits token.splits json_tree.splits)
qed

lemma parse_tokens_ok:
  assumes "frames_ok fs" and "\<And>v n. Literal v \<in> set ts \<Longrightarrow> tree_ok n v"
    and "parse_tokens e fs ts = Some (v, us)"
  shows "tree_ok 0 v"
  using assms
proof (induction ts arbitrary: e fs)
  case (Cons t ts)
  have "progress_ok (token_step e fs t)" using Cons.prems(1,2) by (intro token_step_ok) auto
  moreover have "resume (token_step e fs t) ts = Some (v, us)" using Cons.prems(3) by (simp add: parse_step)
  ultimately show ?case using Cons.IH Cons.prems(2) by (cases "token_step e fs t") auto
qed simp

theorem json_parse_ok: "json_parse s = Some v \<Longrightarrow> tree_ok 0 v"
  and json_parse_first_ok: "json_parse_first s = Some v \<Longrightarrow> tree_ok 0 v"
proof -
  have *: "parse_tokens Value [] (lex s) = Some (v, us) \<Longrightarrow> tree_ok 0 v" for us
    by (rule parse_tokens_ok[of "[]" "lex s" Value]) (simp_all add: lex_ok)
  then show "json_parse s = Some v \<Longrightarrow> tree_ok 0 v" "json_parse_first s = Some v \<Longrightarrow> tree_ok 0 v"
    by (auto simp: json_parse_def json_parse_first_def split: option.splits prod.splits list.splits)
qed

end
