(* ===== verification/Go_Arith.thy ===== *)
theory Go_Arith
  imports Go_Float
begin

text \<open>
  IEEE 754 arithmetic on \<^verbatim>\<open>float64\<close> bit patterns: rounding of an exact quotient to the nearest
  number, ties to even, and the operations defined through it. The exact values are multiples
  of \<open>2 ^ -1074\<close>, the unit of \<^const>\<open>f64_scaled\<close>. The lemmas say that rounding keeps numbers that
  are representable and respects representable bounds.
\<close>

section \<open>Rounding\<close>

text \<open>The magnitude nearest to \<open>a / b\<close> units: \<open>k\<close> low bits of the quotient do not fit in the 53
  bits of the significand.\<close>

definition nearest_mag :: "nat \<Rightarrow> nat \<Rightarrow> nat" where
  "nearest_mag a b =
     (let k = msb_pos (a div b) - 52 in k * 2 ^ 52 + round_half_even a (b * 2 ^ k))"

definition f64_make :: "bool \<Rightarrow> nat \<Rightarrow> f64" where
  "f64_make neg m = word_of_nat ((if neg then 2 ^ 63 else 0) + min m f64_inf_mag)"

definition f64_round :: "bool \<Rightarrow> nat \<Rightarrow> nat \<Rightarrow> f64" where
  "f64_round neg a b = f64_make neg (nearest_mag a b)"

section \<open>Operations\<close>

text \<open>\<^verbatim>\<open>math.NaN()\<close>. Which NaN an operation returns is up to the machine; the program computes
  with finite operands only.\<close>

definition f64_NaN :: f64 where
  "f64_NaN = 0x7FF8000000000001"

text \<open>Negation flips the sign bit: adding it does, as the carry is lost.\<close>

definition f64_neg_of :: "f64 \<Rightarrow> f64" where
  "f64_neg_of x = x + 0x8000000000000000"

definition f64_add :: "f64 \<Rightarrow> f64 \<Rightarrow> f64" where
  "f64_add x y =
     (if f64_is_nan x \<or> f64_is_nan y then f64_NaN
      else if \<not> f64_finite x then (if \<not> f64_finite y \<and> f64_neg x \<noteq> f64_neg y then f64_NaN else x)
      else if \<not> f64_finite y then y
      else let s = f64_scaled x + f64_scaled y
           in if s = 0 then f64_make (f64_neg x \<and> f64_neg y) 0
              else f64_round (s < 0) (nat \<bar>s\<bar>) 1)"

definition f64_sub :: "f64 \<Rightarrow> f64 \<Rightarrow> f64" where
  "f64_sub x y = f64_add x (f64_neg_of y)"

definition f64_mul :: "f64 \<Rightarrow> f64 \<Rightarrow> f64" where
  "f64_mul x y =
     (if f64_is_nan x \<or> f64_is_nan y then f64_NaN
      else if \<not> f64_finite x \<or> \<not> f64_finite y
        then (if f64_mag x = 0 \<or> f64_mag y = 0 then f64_NaN
              else f64_make (f64_neg x \<noteq> f64_neg y) f64_inf_mag)
      else f64_round (f64_neg x \<noteq> f64_neg y)
             (mag_value 52 (f64_mag x) * mag_value 52 (f64_mag y)) (2 ^ 1074))"

definition f64_div :: "f64 \<Rightarrow> f64 \<Rightarrow> f64" where
  "f64_div x y =
     (if f64_is_nan x \<or> f64_is_nan y then f64_NaN
      else if \<not> f64_finite x
        then (if \<not> f64_finite y then f64_NaN else f64_make (f64_neg x \<noteq> f64_neg y) f64_inf_mag)
      else if \<not> f64_finite y then f64_make (f64_neg x \<noteq> f64_neg y) 0
      else if f64_mag y = 0
        then (if f64_mag x = 0 then f64_NaN else f64_make (f64_neg x \<noteq> f64_neg y) f64_inf_mag)
      else f64_round (f64_neg x \<noteq> f64_neg y)
             (mag_value 52 (f64_mag x) * 2 ^ 1074) (mag_value 52 (f64_mag y)))"

text \<open>\<^verbatim>\<open>float64(n)\<close> of an unsigned integer.\<close>

definition f64_of_nat :: "nat \<Rightarrow> f64" where
  "f64_of_nat n = f64_round False (n * 2 ^ 1074) 1"

section \<open>Fields of the results\<close>

lemma f64_make_fields:
  "f64_neg (f64_make neg m) = neg" "f64_mag (f64_make neg m) = min m f64_inf_mag"
proof -
  define w where "w = min m f64_inf_mag"
  have w: "w < 2 ^ 63" using f64_inf_mag_less by (simp add: w_def)
  have small: "(if neg then 2 ^ 63 else 0) + w < 2 ^ 64" using w by simp
  have "unat (f64_make neg m) = (if neg then 2 ^ 63 else 0) + w"
    by (simp only: f64_make_def unat_of_nat flip: w_def) (rule mod_less, use small in simp)
  with w show "f64_neg (f64_make neg m) = neg" "f64_mag (f64_make neg m) = min m f64_inf_mag"
    by (auto simp: f64_neg_def f64_mag_def simp flip: w_def)
qed

lemma f64_make_finite: "f64_finite (f64_make neg m) \<longleftrightarrow> m < f64_inf_mag"
  unfolding f64_finite_def f64_make_fields by (simp add: min_less_iff_disj)

lemma f64_make_not_nan: "\<not> f64_is_nan (f64_make neg m)"
  unfolding f64_is_nan_def f64_make_fields by simp

lemma f64_make_scaled: "m < f64_inf_mag \<Longrightarrow> f64_scaled (f64_make neg m) = signed_mag neg (mag_value 52 m)"
  unfolding f64_scaled_def f64_make_fields by (simp add: min_def)

lemma unat_lt_m2p_64: "unat (x :: f64) < 2 ^ 64"
  using unsigned_less[of x] by simp

lemma f64_make_same: "f64_finite x \<Longrightarrow> f64_make (f64_neg x) (f64_mag x) = x"
proof -
  assume fin: "f64_finite x"
  have "(if f64_neg x then 2 ^ 63 else 0) + f64_mag x = unat x"
  proof -
    have lt: "unat x < 2 ^ 64" by (rule unat_lt_m2p_64)
    show ?thesis
    proof (cases "2 ^ 63 \<le> unat x")
      case True
      have "unat x mod 2 ^ 63 = unat x - 2 ^ 63"
        using True lt by (subst mod_if) (simp add: le_mod_geq)
      with True show ?thesis by (simp add: f64_neg_def f64_mag_def)
    next
      case False
      then show ?thesis by (simp add: f64_neg_def f64_mag_def)
    qed
  qed
  moreover have "min (f64_mag x) f64_inf_mag = f64_mag x" using fin by (simp add: f64_finite_def)
  ultimately show ?thesis by (simp add: f64_make_def)
qed

section \<open>Rounding respects representable numbers\<close>

lemma half_even_ge: "0 < b \<Longrightarrow> n * b \<le> a \<Longrightarrow> n \<le> round_half_even a b"
proof -
  assume b: "0 < b" and "n * b \<le> a"
  then have "n \<le> a div b" by (simp add: less_eq_div_iff_mult_less_eq)
  then show ?thesis by (simp add: round_half_even_def Let_def)
qed

lemma half_even_le:
  assumes b: "0 < b" and le: "a \<le> n * b"
  shows "round_half_even a b \<le> n"
proof -
  have q: "a div b \<le> n"
    using div_le_mono[OF le, of b] b by simp
  show ?thesis
  proof (cases "a div b = n")
    case True
    have "a mod b = a - n * b" using True by (simp add: minus_mult_div_eq_mod[symmetric] mult.commute)
    with le have "a mod b = 0" by simp
    with True b show ?thesis by (simp add: round_half_even_def)
  next
    case False
    with q show ?thesis by (simp add: round_half_even_def Let_def)
  qed
qed

text \<open>The value of the magnitude that rounding returns is the rounded significand, shifted.\<close>

lemma mag_value_shift:
  assumes "k = 0 \<or> 2 ^ p \<le> r" and "r < 2 ^ Suc p"
  shows "mag_value p (k * 2 ^ p + r) = r * 2 ^ k"
proof (cases "2 ^ p \<le> r")
  case True
  define f where "f = r - 2 ^ p"
  have f: "f < 2 ^ p" "r = 2 ^ p + f" using True assms(2) by (simp_all add: f_def)
  have "k * 2 ^ p + r = Suc k * 2 ^ p + f" using f(2) by simp
  then show ?thesis by (simp only: mag_value_join[OF f(1)]) (simp add: f(2))
next
  case False
  with assms show ?thesis by (simp add: mag_value_def)
qed

lemma mag_value_top: "mag_value p (k * 2 ^ p + 2 ^ Suc p) = 2 ^ Suc p * 2 ^ k"
proof -
  have "k * 2 ^ p + 2 ^ Suc p = Suc (Suc k) * 2 ^ p + 0" by simp
  moreover have "mag_value p (Suc (Suc k) * 2 ^ p + 0) = 2 ^ Suc p * 2 ^ k"
    by (subst mag_value_join) simp_all
  ultimately show ?thesis by (simp only:)
qed

lemma mag_value_round:
  assumes "k = 0 \<or> 2 ^ p \<le> r" and "r \<le> 2 ^ Suc p"
  shows "mag_value p (k * 2 ^ p + r) = r * 2 ^ k"
proof (cases "r = 2 ^ Suc p")
  case True
  then show ?thesis by (simp only: mag_value_top)
next
  case False
  with assms show ?thesis by (intro mag_value_shift) simp_all
qed

text \<open>The significand before rounding has 53 bits, unless the number is subnormal.\<close>

lemma quotient_bits:
  fixes a b :: nat
  assumes "0 < b"
  defines "k \<equiv> msb_pos (a div b) - 52"
  shows "a < 2 ^ 53 * (b * 2 ^ k)" and "k = 0 \<or> 2 ^ 52 * (b * 2 ^ k) \<le> a"
proof -
  let ?q = "a div b"
  have qb: "?q * b \<le> a" by (simp add: mult.commute)
  have up: "?q < 2 ^ n \<Longrightarrow> a < 2 ^ n * b" for n
    using assms(1) by (simp add: div_less_iff_less_mult)
  show "a < 2 ^ 53 * (b * 2 ^ k)"
  proof (cases "?q = 0")
    case True
    then have "a < b" using assms(1) by (simp add: div_eq_0_iff)
    also have "b = 1 * (b * 1)" by simp
    also have "\<dots> \<le> 2 ^ 53 * (b * 2 ^ k)" by (intro mult_le_mono) simp_all
    finally show ?thesis .
  next
    case False
    then have "?q < 2 ^ Suc (msb_pos ?q)" using msb_pos_bounds[of ?q] by blast
    then have "a < 2 ^ Suc (msb_pos ?q) * b" by (rule up)
    also have "\<dots> \<le> 2 ^ (53 + k) * b"
      by (intro mult_right_mono power_increasing) (simp_all add: k_def)
    also have "\<dots> = 2 ^ 53 * (b * 2 ^ k)" by (simp only: power_add mult.assoc mult.commute[of b])
    finally show ?thesis .
  qed
  show "k = 0 \<or> 2 ^ 52 * (b * 2 ^ k) \<le> a"
  proof (cases "k = 0")
    case False
    then have ge: "52 + k = msb_pos ?q" by (simp add: k_def)
    then have "0 < ?q" using False by (cases "?q = 0") (simp_all add: k_def msb_pos.simps[of 0])
    then have "2 ^ (52 + k) \<le> ?q" using msb_pos_bounds[of ?q] unfolding ge by blast
    then have "2 ^ (52 + k) * b \<le> ?q * b" by (rule mult_right_mono) simp
    also note qb
    finally have "2 ^ (52 + k) * b \<le> a" .
    then show ?thesis by (simp only: power_add mult.assoc mult.commute[of b]) simp
  qed simp
qed

lemma nearest_mag_split:
  assumes "0 < b"
  obtains k r where "nearest_mag a b = k * 2 ^ 52 + r" and "r = round_half_even a (b * 2 ^ k)"
    and "r \<le> 2 ^ 53" and "k = 0 \<or> 2 ^ 52 \<le> r" and "k = 0 \<or> 2 ^ 52 * (b * 2 ^ k) \<le> a"
    and "mag_value 52 (nearest_mag a b) = r * 2 ^ k"
proof -
  define k r where d: "k = msb_pos (a div b) - 52" "r = round_half_even a (b * 2 ^ k)"
  note bits = quotient_bits[OF assms, of a, folded d(1)]
  have pos: "0 < b * 2 ^ k" using assms by simp
  have r: "r \<le> 2 ^ 53" "k = 0 \<or> 2 ^ 52 \<le> r"
    using half_even_le[OF pos, of a "2 ^ 53"] half_even_ge[OF pos, of "2 ^ 52" a] bits unfolding d(2)
    by (meson less_imp_le_nat, meson)
  have n: "nearest_mag a b = k * 2 ^ 52 + r" by (simp only: nearest_mag_def Let_def d)
  have v: "mag_value 52 (k * 2 ^ 52 + r) = r * 2 ^ k"
    by (rule mag_value_round[OF r(2)]) (use r(1) in simp)
  show ?thesis by (rule that[OF n d(2) r bits(2)]) (simp only: n v)
qed

lemma nearest_mag_ge:
  assumes b: "0 < b" and le: "mag_value 52 m * b \<le> a"
  shows "m \<le> nearest_mag a b"
proof (rule ccontr)
  assume less: "\<not> m \<le> nearest_mag a b"
  obtain k r where kr: "nearest_mag a b = k * 2 ^ 52 + r" "r = round_half_even a (b * 2 ^ k)"
      "k = 0 \<or> 2 ^ 52 \<le> r" "mag_value 52 (nearest_mag a b) = r * 2 ^ k"
    using nearest_mag_split[OF b] by metis
  have vlt: "r * 2 ^ k < mag_value 52 m" using less unfolding kr(4)[symmetric] by simp
  have "\<exists>v. mag_value 52 m = v * 2 ^ k"
  proof (cases "k = 0")
    case False
    define e f where ef: "e = m div 2 ^ 52" "f = m mod 2 ^ 52"
    have "Suc k * 2 ^ 52 \<le> m" using less kr(1,3) False by simp
    then have e: "Suc k \<le> e" unfolding ef by (simp add: less_eq_div_iff_mult_less_eq)
    then have "mag_value 52 m = (2 ^ 52 + f) * 2 ^ (e - 1)"
      by (simp only: mag_value_def flip: ef) simp
    also have "\<dots> = (2 ^ 52 + f) * 2 ^ (e - 1 - k) * 2 ^ k"
      using e by (simp only: mult.assoc flip: power_add) simp
    finally show ?thesis by blast
  qed simp
  then obtain v where v: "mag_value 52 m = v * 2 ^ k" by blast
  with vlt have "r < v" by simp
  moreover have "v * (b * 2 ^ k) \<le> a" using le unfolding v by (simp only: ac_simps)
  then have "v \<le> r" unfolding kr(2) using b by (intro half_even_ge) simp_all
  ultimately show False by simp
qed

lemma nearest_mag_le:
  assumes b: "0 < b" and le: "a \<le> mag_value 52 m * b"
  shows "nearest_mag a b \<le> m"
proof (rule ccontr)
  assume less: "\<not> nearest_mag a b \<le> m"
  obtain k r where kr: "nearest_mag a b = k * 2 ^ 52 + r" "r = round_half_even a (b * 2 ^ k)"
      "r \<le> 2 ^ 53" "k = 0 \<or> 2 ^ 52 * (b * 2 ^ k) \<le> a" 
    using nearest_mag_split[OF b] by metis
  show False
  proof (cases "k * 2 ^ 52 \<le> m \<and> (k = 0 \<or> 2 ^ 52 \<le> m - k * 2 ^ 52)")
    case True
    define r' where "r' = m - k * 2 ^ 52"
    have m: "m = k * 2 ^ 52 + r'" "k = 0 \<or> 2 ^ 52 \<le> r'" using True by (simp_all add: r'_def)
    have "r' < r" using less kr(1) m(1) by simp
    then have "mag_value 52 m = r' * 2 ^ k"
      unfolding m(1) using m(2) kr(3) by (intro mag_value_round) simp_all
    with le have "a \<le> r' * (b * 2 ^ k)" by (simp only: ac_simps)
    then have "r \<le> r'" unfolding kr(2) using b by (intro half_even_le) simp_all
    with \<open>r' < r\<close> show False by simp
  next
    case False
    then have k: "k \<noteq> 0" and m: "m < k * 2 ^ 52 + 2 ^ 52" by auto
    have "mag_value 52 m < mag_value 52 (k * 2 ^ 52 + 2 ^ 52)" using m by (simp only: mag_value_less_iff)
    also have "\<dots> = 2 ^ 52 * 2 ^ k" by (rule mag_value_round) simp_all
    finally have "mag_value 52 m * b < 2 ^ 52 * 2 ^ k * b" using b by (rule mult_strict_right_mono)
    also have "\<dots> = 2 ^ 52 * (b * 2 ^ k)" by (simp only: ac_simps)
    also have "\<dots> \<le> a" using kr(4) k by blast
    finally show False using le by simp
  qed
qed

lemma nearest_mag_exact: "0 < b \<Longrightarrow> nearest_mag (mag_value 52 m * b) b = m"
  by (intro antisym nearest_mag_le nearest_mag_ge) simp_all

section \<open>Rounding of signed values\<close>

definition f64_nearest :: "int \<Rightarrow> nat \<Rightarrow> f64" where
  "f64_nearest s b = f64_round (s < 0) (nat \<bar>s\<bar>) b"

lemma round_up_bound:
  assumes b: "0 < b" and x: "f64_finite x" and le: "int a \<le> f64_scaled x * int b"
  shows "nearest_mag a b < f64_inf_mag" and "int (mag_value 52 (nearest_mag a b)) \<le> f64_scaled x"
proof -
  define m where "m = f64_mag x"
  have m: "m < f64_inf_mag" using x by (simp add: f64_finite_def m_def)
  have "0 \<le> f64_scaled x * int b" using le by (rule order_trans[rotated]) simp
  then have "0 \<le> f64_scaled x" using b by (simp add: zero_le_mult_iff)
  then have v: "f64_scaled x = int (mag_value 52 m)"
    unfolding f64_scaled_def m_def[symmetric] signed_mag_def
    by (cases "f64_neg x") (simp_all split: if_splits)
  have "a \<le> mag_value 52 m * b" using le unfolding v by (simp only: of_nat_le_iff flip: of_nat_mult)
  then have n: "nearest_mag a b \<le> m" by (rule nearest_mag_le[OF b])
  with m show "nearest_mag a b < f64_inf_mag" by simp
  have "mag_value 52 (nearest_mag a b) \<le> mag_value 52 m"
    using n by (simp only: linorder_not_less[symmetric] mag_value_less_iff) simp
  then show "int (mag_value 52 (nearest_mag a b)) \<le> f64_scaled x" by (simp only: v of_nat_le_iff)
qed

lemma round_low_bound:
  assumes b: "0 < b" and le: "f64_scaled x * int b \<le> int a"
  shows "f64_scaled x \<le> int (mag_value 52 (nearest_mag a b))"
proof (cases "f64_neg x")
  case True
  have "- int (mag_value 52 (f64_mag x)) \<le> 0" by simp
  also have "0 \<le> int (mag_value 52 (nearest_mag a b))" by simp
  finally show ?thesis by (simp only: f64_scaled_def signed_mag_def True if_True)
next
  case False
  then have v: "f64_scaled x = int (mag_value 52 (f64_mag x))" by (simp add: f64_scaled_def signed_mag_def)
  have "mag_value 52 (f64_mag x) * b \<le> a" using le unfolding v by (simp only: of_nat_le_iff flip: of_nat_mult)
  then have "f64_mag x \<le> nearest_mag a b" by (rule nearest_mag_ge[OF b])
  then have "mag_value 52 (f64_mag x) \<le> mag_value 52 (nearest_mag a b)"
    by (simp only: linorder_not_less[symmetric] mag_value_less_iff) simp
  then show ?thesis by (simp only: v of_nat_le_iff)
qed

lemma f64_neg_of_fields: "f64_neg (f64_neg_of x) = (\<not> f64_neg x)" "f64_mag (f64_neg_of x) = f64_mag x"
proof -
  have lt: "unat x < 2 ^ 64" by (rule unat_lt_m2p_64)
  have "unat (f64_neg_of x) = (unat x + unat (0x8000000000000000 :: f64)) mod 2 ^ 64"
    unfolding f64_neg_of_def by (simp only: unat_word_ariths) simp
  also have "unat (0x8000000000000000 :: f64) = 2 ^ 63" by simp
  finally have u: "unat (f64_neg_of x) = (unat x + 2 ^ 63) mod 2 ^ 64" .
  have two: "(2 :: nat) ^ 64 = 2 ^ 63 + 2 ^ 63" by simp
  show "f64_neg (f64_neg_of x) = (\<not> f64_neg x)" "f64_mag (f64_neg_of x) = f64_mag x"
  proof -
    consider (low) "unat x < 2 ^ 63" | (high) c where "unat x = 2 ^ 63 + c" "c < 2 ^ 63"
      using lt unfolding two by (metis add_less_cancel_left le_Suc_ex not_less)
    then have "f64_neg (f64_neg_of x) = (\<not> f64_neg x) \<and> f64_mag (f64_neg_of x) = f64_mag x"
    proof cases
      case low
      then have "unat x + 2 ^ 63 < 2 ^ 64" unfolding two by simp
      then have "unat (f64_neg_of x) = unat x + 2 ^ 63" unfolding u by (rule mod_less)
      with low show ?thesis by (simp add: f64_neg_def f64_mag_def)
    next
      case high
      have "unat x + 2 ^ 63 = c + 2 ^ 64" unfolding two high by simp
      then have "unat (f64_neg_of x) = c mod 2 ^ 64" unfolding u by (simp only: mod_add_self2)
      also have "\<dots> = c" using high(2) by (intro mod_less) simp
      finally show ?thesis using high by (simp add: f64_neg_def f64_mag_def)
    qed
    then show "f64_neg (f64_neg_of x) = (\<not> f64_neg x)" "f64_mag (f64_neg_of x) = f64_mag x" by blast+
  qed
qed

lemma f64_neg_of_scaled: "f64_scaled (f64_neg_of x) = - f64_scaled x"
  unfolding f64_scaled_def f64_neg_of_fields signed_mag_def by simp

lemma f64_neg_of_finite [simp]: "f64_finite (f64_neg_of x) = f64_finite x"
  unfolding f64_finite_def f64_neg_of_fields ..

lemma f64_nearest_neg:
  assumes "s < 0"
  shows "f64_finite (f64_nearest s b) = f64_finite (f64_nearest (- s) b)"
    and "f64_finite (f64_nearest s b) \<Longrightarrow> f64_scaled (f64_nearest s b) = - f64_scaled (f64_nearest (- s) b)"
  using assms by (simp_all add: f64_nearest_def f64_round_def f64_make_finite f64_make_scaled signed_mag_def)

lemma f64_nearest_pos:
  assumes "0 < b" and "0 \<le> s" and "f64_finite hi" and "s \<le> f64_scaled hi * int b"
  shows "f64_finite (f64_nearest s b) \<and> f64_scaled (f64_nearest s b) \<le> f64_scaled hi \<and>
    0 \<le> f64_scaled (f64_nearest s b) \<and>
    (\<forall>lo. f64_scaled lo * int b \<le> s \<longrightarrow> f64_scaled lo \<le> f64_scaled (f64_nearest s b))"
proof -
  have s: "\<not> s < 0" "int (nat \<bar>s\<bar>) = s" using assms(2) by simp_all
  have "int (nat \<bar>s\<bar>) \<le> f64_scaled hi * int b" using assms(4) s(2) by (simp only:)
  note up = round_up_bound[OF assms(1,3) this]
  have v: "f64_scaled (f64_nearest s b) = int (mag_value 52 (nearest_mag (nat \<bar>s\<bar>) b))"
    using up(1) s(1) by (simp add: f64_nearest_def f64_round_def f64_make_scaled signed_mag_def)
  have "f64_finite (f64_nearest s b)"
    using up(1) by (simp only: f64_nearest_def f64_round_def f64_make_finite)
  moreover have "f64_scaled lo \<le> f64_scaled (f64_nearest s b)" if "f64_scaled lo * int b \<le> s" for lo
    unfolding v by (rule round_low_bound[OF assms(1)]) (use that s(2) in \<open>simp only:\<close>)
  ultimately show ?thesis using up(2) v by (simp only:) simp
qed

text \<open>A value between two numbers is rounded to a number between them.\<close>

lemma f64_nearest_between:
  assumes b: "0 < b" and fin: "f64_finite lo" "f64_finite hi"
    and lo: "f64_scaled lo * int b \<le> s" and hi: "s \<le> f64_scaled hi * int b"
  shows "f64_finite (f64_nearest s b)" and "f64_scaled lo \<le> f64_scaled (f64_nearest s b)"
    and "f64_scaled (f64_nearest s b) \<le> f64_scaled hi"
proof -
  have "f64_finite (f64_nearest s b) \<and> f64_scaled lo \<le> f64_scaled (f64_nearest s b) \<and>
    f64_scaled (f64_nearest s b) \<le> f64_scaled hi"
  proof (cases "s < 0")
    case False
    with f64_nearest_pos[OF b _ fin(2) hi] lo show ?thesis by simp
  next
    case True
    have n: "0 \<le> - s" "f64_finite (f64_neg_of lo)" "- s \<le> f64_scaled (f64_neg_of lo) * int b"
      using True fin lo by (simp_all add: f64_neg_of_scaled)
    have h: "f64_scaled (f64_neg_of hi) * int b \<le> - s" using hi by (simp add: f64_neg_of_scaled)
    from f64_nearest_pos[OF b n] h
    have "f64_finite (f64_nearest (- s) b)" "f64_scaled (f64_nearest (- s) b) \<le> - f64_scaled lo"
      "- f64_scaled hi \<le> f64_scaled (f64_nearest (- s) b)"
      unfolding f64_neg_of_scaled[symmetric] by blast+
    with f64_nearest_neg[OF True, of b] show ?thesis by simp
  qed
  then show "f64_finite (f64_nearest s b)" "f64_scaled lo \<le> f64_scaled (f64_nearest s b)"
    "f64_scaled (f64_nearest s b) \<le> f64_scaled hi" by blast+
qed

section \<open>Bounds of the operations\<close>

lemma f64_make_zero: "f64_finite (f64_make neg 0)" "f64_scaled (f64_make neg 0) = 0"
  by (simp_all add: f64_make_finite f64_make_scaled f64_inf_mag_def signed_mag_def)

lemma f64_add_between:
  assumes "f64_finite x" "f64_finite y" "f64_finite lo" "f64_finite hi"
    and "f64_scaled lo \<le> f64_scaled x + f64_scaled y" and "f64_scaled x + f64_scaled y \<le> f64_scaled hi"
  shows "f64_finite (f64_add x y)" and "f64_scaled lo \<le> f64_scaled (f64_add x y)"
    and "f64_scaled (f64_add x y) \<le> f64_scaled hi"
proof -
  let ?s = "f64_scaled x + f64_scaled y"
  have "f64_add x y = (if ?s = 0 then f64_make (f64_neg x \<and> f64_neg y) 0 else f64_nearest ?s 1)"
    using assms(1,2) by (simp add: f64_add_def f64_finite_not_nan f64_nearest_def Let_def)
  moreover note f64_nearest_between[of 1 lo hi ?s]
  ultimately show "f64_finite (f64_add x y)" "f64_scaled lo \<le> f64_scaled (f64_add x y)"
    "f64_scaled (f64_add x y) \<le> f64_scaled hi"
    using assms(3-) by (simp_all add: f64_make_zero)
qed

lemma f64_sub_between:
  assumes "f64_finite x" "f64_finite y" "f64_finite lo" "f64_finite hi"
    and "f64_scaled lo \<le> f64_scaled x - f64_scaled y" and "f64_scaled x - f64_scaled y \<le> f64_scaled hi"
  shows "f64_finite (f64_sub x y)" and "f64_scaled lo \<le> f64_scaled (f64_sub x y)"
    and "f64_scaled (f64_sub x y) \<le> f64_scaled hi"
  unfolding f64_sub_def using assms
  by (intro f64_add_between[of x "f64_neg_of y" lo hi]; simp add: f64_neg_of_scaled)+

lemma nearest_mag_zero: "0 < b \<Longrightarrow> nearest_mag 0 b = 0"
  using nearest_mag_exact[of b 0] by (simp add: mag_value_def)

text \<open>A product or quotient of finite numbers is the rounded exact value, or a zero.\<close>

lemma f64_round_signs:
  assumes "0 < b" and "s = signed_mag neg a"
  shows "f64_round neg a b = (if s = 0 then f64_make neg 0 else f64_nearest s b)"
  using assms by (cases "a = 0") (simp_all add: f64_round_def f64_nearest_def signed_mag_def nearest_mag_zero)

lemma f64_mul_nearest:
  assumes "f64_finite x" "f64_finite y"
  shows "\<exists>neg. f64_mul x y = (if f64_scaled x * f64_scaled y = 0 then f64_make neg 0
     else f64_nearest (f64_scaled x * f64_scaled y) (2 ^ 1074))"
proof -
  have "f64_mul x y = f64_round (f64_neg x \<noteq> f64_neg y) (mag_value 52 (f64_mag x) * mag_value 52 (f64_mag y)) (2 ^ 1074)"
    using assms by (simp only: f64_mul_def f64_finite_not_nan) simp
  moreover have "f64_scaled x * f64_scaled y =
      signed_mag (f64_neg x \<noteq> f64_neg y) (mag_value 52 (f64_mag x) * mag_value 52 (f64_mag y))"
    by (simp add: f64_scaled_def signed_mag_def)
  ultimately show ?thesis by (metis f64_round_signs zero_less_numeral zero_less_power)
qed

lemma f64_mul_between:
  assumes "f64_finite x" "f64_finite y" "f64_finite lo" "f64_finite hi"
    and "f64_scaled lo * 2 ^ 1074 \<le> f64_scaled x * f64_scaled y"
    and "f64_scaled x * f64_scaled y \<le> f64_scaled hi * 2 ^ 1074"
  shows "f64_finite (f64_mul x y)" and "f64_scaled lo \<le> f64_scaled (f64_mul x y)"
    and "f64_scaled (f64_mul x y) \<le> f64_scaled hi"
proof -
  let ?s = "f64_scaled x * f64_scaled y"
  obtain neg where eq: "f64_mul x y = (if ?s = 0 then f64_make neg 0 else f64_nearest ?s (2 ^ 1074))"
    using f64_mul_nearest[OF assms(1,2)] by blast
  have c: "int (2 ^ 1074) = 2 ^ 1074" by (simp only: of_nat_power of_nat_numeral)
  have p: "(0 :: nat) < 2 ^ 1074" "(0 :: int) < 2 ^ 1074" by (simp_all only: zero_less_power zero_less_numeral)
  note b = f64_nearest_between[OF p(1) assms(3,4), of ?s, unfolded c, OF assms(5,6)]
  have z: "?s = 0 \<Longrightarrow> f64_scaled lo \<le> 0 \<and> 0 \<le> f64_scaled hi"
    using assms(5,6) p(2) by (simp only: mult_le_0_iff zero_le_mult_iff) linarith
  show "f64_finite (f64_mul x y)" "f64_scaled lo \<le> f64_scaled (f64_mul x y)"
    "f64_scaled (f64_mul x y) \<le> f64_scaled hi"
    unfolding eq using b z by (auto simp only: f64_make_zero split: if_splits)
qed

end
