(* ===== verification/Go_Decimal.thy ===== *)
theory Go_Decimal
  imports Go_Arith Json_Text
begin

text \<open>
  The conversions of package strconv that encoding/json uses: a number literal to a
  \<^verbatim>\<open>float64\<close> (correctly rounded; out of range is an error), to an integer of some width, and the
  shortest decimal that reads back as a given float, laid out as \<^verbatim>\<open>json.Marshal\<close> lays it out. The
  main facts are the round trips.
\<close>

section \<open>Digits\<close>

definition nat_of_digits :: "gostring \<Rightarrow> nat" where
  "nat_of_digits ds = foldl (\<lambda>n c. n * 10 + (byte_of c - 0x30)) 0 ds"

lemma nat_of_digits_simps [simp]:
  "nat_of_digits [] = 0" "nat_of_digits (ds @ [c]) = nat_of_digits ds * 10 + (byte_of c - 0x30)"
  by (simp_all add: nat_of_digits_def)

lemma nat_of_digits_append: "nat_of_digits (xs @ ys) = nat_of_digits xs * 10 ^ length ys + nat_of_digits ys"
proof (induction ys rule: rev_induct)
  case (snoc c ys)
  have "nat_of_digits (xs @ ys @ [c]) = nat_of_digits ((xs @ ys) @ [c])" by simp
  with snoc show ?case by (simp only: nat_of_digits_simps) (simp add: algebra_simps)
qed simp

lemma nat_of_zeros [simp]: "nat_of_digits (replicate n CHR ''0'') = 0"
proof (induction n)
  case (Suc n)
  have "replicate (Suc n) CHR ''0'' = replicate n CHR ''0'' @ [CHR ''0'']" by (simp add: replicate_append_same)
  with Suc show ?case by (simp only: nat_of_digits_simps) simp
qed simp

lemma byte_of_digit: "d < 10 \<Longrightarrow> byte_of (char_of (48 + d)) = 48 + d"
  by (simp add: of_char_of)

lemma digits_show_nat: "digits (show_nat n)"
proof (induction n rule: less_induct)
  case (less n)
  show ?case
  proof (cases "n < 10")
    case True
    then show ?thesis by (subst show_nat.simps) (simp add: digits_def is_digit_def byte_of_digit)
  next
    case False
    then have "digits (show_nat (n div 10))" by (intro less) simp
    with False show ?thesis
      by (subst show_nat.simps) (simp add: digits_def is_digit_def byte_of_digit)
  qed
qed

lemma nat_of_show_nat [simp]: "nat_of_digits (show_nat n) = n"
proof (induction n rule: less_induct)
  case (less n)
  show ?case
  proof (cases "n < 10")
    case True
    then show ?thesis by (subst show_nat.simps) (simp add: nat_of_digits_def byte_of_digit)
  next
    case False
    then have "nat_of_digits (show_nat (n div 10)) = n div 10" by (intro less) simp
    with False show ?thesis by (subst show_nat.simps) (simp add: byte_of_digit)
  qed
qed

lemma hd_show_nat: "0 < n \<Longrightarrow> hd (show_nat n) \<noteq> CHR ''0''"
proof (induction n rule: less_induct)
  case (less n)
  show ?case
  proof (cases "n < 10")
    case True
    have "byte_of (hd (show_nat n)) = 48 + n" using True by (subst show_nat.simps) (simp add: byte_of_digit)
    with less.prems show ?thesis by auto
  next
    case False
    then have "hd (show_nat (n div 10)) \<noteq> CHR ''0''" by (intro less) simp_all
    with False show ?thesis by (subst show_nat.simps) simp
  qed
qed

lemma length_show_nat: "n < 10 ^ k \<Longrightarrow> 0 < k \<Longrightarrow> length (show_nat n) \<le> k"
proof (induction k arbitrary: n)
  case (Suc k)
  show ?case
  proof (cases "n < 10")
    case True
    then show ?thesis by (subst show_nat.simps) simp
  next
    case False
    then have "k \<noteq> 0" using Suc.prems by (cases k) simp_all
    moreover have "n div 10 < 10 ^ k" using Suc.prems by (simp add: less_mult_imp_div_less mult.commute)
    ultimately have "length (show_nat (n div 10)) \<le> k" using Suc.IH by simp
    with False show ?thesis by (subst show_nat.simps) simp
  qed
qed simp

section \<open>Reading\<close>

text \<open>The exponent, as \<^verbatim>\<open>strconv\<close> accumulates it: it stops growing at 10000.\<close>

definition capped_exp :: "gostring \<Rightarrow> nat" where
  "capped_exp ds = foldl (\<lambda>e c. if e < 10000 then e * 10 + (byte_of c - 0x30) else e) 0 ds"

definition number_exp :: "json_number \<Rightarrow> int" where
  "number_exp n = (case num_exp n of None \<Rightarrow> 0
     | Some (neg, ds) \<Rightarrow> if neg then - int (capped_exp ds) else int (capped_exp ds))"

text \<open>The magnitude nearest to \<open>m * 10 ^ e\<close>.\<close>

definition decimal_mag :: "nat \<Rightarrow> int \<Rightarrow> nat" where
  "decimal_mag m e = (if 0 \<le> e then nearest_mag (m * 10 ^ nat e * 2 ^ 1074) 1
                      else nearest_mag (m * 2 ^ 1074) (10 ^ nat (- e)))"

definition frac_digits :: "json_number \<Rightarrow> gostring" where
  "frac_digits n = (case num_frac n of None \<Rightarrow> [] | Some ds \<Rightarrow> ds)"

definition ParseFloat :: "json_number \<Rightarrow> f64 option" where
  "ParseFloat n =
     (let mag = decimal_mag (nat_of_digits (num_int n @ frac_digits n))
                  (number_exp n - int (length (frac_digits n)))
      in if mag < f64_inf_mag then Some (f64_make (num_neg n) mag) else None)"

definition ParseInt :: "nat \<Rightarrow> json_number \<Rightarrow> int option" where
  "ParseInt bits n =
     (let v = signed_mag (num_neg n) (nat_of_digits (num_int n))
      in if num_frac n = None \<and> num_exp n = None \<and> - (2 ^ (bits - 1)) \<le> v \<and> v < 2 ^ (bits - 1)
         then Some v else None)"

definition ParseUint :: "nat \<Rightarrow> json_number \<Rightarrow> nat option" where
  "ParseUint bits n =
     (if num_frac n = None \<and> num_exp n = None \<and> \<not> num_neg n \<and> nat_of_digits (num_int n) < 2 ^ bits
      then Some (nat_of_digits (num_int n)) else None)"

lemma ParseFloat_finite: "ParseFloat n = Some x \<Longrightarrow> f64_finite x"
  by (auto simp: ParseFloat_def Let_def f64_make_finite split: if_splits)

section \<open>Writing\<close>

definition int_number :: "int \<Rightarrow> json_number" where
  "int_number i = \<lparr>num_neg = i < 0, num_int = show_nat (nat \<bar>i\<bar>), num_frac = None, num_exp = None\<rparr>"

text \<open>The multiple of \<open>10 ^ q\<close> next to the float that reads back as it: the one below, the one
  above, or the nearer one when both do.\<close>

definition decimal_candidate :: "nat \<Rightarrow> int \<Rightarrow> nat option" where
  "decimal_candidate mag q =
     (let v = mag_value 52 mag;
          a = (if 0 \<le> q then v else v * 10 ^ nat (- q));
          b = (if 0 \<le> q then 2 ^ 1074 * 10 ^ nat q else 2 ^ 1074);
          lo = a div b; hi = (if a mod b = 0 then lo else lo + 1);
          okdown = (decimal_mag lo q = mag); okup = (decimal_mag hi q = mag)
      in if okdown \<and> okup then Some (round_half_even a b)
         else if okdown then Some lo else if okup then Some hi else None)"

text \<open>The fewest digits, from the highest power of ten down; at \<open>10 ^ -1074\<close> every float is exact.\<close>

primrec shortest_from :: "nat \<Rightarrow> nat \<Rightarrow> nat \<times> int" where
  "shortest_from mag 0 = (case decimal_candidate mag (- 1074) of Some m \<Rightarrow> (m, - 1074) | None \<Rightarrow> (0, 0))"
| "shortest_from mag (Suc k) =
     (case decimal_candidate mag (int (Suc k) - 1074) of
        Some m \<Rightarrow> (m, int (Suc k) - 1074)
      | None \<Rightarrow> shortest_from mag k)"

definition shortest_decimal :: "nat \<Rightarrow> nat \<times> int" where
  "shortest_decimal mag = shortest_from mag 1383"

text \<open>The layout of the digits \<open>m\<close> with the exponent \<open>q\<close>: plain, or scientific when asked for.\<close>

definition layout :: "bool \<Rightarrow> bool \<Rightarrow> nat \<Rightarrow> int \<Rightarrow> json_number" where
  "layout neg sci m q =
     (let D = show_nat m; n = int (length D); dp = n + q
      in if sci then
           \<lparr>num_neg = neg, num_int = take 1 D, num_frac = (if length D = 1 then None else Some (drop 1 D)),
            num_exp = Some (dp - 1 < 0, show_nat (nat \<bar>dp - 1\<bar>))\<rparr>
         else if dp \<le> 0 then
           \<lparr>num_neg = neg, num_int = ''0'', num_frac = Some (replicate (nat (- dp)) CHR ''0'' @ D), num_exp = None\<rparr>
         else if n \<le> dp then
           \<lparr>num_neg = neg, num_int = D @ replicate (nat q) CHR ''0'', num_frac = None, num_exp = None\<rparr>
         else
           \<lparr>num_neg = neg, num_int = take (nat dp) D, num_frac = Some (drop (nat dp) D), num_exp = None\<rparr>)"

text \<open>The format is scientific below 1e-6 and from 1e21 on.\<close>

definition float_number :: "f64 \<Rightarrow> json_number" where
  "float_number x =
     (if f64_mag x = 0 then \<lparr>num_neg = f64_neg x, num_int = ''0'', num_frac = None, num_exp = None\<rparr>
      else
        let (m, q) = shortest_decimal (f64_mag x);
            sci = (f64_mag x < decimal_mag 1 (- 6) \<or> decimal_mag 1 21 \<le> f64_mag x)
        in layout (f64_neg x) sci m q)"

section \<open>Round trips\<close>

lemma number_ok_int: "number_ok (int_number i)"
  using digits_show_nat[of "nat \<bar>i\<bar>"] hd_show_nat[of "nat \<bar>i\<bar>"]
  by (cases "i = 0") (auto simp: number_ok_def int_number_def show_nat.simps[of 0])

lemma ParseInt_int: "- (2 ^ (bits - 1)) \<le> i \<Longrightarrow> i < 2 ^ (bits - 1) \<Longrightarrow> ParseInt bits (int_number i) = Some i"
  by (auto simp: ParseInt_def int_number_def signed_mag_def Let_def)

lemma ParseUint_nat: "n < 2 ^ bits \<Longrightarrow> ParseUint bits (int_number (int n)) = Some n"
  by (simp add: ParseUint_def int_number_def)

text \<open>Rounding does not depend on how the quotient is written.\<close>

lemma nearest_mag_unique:
  assumes "0 < b" "0 < c"
  shows "nearest_mag (a * c) (b * c) = nearest_mag a b"
proof -
  have q: "a * c div (b * c) = a div b" using assms(2) by simp
  have half: "round_half_even (x * c) (y * c) = round_half_even x y" if "0 < y" for x y
  proof -
    have "x * c div (y * c) = x div y" "x * c mod (y * c) = x mod y * c"
      using assms(2) by (simp_all add: mult_mod_left)
    moreover have "2 * (x mod y * c) < y * c \<longleftrightarrow> 2 * (x mod y) < y" "2 * (x mod y * c) = y * c \<longleftrightarrow> 2 * (x mod y) = y"
      using assms(2) by (simp_all only: mult.assoc[symmetric] mult_less_cancel2 mult_cancel2) simp_all
    ultimately show ?thesis by (simp only: round_half_even_def Let_def)
  qed
  have "b * c * 2 ^ k = b * 2 ^ k * c" "0 < b * 2 ^ k" for k using assms(1) by (simp_all only: ac_simps) simp
  then show ?thesis by (simp only: nearest_mag_def Let_def q half)
qed

lemma candidate_reads:
  assumes "decimal_candidate mag q = Some m"
  shows "decimal_mag m q = mag"
proof -
  define a where "a = (if 0 \<le> q then mag_value 52 mag else mag_value 52 mag * 10 ^ nat (- q))"
  define b :: nat where "b = (if 0 \<le> q then 2 ^ 1074 * 10 ^ nat q else 2 ^ 1074)"
  define hi where "hi = (if a mod b = 0 then a div b else a div b + 1)"
  have "round_half_even a b = a div b \<or> round_half_even a b = hi"
    by (auto simp: round_half_even_def hi_def Let_def)
  moreover have "decimal_candidate mag q = (if decimal_mag (a div b) q = mag \<and> decimal_mag hi q = mag
      then Some (round_half_even a b) else if decimal_mag (a div b) q = mag then Some (a div b)
      else if decimal_mag hi q = mag then Some hi else None)"
    unfolding decimal_candidate_def Let_def a_def b_def hi_def by (rule refl)
  ultimately show ?thesis using assms by (auto split: if_splits)
qed

lemma ten_split: "(10 :: nat) ^ k = 5 ^ k * 2 ^ k"
  by (simp only: power_mult_distrib[symmetric]) simp

lemma exact_candidate: "decimal_candidate mag (- 1074) \<noteq> None"
proof -
  define v where "v = mag_value 52 mag"
  have neg: "(0 \<le> (- 1074 :: int)) = False" "nat (- (- 1074)) = 1074" by simp_all
  have "v * 10 ^ k div 2 ^ k = v * 5 ^ k" for k
    by (simp only: ten_split mult.assoc[symmetric]) simp
  note d = this[of 1074]
  have "decimal_mag (v * 5 ^ 1074) (- 1074) = nearest_mag (v * 5 ^ 1074 * 2 ^ 1074) (10 ^ 1074)"
    by (simp only: decimal_mag_def neg if_False)
  also have "v * 5 ^ 1074 * 2 ^ 1074 = v * 10 ^ 1074" by (simp only: ten_split mult.assoc)
  also have "nearest_mag (v * 10 ^ 1074) (10 ^ 1074) = mag"
    unfolding v_def by (rule nearest_mag_exact) (simp only: zero_less_power zero_less_numeral)
  finally have ok: "decimal_mag (v * 5 ^ 1074) (- 1074) = mag" .
  show ?thesis
    unfolding decimal_candidate_def Let_def v_def[symmetric] neg if_False d ok
    by (split if_split, intro conjI impI) (simp_all only: simp_thms if_True option.distinct split: if_split)
qed

lemma shortest_reads:
  "shortest_from mag k = (m, q) \<Longrightarrow> decimal_mag m q = mag \<and> - 1074 \<le> q \<and> q \<le> int k - 1074 \<and>
     decimal_candidate mag q = Some m"
proof (induction k)
  case 0
  then show ?case using exact_candidate[of mag] candidate_reads[of mag "- 1074" m] by (auto split: option.splits)
next
  case (Suc k)
  then show ?case using candidate_reads[of mag "int (Suc k) - 1074" m] by (auto split: option.splits)
qed

lemma capped_small: "nat_of_digits ds < 10000 \<Longrightarrow> capped_exp ds = nat_of_digits ds"
proof (induction ds rule: rev_induct)
  case (snoc c ds)
  then have "nat_of_digits ds < 10000" by simp
  with snoc.IH have "foldl (\<lambda>e c. if e < 10000 then e * 10 + (byte_of c - 0x30) else e) 0 ds = nat_of_digits ds"
    by (simp add: capped_exp_def)
  with \<open>nat_of_digits ds < 10000\<close> show ?case by (simp add: capped_exp_def)
qed (simp add: capped_exp_def)

lemma decimal_mag_shift: "0 \<le> q \<Longrightarrow> decimal_mag (m * 10 ^ nat q) 0 = decimal_mag m q"
  by (simp only: decimal_mag_def if_True order_refl) simp

lemma layout_reads:
  assumes m: "0 < m" and len: "length (show_nat m) \<le> 5000" and q: "- 2000 \<le> q" "q \<le> 2000"
  shows "decimal_mag (nat_of_digits (num_int (layout neg sci m q) @ frac_digits (layout neg sci m q)))
      (number_exp (layout neg sci m q) - int (length (frac_digits (layout neg sci m q)))) = decimal_mag m q"
    and "number_ok (layout neg sci m q)" and "num_neg (layout neg sci m q) = neg"
proof -
  define D where "D = show_nat m"
  have D: "digits D" "hd D \<noteq> CHR ''0''" "nat_of_digits D = m" "D \<noteq> []" "length D \<le> 5000"
    using digits_show_nat[of m] hd_show_nat[OF m] len by (simp_all add: D_def digits_def)
  have part: "digits (take k D)" "hd (take k D) \<noteq> CHR ''0''" if "0 < k" for k
    using D that by (auto simp: digits_def dest: in_set_takeD)
  have rest: "digits (drop k D)" if "k < length D" for k
    using D that by (auto simp: digits_def dest: in_set_dropD)
  let ?n = "int (length D)" and ?N = "layout neg sci m q"
  let ?goal = "decimal_mag (nat_of_digits (num_int ?N @ frac_digits ?N)) (number_exp ?N - int (length (frac_digits ?N))) =
    decimal_mag m q \<and> number_ok ?N \<and> num_neg ?N = neg"
  have N: "?N = (let dp = ?n + q in
      if sci then
           \<lparr>num_neg = neg, num_int = take 1 D, num_frac = (if length D = 1 then None else Some (drop 1 D)),
            num_exp = Some (dp - 1 < 0, show_nat (nat \<bar>dp - 1\<bar>))\<rparr>
         else if dp \<le> 0 then
           \<lparr>num_neg = neg, num_int = ''0'', num_frac = Some (replicate (nat (- dp)) CHR ''0'' @ D), num_exp = None\<rparr>
         else if ?n \<le> dp then
           \<lparr>num_neg = neg, num_int = D @ replicate (nat q) CHR ''0'', num_frac = None, num_exp = None\<rparr>
         else
           \<lparr>num_neg = neg, num_int = take (nat dp) D, num_frac = Some (drop (nat dp) D), num_exp = None\<rparr>)"
    by (simp only: layout_def D_def Let_def)
  consider (sci) sci | (small) "\<not> sci" "?n + q \<le> 0" | (large) "\<not> sci" "0 < ?n + q" "0 \<le> q"
    | (mid) "\<not> sci" "0 < ?n + q" "q < 0" by linarith
  then have ?goal
  proof cases
    case sci
    have Ns: "?N = \<lparr>num_neg = neg, num_int = take 1 D, num_frac = (if length D = 1 then None else Some (drop 1 D)),
        num_exp = Some (?n + q - 1 < 0, show_nat (nat \<bar>?n + q - 1\<bar>))\<rparr>"
      by (subst N) (simp only: Let_def sci if_True)
    have fr: "frac_digits ?N = drop 1 D" using D(4) by (cases D) (auto simp: Ns frac_digits_def)
    have "number_exp ?N = ?n + q - 1"
    proof -
      have "nat \<bar>?n + q - 1\<bar> < 10000" using D(5) q by linarith
      then have "capped_exp (show_nat (nat \<bar>?n + q - 1\<bar>)) = nat \<bar>?n + q - 1\<bar>" by (simp add: capped_small)
      then have "number_exp ?N = (if ?n + q - 1 < 0 then - int (nat \<bar>?n + q - 1\<bar>) else int (nat \<bar>?n + q - 1\<bar>))"
        by (simp only: Ns number_exp_def json_number.simps option.case prod.case)
      then show ?thesis by simp
    qed
    moreover have "num_int ?N @ frac_digits ?N = D" unfolding fr by (simp add: Ns)
    moreover have "int (length (frac_digits ?N)) = ?n - 1" using D(4) by (cases D) (simp_all add: fr)
    moreover have "number_ok ?N"
    proof -
      have "length D = 1 \<or> 1 < length D" using D(4) by (cases "length D") auto
      then show ?thesis using part[of 1] rest[of 1] digits_show_nat by (auto simp: Ns number_ok_def)
    qed
    moreover have "num_neg ?N = neg" by (simp add: Ns)
    ultimately show ?thesis by (simp add: D(3))
  next
    case small
    have Ns: "?N = \<lparr>num_neg = neg, num_int = ''0'', num_frac = Some (replicate (nat (- (?n + q))) CHR ''0'' @ D),
        num_exp = None\<rparr>"
      by (subst N) (simp only: Let_def small if_True if_False)
    have "number_ok ?N" using D(1) by (auto simp: Ns number_ok_def digits_def)
    moreover have "nat_of_digits (''0'' @ replicate (nat (- (?n + q))) CHR ''0'' @ D) = m"
    proof -
      have "nat_of_digits ''0'' = 0" by (simp add: nat_of_digits_def)
      then show ?thesis by (simp only: nat_of_digits_append nat_of_zeros D(3))
    qed
    moreover have "int (length (replicate (nat (- (?n + q))) CHR ''0'' @ D)) = - q" using small(2) by simp
    moreover have "0 - - q = q" by simp
    ultimately show ?thesis by (simp only: Ns frac_digits_def number_exp_def json_number.simps option.case simp_thms)
  next
    case large
    have "\<not> ?n + q \<le> 0" "?n \<le> ?n + q" using large by simp_all
    then have Ns: "?N = \<lparr>num_neg = neg, num_int = D @ replicate (nat q) CHR ''0'', num_frac = None, num_exp = None\<rparr>"
      by (subst N) (simp only: Let_def large(1) if_True if_False)
    have "number_ok ?N" using D by (auto simp: Ns number_ok_def digits_def)
    with D decimal_mag_shift[OF large(3), of m] show ?thesis
      by (simp add: Ns frac_digits_def number_exp_def nat_of_digits_append)
  next
    case mid
    have "\<not> ?n + q \<le> 0" "\<not> ?n \<le> ?n + q" using mid by simp_all
    then have Ns: "?N = \<lparr>num_neg = neg, num_int = take (nat (?n + q)) D, num_frac = Some (drop (nat (?n + q)) D),
        num_exp = None\<rparr>"
      by (subst N) (simp only: Let_def mid(1) if_True if_False)
    have k: "0 < nat (?n + q)" "nat (?n + q) < length D" using mid by linarith+
    have "number_ok ?N" using part[OF k(1)] rest[OF k(2)] by (auto simp: Ns number_ok_def)
    moreover have "int (length (drop (nat (?n + q)) D)) = - q" using k mid by simp
    ultimately show ?thesis using D(3) by (simp add: Ns frac_digits_def number_exp_def del: length_drop)
  qed
  then show "decimal_mag (nat_of_digits (num_int ?N @ frac_digits ?N)) (number_exp ?N - int (length (frac_digits ?N))) =
    decimal_mag m q" "number_ok ?N" "num_neg ?N = neg" by blast+
qed

text \<open>The decimal found has few enough digits for the exponent to be read back.\<close>

lemma mag_value_finite: "mag < f64_inf_mag \<Longrightarrow> mag_value 52 mag < 2 ^ 2098"
proof -
  assume "mag < f64_inf_mag"
  then have "mag_value 52 mag < mag_value 52 (2047 * 2 ^ 52 + 0)" by (simp only: mag_value_less_iff f64_inf_mag_def add_0_right)
  also have "\<dots> = 2 ^ 52 * 2 ^ 2046" by (subst mag_value_join) simp_all
  also have "\<dots> = 2 ^ 2098" by (simp only: power_add[symmetric]) simp
  finally show ?thesis .
qed

lemma candidate_length:
  assumes cand: "decimal_candidate mag q = Some m" and mag: "mag < f64_inf_mag" and q: "- 1074 \<le> q"
  shows "length (show_nat m) \<le> 5000"
proof -
  define v where "v = mag_value 52 mag"
  define a where "a = (if 0 \<le> q then v else v * 10 ^ nat (- q))"
  define b :: nat where "b = (if 0 \<le> q then 2 ^ 1074 * 10 ^ nat q else 2 ^ 1074)"
  have le: "a \<le> v * 10 ^ 1074"
  proof (cases "0 \<le> q")
    case True
    have "v * 1 \<le> v * 10 ^ 1074" by (intro mult_le_mono order_refl one_le_power) simp
    with True show ?thesis by (simp only: a_def if_True mult_1_right)
  next
    case False
    have "(10 :: nat) ^ nat (- q) \<le> 10 ^ 1074" using q by (intro power_increasing) simp_all
    then show ?thesis unfolding a_def if_not_P[OF False] by (rule mult_le_mono[OF order_refl])
  qed
  have "m \<le> a div b + 1"
  proof -
    have "round_half_even a b \<le> a div b + 1" by (simp add: round_half_even_def Let_def)
    moreover have "decimal_candidate mag q = (let hi = (if a mod b = 0 then a div b else a div b + 1) in
      if decimal_mag (a div b) q = mag \<and> decimal_mag hi q = mag
      then Some (round_half_even a b) else if decimal_mag (a div b) q = mag then Some (a div b)
      else if decimal_mag hi q = mag then Some hi else None)"
      unfolding decimal_candidate_def Let_def a_def b_def v_def by (rule refl)
    ultimately show ?thesis using cand by (auto simp: Let_def split: if_splits)
  qed
  also have "\<dots> \<le> a + 1" by simp
  also have "\<dots> \<le> v * 10 ^ 1074 + 1" by (rule add_right_mono[OF le])
  also have "v * 10 ^ 1074 + 1 \<le> 10 ^ 2098 * 10 ^ 1074"
  proof -
    have "v < 2 ^ 2098" unfolding v_def by (rule mag_value_finite[OF mag])
    also have "(2 :: nat) ^ 2098 \<le> 10 ^ 2098" by (rule power_mono) simp_all
    finally have "Suc v * 10 ^ 1074 \<le> 10 ^ 2098 * 10 ^ 1074" by (intro mult_le_mono order_refl) (rule Suc_leI)
    moreover have "v * 10 ^ 1074 + 1 \<le> Suc v * 10 ^ 1074"
      by (simp only: mult_Suc) (simp only: add.commute[of "10 ^ 1074"] add_le_cancel_left one_le_power one_le_numeral)
    ultimately show ?thesis by (rule order_trans[rotated])
  qed
  also have "(10 :: nat) ^ 2098 * 10 ^ 1074 < 10 ^ 5000"
  proof -
    have pow: "(10 :: nat) ^ j * 10 ^ k < 10 ^ n" if "j + k < n" for j k n
      using that by (simp only: power_add[symmetric] power_strict_increasing_iff one_less_numeral_iff semiring_norm)
    show ?thesis by (rule pow) simp
  qed
  finally have "m < 10 ^ 5000" .
  then show ?thesis by (rule length_show_nat) simp
qed

lemma float_number_layout:
  assumes "f64_finite x" "f64_mag x \<noteq> 0"
  obtains sci m q where "float_number x = layout (f64_neg x) sci m q" "0 < m" "length (show_nat m) \<le> 5000"
    "- 2000 \<le> q" "q \<le> 2000" "decimal_mag m q = f64_mag x"
proof -
  obtain m q where s: "shortest_decimal (f64_mag x) = (m, q)" by (cases "shortest_decimal (f64_mag x)")
  note r = shortest_reads[of "f64_mag x" 1383 m q, folded shortest_decimal_def, OF s]
  have "m \<noteq> 0"
  proof
    assume "m = 0"
    then have "decimal_mag m q = 0" by (simp add: decimal_mag_def nearest_mag_zero)
    with r assms(2) show False by simp
  qed
  moreover have "length (show_nat m) \<le> 5000"
    using r assms(1) by (intro candidate_length[of "f64_mag x" q]) (simp_all add: f64_finite_def)
  moreover obtain sci where "float_number x = layout (f64_neg x) sci m q"
    using assms(2) s by (simp add: float_number_def)
  ultimately show ?thesis using that r by auto
qed

theorem ParseFloat_float_number: "f64_finite x \<Longrightarrow> ParseFloat (float_number x) = Some x"
  and float_number_ok: "f64_finite x \<Longrightarrow> number_ok (float_number x)"
proof -
  assume fin: "f64_finite x"
  have "ParseFloat (float_number x) = Some x \<and> number_ok (float_number x)"
  proof (cases "f64_mag x = 0")
    case True
    have "decimal_mag 0 0 = 0" by (simp add: decimal_mag_def nearest_mag_zero)
    then have "ParseFloat (float_number x) = Some (f64_make (f64_neg x) 0)"
      by (simp add: float_number_def True ParseFloat_def frac_digits_def number_exp_def nat_of_digits_def f64_inf_mag_def)
    then show ?thesis
      using f64_make_same[OF fin] True by (simp add: float_number_def number_ok_def digits_def)
  next
    case False
    obtain sci m q where l: "float_number x = layout (f64_neg x) sci m q" "0 < m" "length (show_nat m) \<le> 5000"
      "- 2000 \<le> q" "q \<le> 2000" "decimal_mag m q = f64_mag x"
      using float_number_layout[OF fin False] by metis
    note r = layout_reads[OF l(2-5), of "f64_neg x" sci, folded l(1)]
    have "f64_mag x < f64_inf_mag" using fin by (simp add: f64_finite_def)
    then have "ParseFloat (float_number x) = Some (f64_make (f64_neg x) (f64_mag x))"
      by (simp only: ParseFloat_def Let_def r(1,3) l(6) if_True)
    with r(2) f64_make_same[OF fin] show ?thesis by simp
  qed
  then show "ParseFloat (float_number x) = Some x" "number_ok (float_number x)" by blast+
qed

end
