(* ===== verification/Json_Decode.thy ===== *)
theory Json_Decode
  imports Api_Handler Json_Wellformed Go_Decimal "HOL-Library.Char_ord" "HOL-Library.List_Lexorder"
begin

text \<open>
  How package encoding/json fills the structs of the server from a tree: fields are matched
  without regard to case, null leaves a field as it is (a map or a pointer becomes nil), unknown
  members are skipped, a repeated member is decoded again into what is there, and any value of
  the wrong type or out of range makes the call fail. The handlers take these functions from
  \<^typ>\<open>go_env\<close>; \<open>json_env\<close> puts them there. The texts of the errors are a parameter.
\<close>

section \<open>Names\<close>

text \<open>Case folding as \<^verbatim>\<open>foldName\<close> does it where it matters for ASCII names: letters, the long s
  (U+017F) and the Kelvin sign (U+212A).\<close>

definition upper :: "char \<Rightarrow> char" where
  "upper c = (if 0x61 \<le> byte_of c \<and> byte_of c \<le> 0x7A then char_of (byte_of c - 0x20) else c)"

function fold_name :: "gostring \<Rightarrow> gostring" where
  "fold_name [] = []"
| "fold_name (c # s) =
     (if byte_of c = 0xC5 \<and> map byte_of (take 1 s) = [0xBF] then CHR ''S'' # fold_name (drop 1 s)
      else if byte_of c = 0xE2 \<and> map byte_of (take 2 s) = [0x84, 0xAA] then CHR ''K'' # fold_name (drop 2 s)
      else upper c # fold_name s)"
  by pat_completeness auto
termination by (relation "measure length") auto

definition named :: "gostring \<Rightarrow> gostring \<Rightarrow> bool" where
  "named name k \<longleftrightarrow> fold_name k = fold_name name"

section \<open>Values\<close>

definition dec_string :: "json_tree \<Rightarrow> gostring \<Rightarrow> gostring option" where
  "dec_string t old = (case t of TNull \<Rightarrow> Some old | TStr s \<Rightarrow> Some s | _ \<Rightarrow> None)"

definition dec_bool :: "json_tree \<Rightarrow> bool \<Rightarrow> bool option" where
  "dec_bool t old = (case t of TNull \<Rightarrow> Some old | TBool b \<Rightarrow> Some b | _ \<Rightarrow> None)"

definition dec_float :: "json_tree \<Rightarrow> f64 \<Rightarrow> f64 option" where
  "dec_float t old = (case t of TNull \<Rightarrow> Some old | TNum n \<Rightarrow> ParseFloat n | _ \<Rightarrow> None)"

definition dec_u32 :: "json_tree \<Rightarrow> u32 \<Rightarrow> u32 option" where
  "dec_u32 t old = (case t of TNull \<Rightarrow> Some old | TNum n \<Rightarrow> map_option word_of_nat (ParseUint 32 n) | _ \<Rightarrow> None)"

definition dec_i32 :: "json_tree \<Rightarrow> i32 \<Rightarrow> i32 option" where
  "dec_i32 t old = (case t of TNull \<Rightarrow> Some old | TNum n \<Rightarrow> map_option word_of_int (ParseInt 32 n) | _ \<Rightarrow> None)"

definition dec_i64 :: "json_tree \<Rightarrow> i64 \<Rightarrow> i64 option" where
  "dec_i64 t old = (case t of TNull \<Rightarrow> Some old | TNum n \<Rightarrow> map_option word_of_int (ParseInt 64 n) | _ \<Rightarrow> None)"

text \<open>Into \<^verbatim>\<open>interface{}\<close>; the last of equal keys wins. A decoded map is kept sorted by its keys,
  which Go compares bytewise.\<close>

fun map_put :: "gostring \<Rightarrow> 'a \<Rightarrow> (gostring \<times> 'a) list \<Rightarrow> (gostring \<times> 'a) list" where
  "map_put k v [] = [(k, v)]"
| "map_put k v ((k', v') # m) =
     (if k = k' then (k, v) # m else if k < k' then (k, v) # (k', v') # m else (k', v') # map_put k v m)"

definition put_all :: "(gostring \<times> 'a) list \<Rightarrow> (gostring \<times> 'a) list \<Rightarrow> (gostring \<times> 'a) list" where
  "put_all kvs m = foldl (\<lambda>m kv. map_put (fst kv) (snd kv) m) m kvs"

fun dec_any :: "json_tree \<Rightarrow> json_value option" where
  "dec_any TNull = Some JNull"
| "dec_any (TBool b) = Some (JBool b)"
| "dec_any (TNum n) = map_option JNumber (ParseFloat n)"
| "dec_any (TStr s) = Some (JString s)"
| "dec_any (TArr vs) = map_option JArray (those (map dec_any vs))"
| "dec_any (TObj kvs) = map_option (\<lambda>m. JObject (put_all m []))
     (those (map (\<lambda>kv. map_option (Pair (fst kv)) (dec_any (snd kv))) kvs))"

text \<open>Into a \<^verbatim>\<open>map[string]interface{}\<close>, which keeps what it holds.\<close>

definition dec_map :: "json_tree \<Rightarrow> json_map option \<Rightarrow> json_map option option" where
  "dec_map t old =
     (case t of
        TNull \<Rightarrow> Some None
      | TObj kvs \<Rightarrow> map_option (\<lambda>m. Some (put_all m (case old of None \<Rightarrow> [] | Some m0 \<Rightarrow> m0)))
          (those (map (\<lambda>kv. map_option (Pair (fst kv)) (dec_any (snd kv))) kvs))
      | _ \<Rightarrow> None)"

definition dec_struct :: "(gostring \<Rightarrow> json_tree \<Rightarrow> 'a \<Rightarrow> 'a option) \<Rightarrow> json_tree \<Rightarrow> 'a \<Rightarrow> 'a option" where
  "dec_struct field t x =
     (case t of
        TNull \<Rightarrow> Some x
      | TObj kvs \<Rightarrow> foldl (\<lambda>acc kv. Option.bind acc (field (fst kv) (snd kv))) (Some x) kvs
      | _ \<Rightarrow> None)"

definition dec_pointer :: "(json_tree \<Rightarrow> 'a \<Rightarrow> 'a option) \<Rightarrow> 'a \<Rightarrow> json_tree \<Rightarrow> 'a option \<Rightarrow> 'a option option" where
  "dec_pointer dec zero t old =
     (case t of TNull \<Rightarrow> Some None
      | _ \<Rightarrow> map_option Some (dec t (case old of None \<Rightarrow> zero | Some x \<Rightarrow> x)))"

section \<open>The structs of package models\<close>

definition header_member :: "gostring \<Rightarrow> json_tree \<Rightarrow> message_header \<Rightarrow> message_header option" where
  "header_member k t h =
     (if named ''device_id'' k then map_option (\<lambda>v. h\<lparr>DeviceID := v\<rparr>) (dec_string t (DeviceID h))
      else if named ''timestamp'' k then map_option (\<lambda>v. h\<lparr>Timestamp := v\<rparr>) (dec_i64 t (Timestamp h))
      else if named ''seq_no'' k then map_option (\<lambda>v. h\<lparr>SeqNo := v\<rparr>) (dec_u32 t (SeqNo h))
      else if named ''firmware_version'' k
        then map_option (\<lambda>v. h\<lparr>FirmwareVersion := v\<rparr>) (dec_string t (FirmwareVersion h))
      else if named ''boot_count'' k then map_option (\<lambda>v. h\<lparr>BootCount := v\<rparr>) (dec_u32 t (BootCount h))
      else Some h)"

definition metrics_member :: "gostring \<Rightarrow> json_tree \<Rightarrow> metrics_data \<Rightarrow> metrics_data option" where
  "metrics_member k t m =
     (if named ''temperature'' k then map_option (\<lambda>v. m\<lparr>Temperature := v\<rparr>) (dec_float t (Temperature m))
      else if named ''humidity'' k then map_option (\<lambda>v. m\<lparr>Humidity := v\<rparr>) (dec_float t (Humidity m))
      else if named ''battery_voltage'' k
        then map_option (\<lambda>v. m\<lparr>BatteryVoltage := v\<rparr>) (dec_float t (BatteryVoltage m))
      else if named ''battery_level_pct'' k
        then map_option (\<lambda>v. m\<lparr>BatteryLevelPct := v\<rparr>) (dec_u32 t (BatteryLevelPct m))
      else if named ''rssi'' k then map_option (\<lambda>v. m\<lparr>RSSI := v\<rparr>) (dec_i32 t (RSSI m))
      else if named ''interval_sec'' k then map_option (\<lambda>v. m\<lparr>IntervalSec := v\<rparr>) (dec_u32 t (IntervalSec m))
      else if named ''custom_values'' k then map_option (\<lambda>v. m\<lparr>CustomValues := v\<rparr>) (dec_map t (CustomValues m))
      else Some m)"

definition status_member :: "gostring \<Rightarrow> json_tree \<Rightarrow> device_status \<Rightarrow> device_status option" where
  "status_member k t s =
     (if named ''state'' k then map_option (\<lambda>v. s\<lparr>State := v\<rparr>) (dec_string t (State s))
      else if named ''uptime_sec'' k then map_option (\<lambda>v. s\<lparr>UptimeSec := v\<rparr>) (dec_u32 t (UptimeSec s))
      else if named ''free_heap_bytes'' k
        then map_option (\<lambda>v. s\<lparr>FreeHeapBytes := v\<rparr>) (dec_u32 t (FreeHeapBytes s))
      else Some s)"

definition payload_member :: "gostring \<Rightarrow> json_tree \<Rightarrow> telemetry_payload \<Rightarrow> telemetry_payload option" where
  "payload_member k t p =
     (if named ''header'' k
        then map_option (\<lambda>v. p\<lparr>Header := v\<rparr>) (dec_struct header_member t (Header p))
      else if named ''metrics'' k
        then map_option (\<lambda>v. p\<lparr>Metrics := v\<rparr>) (dec_struct metrics_member t (Metrics p))
      else if named ''status'' k
        then map_option (\<lambda>v. p\<lparr>Status := v\<rparr>) (dec_pointer (dec_struct status_member) zero_status t (Status p))
      else Some p)"

definition event_member :: "gostring \<Rightarrow> json_tree \<Rightarrow> event_detail \<Rightarrow> event_detail option" where
  "event_member k t e =
     (if named ''event_type'' k then map_option (\<lambda>v. e\<lparr>EventType := v\<rparr>) (dec_string t (EventType e))
      else if named ''severity'' k then map_option (\<lambda>v. e\<lparr>Severity := v\<rparr>) (dec_string t (Severity e))
      else if named ''message'' k then map_option (\<lambda>v. e\<lparr>EvMessage := v\<rparr>) (dec_string t (EvMessage e))
      else if named ''details'' k then map_option (\<lambda>v. e\<lparr>Details := v\<rparr>) (dec_map t (Details e))
      else Some e)"

definition event_payload_member :: "gostring \<Rightarrow> json_tree \<Rightarrow> event_payload \<Rightarrow> event_payload option" where
  "event_payload_member k t p =
     (if named ''header'' k
        then map_option (\<lambda>v. p\<lparr>EvHeader := v\<rparr>) (dec_struct header_member t (EvHeader p))
      else if named ''event'' k
        then map_option (\<lambda>v. p\<lparr>Event := v\<rparr>) (dec_struct event_member t (Event p))
      else Some p)"

section \<open>The requests of the handlers\<close>

definition queue_member :: "gostring \<Rightarrow> json_tree \<Rightarrow> queue_request \<Rightarrow> queue_request option" where
  "queue_member k t q =
     (if named ''device_id'' k then map_option (\<lambda>v. q\<lparr>QueueDevice := v\<rparr>) (dec_string t (QueueDevice q))
      else if named ''action'' k then map_option (\<lambda>v. q\<lparr>QueueAction := v\<rparr>) (dec_string t (QueueAction q))
      else if named ''params'' k then map_option (\<lambda>v. q\<lparr>QueueParams := v\<rparr>) (dec_map t (QueueParams q))
      else Some q)"

definition ack_member :: "gostring \<Rightarrow> json_tree \<Rightarrow> ack_request \<Rightarrow> ack_request option" where
  "ack_member k t a =
     (if named ''device_id'' k then map_option (\<lambda>v. a\<lparr>AckDevice := v\<rparr>) (dec_string t (AckDevice a))
      else if named ''command_id'' k then map_option (\<lambda>v. a\<lparr>AckID := v\<rparr>) (dec_string t (AckID a))
      else if named ''result'' k then map_option (\<lambda>v. a\<lparr>AckResult := v\<rparr>) (dec_string t (AckResult a))
      else Some a)"

definition empty_payload :: telemetry_payload where
  "empty_payload = \<lparr>Header = zero_header, Metrics = zero_metrics, Status = None\<rparr>"

definition empty_event :: event_payload where
  "empty_event = \<lparr>EvHeader = zero_header, Event = \<lparr>EventType = [], Severity = [], EvMessage = [], Details = None\<rparr>\<rparr>"

section \<open>Unmarshal and Decode\<close>

text \<open>\<^verbatim>\<open>json.Unmarshal\<close> of a whole body, and \<^verbatim>\<open>json.NewDecoder(r.Body).Decode\<close>, which reads one value
  and also fails when reading the body fails. \<open>err\<close> gives the error of a body that is refused.\<close>

definition json_Unmarshal ::
  "(u8 list \<Rightarrow> go_error) \<Rightarrow> (gostring \<Rightarrow> json_tree \<Rightarrow> 'a \<Rightarrow> 'a option) \<Rightarrow> 'a \<Rightarrow> u8 list \<Rightarrow> 'a outcome"
where
  "json_Unmarshal err field zero body =
     (case Option.bind (json_parse (bytes_to_string body)) (\<lambda>t. dec_struct field t zero) of
        Some x \<Rightarrow> Ok x
      | None \<Rightarrow> Err (err body))"

definition json_Decode ::
  "(u8 list \<Rightarrow> go_error) \<Rightarrow> (gostring \<Rightarrow> json_tree \<Rightarrow> 'a \<Rightarrow> 'a option) \<Rightarrow> 'a \<Rightarrow> u8 list outcome \<Rightarrow> 'a outcome"
where
  "json_Decode err field zero r =
     bind_outcome r (\<lambda>body.
       case Option.bind (json_parse_first (bytes_to_string body)) (\<lambda>t. dec_struct field t zero) of
         Some x \<Rightarrow> Ok x
       | None \<Rightarrow> Err (err body))"

definition json_env ::
  "nat \<Rightarrow> (f64 \<Rightarrow> u32) \<Rightarrow> (gostring \<Rightarrow> gostring) \<Rightarrow> (u8 list \<Rightarrow> go_error) \<Rightarrow> go_env"
where
  "json_env alloc oor sha err = \<lparr>max_alloc = alloc, u32_oor = oor, sha256_hex = sha,
     unmarshal_telemetry = json_Unmarshal err payload_member empty_payload,
     unmarshal_event = json_Unmarshal err event_payload_member empty_event,
     decode_queue_request = json_Decode err queue_member \<lparr>QueueDevice = [], QueueAction = [], QueueParams = None\<rparr>,
     decode_ack_request = json_Decode err ack_member \<lparr>AckDevice = [], AckID = [], AckResult = []\<rparr>\<rparr>"

end
