(* ===== verification/Json_Typing.thy ===== *)
theory Json_Typing
  imports Json_Decode
begin

text \<open>
  What the decoded structs can hold: finite numbers, strings of well-formed UTF-8, maps sorted by
  key, and containers that nest within the limit of the parser. So a struct that came out of a
  body can always be written again.
\<close>

section \<open>Maps\<close>

definition keys_sorted :: "(gostring \<times> 'a) list \<Rightarrow> bool" where
  "keys_sorted m \<longleftrightarrow> sorted_wrt (<) (map fst m)"

lemma keys_sorted_simps [simp]:
  "keys_sorted []" "keys_sorted (kv # m) \<longleftrightarrow> (\<forall>kv' \<in> set m. fst kv < fst kv') \<and> keys_sorted m"
  by (auto simp: keys_sorted_def)

lemma set_map_put: "set (map_put k v m) \<subseteq> insert (k, v) (set m)"
  by (induction k v m rule: map_put.induct) auto

lemma keys_map_put: "fst ` set (map_put k v m) = insert k (fst ` set m)"
  by (induction k v m rule: map_put.induct) auto

lemma keys_sorted_put: "keys_sorted m \<Longrightarrow> keys_sorted (map_put k v m)"
proof (induction k v m rule: map_put.induct)
  case (2 k v k' v' m)
  have up: "k < k' \<Longrightarrow> k < x" if "x \<in> fst ` set m" for x
    using 2(2) that by (auto dest: order.strict_trans)
  consider "k = k'" | "k < k'" | "k' < k" by (rule linorder_cases[of k k']) auto
  then show ?case
  proof cases
    case 3
    then have "\<forall>x \<in> fst ` set (map_put k v m). k' < x" using 2(2) by (simp only: keys_map_put) simp
    with 3 2 show ?thesis using order.asym[OF 3] by auto
  qed (use 2(2) up in auto)
qed simp

lemma map_of_put: "keys_sorted m \<Longrightarrow> map_of (map_put k v m) = (map_of m)(k \<mapsto> v)"
  by (induction k v m rule: map_put.induct) auto

lemma put_all_simps [simp]:
  "put_all [] m = m" "put_all (kv # kvs) m = put_all kvs (map_put (fst kv) (snd kv) m)"
  by (simp_all add: put_all_def)

lemma set_put_all: "set (put_all kvs m) \<subseteq> set kvs \<union> set m"
proof (induction kvs arbitrary: m)
  case (Cons kv kvs)
  show ?case using Cons.IH[of "map_put (fst kv) (snd kv) m"] set_map_put[of "fst kv" "snd kv" m] by auto
qed simp

lemma keys_sorted_put_all: "keys_sorted m \<Longrightarrow> keys_sorted (put_all kvs m)"
  by (induction kvs arbitrary: m) (simp_all add: keys_sorted_put)

lemma map_put_last: "(\<forall>kv \<in> set m. fst kv < k) \<Longrightarrow> map_put k v m = m @ [(k, v)]"
  by (induction k v m rule: map_put.induct) auto

lemma put_all_sorted: "keys_sorted kvs \<Longrightarrow> (\<forall>a \<in> set m. \<forall>b \<in> set kvs. fst a < fst b) \<Longrightarrow> put_all kvs m = m @ kvs"
proof (induction kvs arbitrary: m)
  case (Cons kv kvs)
  then show ?case by (simp add: map_put_last)
qed simp

section \<open>Values\<close>

text \<open>\<open>n\<close> is the number of containers around the value. The server's own boxed integers do not
  occur.\<close>

fun value_ok :: "nat \<Rightarrow> json_value \<Rightarrow> bool" where
  "value_ok n (JNumber x) = f64_finite x"
| "value_ok n (JString s) = valid_utf8 s"
| "value_ok n (JArray vs) \<longleftrightarrow> n < max_nesting \<and> (\<forall>v \<in> set vs. value_ok (Suc n) v)"
| "value_ok n (JObject kvs) \<longleftrightarrow> n < max_nesting \<and> keys_sorted kvs \<and>
     (\<forall>kv \<in> set kvs. valid_utf8 (fst kv) \<and> value_ok (Suc n) (snd kv))"
| "value_ok n (JUint u) = False"
| "value_ok n (JInt i) = False"
| "value_ok n _ = True"

definition map_ok :: "nat \<Rightarrow> json_map option \<Rightarrow> bool" where
  "map_ok n m = (case m of None \<Rightarrow> True | Some kvs \<Rightarrow> value_ok n (JObject kvs))"

text \<open>What fits into deeper nesting fits further out.\<close>

lemma value_ok_outer: "value_ok (Suc n) v \<Longrightarrow> value_ok n v"
  by (induction n v rule: value_ok.induct) auto

lemma map_ok_outer: "map_ok 1 m \<Longrightarrow> map_ok 0 m"
  using value_ok_outer[of 0 "JObject (the m)"] by (auto simp: map_ok_def split: option.splits)

lemma value_encodable: "value_ok n v \<Longrightarrow> json_encodable v"
  by (induction n v rule: value_ok.induct) (auto simp: list_all_iff)

lemma map_ok_encodable: "map_ok n m \<Longrightarrow> map_encodable m"
  using value_encodable[of n "JObject (the m)"] by (auto simp: map_ok_def map_encodable_def split: option.splits)

lemma those_eq: "those xs = Some ys \<longleftrightarrow> xs = map Some ys"
proof (induction xs arbitrary: ys)
  case (Cons x xs)
  then show ?case by (cases ys) (auto split: option.splits)
qed auto

lemma those_members:
  assumes "those (map f xs) = Some ys" and "y \<in> set ys"
  obtains x where "x \<in> set xs" "f x = Some y"
proof -
  have "Some y \<in> f ` set xs" using assms by (metis image_eqI list.set_map those_eq)
  with that show ?thesis by auto
qed

lemma dec_any_ok: "tree_ok n t \<Longrightarrow> dec_any t = Some v \<Longrightarrow> value_ok n v"
proof (induction t arbitrary: n v rule: dec_any.induct)
  case (3 m)
  then show ?case by (auto simp: ParseFloat_finite)
next
  case (5 vs)
  then obtain ws where ws: "those (map dec_any vs) = Some ws" "v = JArray ws" by auto
  have "value_ok (Suc n) w" if w: "w \<in> set ws" for w
    by (rule those_members[OF ws(1) w]) (use 5 in auto)
  with 5 ws(2) show ?case by simp
next
  case (6 kvs)
  then obtain ms where ms: "those (map (\<lambda>kv. map_option (Pair (fst kv)) (dec_any (snd kv))) kvs) = Some ms"
      "v = JObject (put_all ms [])" by auto
  have all: "valid_utf8 (fst m) \<and> value_ok (Suc n) (snd m)" if m: "m \<in> set ms" for m
  proof -
    obtain kv where "kv \<in> set kvs" "map_option (Pair (fst kv)) (dec_any (snd kv)) = Some m"
      by (rule those_members[OF ms(1) m])
    moreover from this obtain w where "dec_any (snd kv) = Some w" "m = (fst kv, w)" by auto
    ultimately show ?thesis using "6.IH" "6.prems"(1) by auto
  qed
  have "valid_utf8 (fst m) \<and> value_ok (Suc n) (snd m)" if "m \<in> set (put_all ms [])" for m
    using set_put_all[of ms "[]"] that by (intro all) auto
  with 6 show ?case by (simp add: ms(2) keys_sorted_put_all)
qed auto

lemma dec_members_ok:
  assumes "those (map (\<lambda>kv. map_option (Pair (fst kv)) (dec_any (snd kv))) kvs) = Some ms"
    and "tree_ok n (TObj kvs)" and "m \<in> set ms"
  shows "valid_utf8 (fst m)" "value_ok (Suc n) (snd m)"
proof -
  obtain kv where "kv \<in> set kvs" "map_option (Pair (fst kv)) (dec_any (snd kv)) = Some m"
    by (rule those_members[OF assms(1,3)])
  moreover from this obtain w where "dec_any (snd kv) = Some w" "m = (fst kv, w)" by auto
  ultimately show "valid_utf8 (fst m)" "value_ok (Suc n) (snd m)"
    using assms(2) dec_any_ok by auto
qed

lemma dec_map_ok:
  assumes "dec_map t old = Some m" and "tree_ok n t" and "map_ok n old"
  shows "map_ok n m"
proof (cases t)
  case (TObj kvs)
  define m0 where "m0 = (case old of None \<Rightarrow> [] | Some m0 \<Rightarrow> m0)"
  obtain ms where ms: "those (map (\<lambda>kv. map_option (Pair (fst kv)) (dec_any (snd kv))) kvs) = Some ms"
    and m: "m = Some (put_all ms m0)"
    using assms(1) by (auto simp: dec_map_def TObj m0_def)
  have m0: "keys_sorted m0" "kv \<in> set m0 \<Longrightarrow> valid_utf8 (fst kv) \<and> value_ok (Suc n) (snd kv)" for kv
    using assms(3) by (auto simp: m0_def map_ok_def split: option.splits)
  have "valid_utf8 (fst kv) \<and> value_ok (Suc n) (snd kv)" if "kv \<in> set (put_all ms m0)" for kv
  proof -
    have "kv \<in> set ms \<or> kv \<in> set m0" using set_put_all[of ms m0] that by auto
    then show ?thesis using m0(2) dec_members_ok[OF ms assms(2)[unfolded TObj]] by (elim disjE) simp_all
  qed
  with m0(1) assms(2) show ?thesis by (simp add: m map_ok_def keys_sorted_put_all TObj)
qed (use assms in \<open>simp_all add: dec_map_def map_ok_def\<close>)

lemma dec_string_ok: "dec_string t old = Some s \<Longrightarrow> tree_ok n t \<Longrightarrow> valid_utf8 old \<Longrightarrow> valid_utf8 s"
  by (cases t) (auto simp: dec_string_def)

lemma dec_float_ok: "dec_float t old = Some x \<Longrightarrow> f64_finite old \<Longrightarrow> f64_finite x"
  by (cases t) (auto simp: dec_float_def ParseFloat_finite)

section \<open>Structs\<close>

lemma dec_struct_ok:
  assumes "dec_struct field t x = Some y" and "tree_ok n t" and "P x"
    and "\<And>k t x y. field k t x = Some y \<Longrightarrow> tree_ok (Suc n) t \<Longrightarrow> P x \<Longrightarrow> P y"
  shows "P y"
proof (cases t)
  case (TObj kvs)
  have none: "foldl (\<lambda>acc kv. Option.bind acc (field (fst kv) (snd kv))) None kvs = None" for kvs
    by (induction kvs) simp_all
  have "foldl (\<lambda>acc kv. Option.bind acc (field (fst kv) (snd kv))) (Some x) kvs = Some y \<Longrightarrow>
      \<forall>kv \<in> set kvs. tree_ok (Suc n) (snd kv) \<Longrightarrow> P x \<Longrightarrow> P y" for x
  proof (induction kvs arbitrary: x)
    case (Cons kv kvs)
    show ?case
    proof (cases "field (fst kv) (snd kv) x")
      case (Some z)
      with Cons assms(4)[OF Some] show ?thesis by simp
    qed (use Cons.prems(1) none in simp)
  qed simp
  with assms show ?thesis by (simp add: dec_struct_def TObj)
qed (use assms in \<open>simp_all add: dec_struct_def\<close>)

definition header_ok :: "message_header \<Rightarrow> bool" where
  "header_ok h \<longleftrightarrow> valid_utf8 (DeviceID h) \<and> valid_utf8 (FirmwareVersion h)"

definition metrics_ok :: "nat \<Rightarrow> metrics_data \<Rightarrow> bool" where
  "metrics_ok n m \<longleftrightarrow> f64_finite (Temperature m) \<and> f64_finite (Humidity m) \<and> f64_finite (BatteryVoltage m) \<and>
     map_ok n (CustomValues m)"

text \<open>\<open>n\<close> is the number of containers around the custom values.\<close>

definition payload_ok :: "nat \<Rightarrow> telemetry_payload \<Rightarrow> bool" where
  "payload_ok n p \<longleftrightarrow> header_ok (Header p) \<and> metrics_ok n (Metrics p) \<and>
     (case Status p of None \<Rightarrow> True | Some s \<Rightarrow> valid_utf8 (State s))"

definition event_ok :: "event_payload \<Rightarrow> bool" where
  "event_ok p \<longleftrightarrow> header_ok (EvHeader p) \<and> valid_utf8 (EventType (Event p)) \<and> valid_utf8 (Severity (Event p)) \<and>
     valid_utf8 (EvMessage (Event p)) \<and> map_ok 2 (Details (Event p))"

definition queue_ok :: "queue_request \<Rightarrow> bool" where
  "queue_ok q \<longleftrightarrow> valid_utf8 (QueueDevice q) \<and> valid_utf8 (QueueAction q) \<and> map_ok 1 (QueueParams q)"

lemma header_member_ok: "header_member k t x = Some y \<Longrightarrow> tree_ok n t \<Longrightarrow> header_ok x \<Longrightarrow> header_ok y"
  by (auto simp: header_member_def header_ok_def dest: dec_string_ok split: if_splits)

lemma metrics_member_ok: "metrics_member k t x = Some y \<Longrightarrow> tree_ok 2 t \<Longrightarrow> metrics_ok 2 x \<Longrightarrow> metrics_ok 2 y"
  by (auto simp: metrics_member_def metrics_ok_def dest: dec_float_ok dec_map_ok split: if_splits)

lemma status_member_ok:
  "status_member k t x = Some y \<Longrightarrow> tree_ok n t \<Longrightarrow> valid_utf8 (State x) \<Longrightarrow> valid_utf8 (State y)"
  by (auto simp: status_member_def dest: dec_string_ok split: if_splits)

lemma event_member_ok:
  "event_member k t x = Some y \<Longrightarrow> tree_ok 2 t \<Longrightarrow> event_ok \<lparr>EvHeader = h, Event = x\<rparr> \<Longrightarrow>
    event_ok \<lparr>EvHeader = h, Event = y\<rparr>"
  by (auto simp: event_member_def event_ok_def dest: dec_string_ok dec_map_ok split: if_splits)

lemma queue_member_ok: "queue_member k t x = Some y \<Longrightarrow> tree_ok 1 t \<Longrightarrow> queue_ok x \<Longrightarrow> queue_ok y"
  by (auto simp: queue_member_def queue_ok_def dest: dec_string_ok dec_map_ok split: if_splits)

lemma payload_member_ok:
  assumes "payload_member k t x = Some y" and "tree_ok 1 t" and "payload_ok 2 x"
  shows "payload_ok 2 y"
proof -
  have h: "dec_struct header_member t h = Some h' \<Longrightarrow> header_ok h \<Longrightarrow> header_ok h'" for h h'
    by (erule dec_struct_ok[where P = header_ok, OF _ assms(2)]) (auto intro: header_member_ok)
  have m: "dec_struct metrics_member t m = Some m' \<Longrightarrow> metrics_ok 2 m \<Longrightarrow> metrics_ok 2 m'" for m m'
    by (erule dec_struct_ok[where P = "metrics_ok 2", OF _ assms(2)]) (auto intro: metrics_member_ok simp flip: numeral_2_eq_2)
  have s: "dec_struct status_member t s = Some s' \<Longrightarrow> valid_utf8 (State s) \<Longrightarrow> valid_utf8 (State s')" for s s'
    by (erule dec_struct_ok[where P = "\<lambda>s. valid_utf8 (State s)", OF _ assms(2)]) (auto intro: status_member_ok)
  have p: "case st of None \<Rightarrow> True | Some s \<Rightarrow> valid_utf8 (State s)"
    if "dec_pointer (dec_struct status_member) zero_status t (Status x) = Some st" for st
    using that assms(3) s by (auto simp: dec_pointer_def payload_ok_def zero_status_def split: json_tree.splits option.splits)
  note step = assms(1)[unfolded payload_member_def]
  consider "named ''header'' k" | "\<not> named ''header'' k" "named ''metrics'' k"
    | "\<not> named ''header'' k" "\<not> named ''metrics'' k" by blast
  then show ?thesis
  proof cases
    case 1
    with step obtain h' where h': "dec_struct header_member t (Header x) = Some h'" "y = x\<lparr>Header := h'\<rparr>"
      by (simp only: if_True map_option_eq_Some) blast
    with h[OF h'(1)] assms(3) show ?thesis by (simp add: payload_ok_def)
  next
    case 2
    with step obtain m' where m': "dec_struct metrics_member t (Metrics x) = Some m'" "y = x\<lparr>Metrics := m'\<rparr>"
      by (simp only: if_True if_False map_option_eq_Some) blast
    with m[OF m'(1)] assms(3) show ?thesis by (simp add: payload_ok_def)
  next
    case 3
    show ?thesis
    proof (cases "named ''status'' k")
      case True
      with step 3 obtain st where st:
          "dec_pointer (dec_struct status_member) zero_status t (Status x) = Some st" "y = x\<lparr>Status := st\<rparr>"
        by (simp only: if_True if_False map_option_eq_Some) blast
      with p[OF st(1)] assms(3) show ?thesis by (simp add: payload_ok_def)
    next
      case False
      with step 3 assms(3) show ?thesis by (simp only: if_False option.inject)
    qed
  qed
qed

lemma unmarshal_payload_ok:
  assumes "json_Unmarshal err payload_member empty_payload body = Ok p"
  shows "payload_ok 2 p"
proof -
  obtain t where t: "json_parse (bytes_to_string body) = Some t" "dec_struct payload_member t empty_payload = Some p"
    using assms by (auto simp: json_Unmarshal_def split: option.splits bind_splits)
  have "payload_ok 2 empty_payload"
    by (simp add: empty_payload_def payload_ok_def header_ok_def metrics_ok_def zero_header_def zero_metrics_def map_ok_def f64_eval)
  then show ?thesis
    by (rule dec_struct_ok[OF t(2) json_parse_ok[OF t(1)]]) (auto intro: payload_member_ok)
qed

lemma decode_queue_ok:
  assumes "json_Decode err queue_member \<lparr>QueueDevice = [], QueueAction = [], QueueParams = None\<rparr> r = Ok q"
  shows "queue_ok q"
proof -
  obtain body t where t: "json_parse_first (bytes_to_string body) = Some t"
      "dec_struct queue_member t \<lparr>QueueDevice = [], QueueAction = [], QueueParams = None\<rparr> = Some q"
    using assms by (cases r) (auto simp: json_Decode_def split: option.splits bind_splits)
  have "queue_ok \<lparr>QueueDevice = [], QueueAction = [], QueueParams = None\<rparr>"
    by (simp add: queue_ok_def map_ok_def)
  then show ?thesis
    by (rule dec_struct_ok[OF t(2) json_parse_first_ok[OF t(1)]]) (auto intro: queue_member_ok)
qed

end
