(* ===== verification/Json_Encode.thy ===== *)
theory Json_Encode
  imports Json_Typing
begin

text \<open>
  What package encoding/json writes for the structs of the server and of the simulator, and the
  round trips through the decoder. Members tagged \<^verbatim>\<open>omitempty\<close> are left out when they are zero
  (a float also when it is the negative zero), empty or nil; maps are written in the order of
  their keys. Values that cannot be encoded (\<open>json_encodable\<close>) do not come here.
\<close>

section \<open>Values\<close>

abbreviation tree_f64 :: "f64 \<Rightarrow> json_tree" where
  "tree_f64 x \<equiv> TNum (float_number x)"

abbreviation tree_u32 :: "u32 \<Rightarrow> json_tree" where
  "tree_u32 n \<equiv> TNum (int_number (uint n))"

abbreviation tree_i32 :: "i32 \<Rightarrow> json_tree" where
  "tree_i32 n \<equiv> TNum (int_number (sint n))"

abbreviation tree_i64 :: "i64 \<Rightarrow> json_tree" where
  "tree_i64 n \<equiv> TNum (int_number (sint n))"

fun tree_any :: "json_value \<Rightarrow> json_tree" where
  "tree_any JNull = TNull"
| "tree_any (JBool b) = TBool b"
| "tree_any (JNumber x) = tree_f64 x"
| "tree_any (JString s) = TStr s"
| "tree_any (JArray vs) = TArr (map tree_any vs)"
| "tree_any (JObject kvs) = TObj (sort_key fst (map (\<lambda>kv. (fst kv, tree_any (snd kv))) kvs))"
| "tree_any (JUint n) = tree_u32 n"
| "tree_any (JInt n) = tree_i32 n"

definition tree_map :: "json_map option \<Rightarrow> json_tree" where
  "tree_map m = (case m of None \<Rightarrow> TNull | Some kvs \<Rightarrow> tree_any (JObject kvs))"

definition optional :: "bool \<Rightarrow> gostring \<Rightarrow> json_tree \<Rightarrow> (gostring \<times> json_tree) list" where
  "optional present k t = (if present then [(k, t)] else [])"

definition f64_nonzero :: "f64 \<Rightarrow> bool" where
  "f64_nonzero x \<longleftrightarrow> x \<noteq> 0 \<and> x \<noteq> 0x8000000000000000"

definition map_nonempty :: "json_map option \<Rightarrow> bool" where
  "map_nonempty m \<longleftrightarrow> m \<noteq> None \<and> m \<noteq> Some []"

section \<open>Times\<close>

text \<open>The civil date of a day, counted from 1970-01-01: year, month, day.\<close>

definition civil_date :: "int \<Rightarrow> int \<times> int \<times> int" where
  "civil_date days =
     (let z = days + 719468;
          doe = z mod 146097;
          yoe = (doe - doe div 1460 + doe div 36524 - doe div 146096) div 365;
          doy = doe - (365 * yoe + yoe div 4 - yoe div 100);
          mp = (5 * doy + 2) div 153;
          month = (if mp < 10 then mp + 3 else mp - 9);
          year = yoe + z div 146097 * 400
      in (if month \<le> 2 then year + 1 else year, month, doy - (153 * mp + 2) div 5 + 1))"

abbreviation padded :: "nat \<Rightarrow> int \<Rightarrow> gostring" where
  "padded width n \<equiv> pad_zeros width (show_nat (nat n))"

text \<open>\<^verbatim>\<open>time.Time\<close> in UTC as RFC 3339, with the fraction of a second down to its last digit.\<close>

definition rfc3339 :: "time \<Rightarrow> gostring" where
  "rfc3339 t =
     (let secs = t div 1000000000; ns = t mod 1000000000; sod = secs mod 86400;
          (year, month, day) = civil_date (secs div 86400);
          frac = rev (dropWhile (\<lambda>c. c = CHR ''0'') (rev (padded 9 ns)))
      in padded 4 year @ ''-'' @ padded 2 month @ ''-'' @ padded 2 day @ ''T'' @
         padded 2 (sod div 3600) @ '':'' @ padded 2 (sod div 60 mod 60) @ '':'' @ padded 2 (sod mod 60) @
         (if frac = [] then [] else CHR ''.'' # frac) @ ''Z'')"

section \<open>The structs of package models\<close>

definition tree_header :: "message_header \<Rightarrow> json_tree" where
  "tree_header h = TObj
     ([(''device_id'', TStr (DeviceID h)), (''timestamp'', tree_i64 (Timestamp h)),
       (''seq_no'', tree_u32 (SeqNo h)), (''firmware_version'', TStr (FirmwareVersion h))] @
      optional (BootCount h \<noteq> 0) ''boot_count'' (tree_u32 (BootCount h)))"

definition tree_metrics :: "metrics_data \<Rightarrow> json_tree" where
  "tree_metrics m = TObj
     (optional (f64_nonzero (Temperature m)) ''temperature'' (tree_f64 (Temperature m)) @
      optional (f64_nonzero (Humidity m)) ''humidity'' (tree_f64 (Humidity m)) @
      optional (f64_nonzero (BatteryVoltage m)) ''battery_voltage'' (tree_f64 (BatteryVoltage m)) @
      optional (BatteryLevelPct m \<noteq> 0) ''battery_level_pct'' (tree_u32 (BatteryLevelPct m)) @
      optional (RSSI m \<noteq> 0) ''rssi'' (tree_i32 (RSSI m)) @
      optional (IntervalSec m \<noteq> 0) ''interval_sec'' (tree_u32 (IntervalSec m)) @
      optional (map_nonempty (CustomValues m)) ''custom_values'' (tree_map (CustomValues m)))"

definition tree_status :: "device_status \<Rightarrow> json_tree" where
  "tree_status s = TObj
     (optional (State s \<noteq> []) ''state'' (TStr (State s)) @
      optional (UptimeSec s \<noteq> 0) ''uptime_sec'' (tree_u32 (UptimeSec s)) @
      optional (FreeHeapBytes s \<noteq> 0) ''free_heap_bytes'' (tree_u32 (FreeHeapBytes s)))"

definition tree_payload :: "telemetry_payload \<Rightarrow> json_tree" where
  "tree_payload p = TObj
     ([(''header'', tree_header (Header p)), (''metrics'', tree_metrics (Metrics p))] @
      (case Status p of None \<Rightarrow> [] | Some s \<Rightarrow> [(''status'', tree_status s)]))"

definition tree_ota :: "ota_info \<Rightarrow> json_tree" where
  "tree_ota ota = TObj
     ((''available'', TBool (Available ota)) #
      optional (TargetVersion ota \<noteq> []) ''target_version'' (TStr (TargetVersion ota)) @
      optional (PackageURL ota \<noteq> []) ''package_url'' (TStr (PackageURL ota)) @
      optional (SHA256 ota \<noteq> []) ''sha256'' (TStr (SHA256 ota)) @
      optional (SizeBytes ota \<noteq> 0) ''size_bytes'' (tree_u32 (SizeBytes ota)) @
      optional (Mandatory ota) ''mandatory'' (TBool (Mandatory ota)))"

definition tree_command :: "device_command \<Rightarrow> json_tree" where
  "tree_command c = TObj
     ([(''command_id'', TStr (CommandID c)), (''action'', TStr (Action c))] @
      optional (map_nonempty (Params c)) ''params'' (tree_map (Params c)))"

definition tree_response :: "api_response \<Rightarrow> json_tree" where
  "tree_response r = TObj
     ((''status'', TStr (RespStatus r)) #
      optional (RespMessage r \<noteq> []) ''message'' (TStr (RespMessage r)) @
      (''server_time'', tree_i64 (ServerTime r)) #
      optional (SleepIntervalSec r \<noteq> 0) ''sleep_interval_sec'' (tree_u32 (SleepIntervalSec r)) @
      (case OTA r of None \<Rightarrow> [] | Some ota \<Rightarrow> [(''ota'', tree_ota ota)]) @
      optional (Commands r \<noteq> []) ''commands'' (TArr (map tree_command (Commands r))))"

definition tree_device :: "device_state \<Rightarrow> json_tree" where
  "tree_device d = TObj
     [(''device_id'', TStr (DevID d)), (''firmware_version'', TStr (DevFirmware d)),
      (''last_seen_at'', TStr (rfc3339 (LastSeenAt d))), (''last_seq_no'', tree_u32 (LastSeqNo d)),
      (''last_metrics'', tree_metrics (LastMetrics d)),
      (''last_status'', case LastStatus d of None \<Rightarrow> TNull | Some s \<Rightarrow> tree_status s),
      (''status'', TStr (DevStatus d)), (''total_telemetries'', TNum (int_number (uint (TotalTelemetries d)))),
      (''pending_commands_count'', TNum (int_number (PendingCommandsCount d))),
      (''current_interval_sec'', tree_u32 (CurrentIntervalSec d))]"

text \<open>Go encodes a nil slice as \<^verbatim>\<open>null\<close>.\<close>

definition tree_slice :: "('a \<Rightarrow> json_tree) \<Rightarrow> 'a slice \<Rightarrow> json_tree" where
  "tree_slice f xs = (case xs of None \<Rightarrow> TNull | Some ys \<Rightarrow> TArr (map f ys))"

definition tree_devices :: "device_state slice \<Rightarrow> json_tree" where
  "tree_devices = tree_slice tree_device"

text \<open>A \<^verbatim>\<open>map[string]string\<close>, or one of strings in an \<^verbatim>\<open>interface{}\<close>.\<close>

definition tree_fields :: "(gostring \<times> gostring) list \<Rightarrow> json_tree" where
  "tree_fields kvs = TObj (map (\<lambda>kv. (fst kv, TStr (snd kv))) kvs)"

text \<open>\<^verbatim>\<open>json.NewEncoder(w).Encode\<close> ends the text with a newline; \<^verbatim>\<open>json.Marshal\<close> does not.\<close>

definition json_Encode :: "json_tree \<Rightarrow> u8 list" where
  "json_Encode t = string_to_bytes (json_text t @ [CHR 0x0A])"

definition json_Marshal :: "json_tree \<Rightarrow> u8 list" where
  "json_Marshal t = string_to_bytes (json_text t)"

section \<open>Reading names back\<close>

lemma fold_name_ascii: "list_all (\<lambda>c. byte_of c < 0x80) s \<Longrightarrow> fold_name s = map upper s"
  by (induction s) simp_all

lemma fold_names:
  "fold_name ''device_id'' = ''DEVICE_ID''" "fold_name ''timestamp'' = ''TIMESTAMP''"
  "fold_name ''seq_no'' = ''SEQ_NO''" "fold_name ''firmware_version'' = ''FIRMWARE_VERSION''"
  "fold_name ''boot_count'' = ''BOOT_COUNT''" "fold_name ''temperature'' = ''TEMPERATURE''"
  "fold_name ''humidity'' = ''HUMIDITY''" "fold_name ''battery_voltage'' = ''BATTERY_VOLTAGE''"
  "fold_name ''battery_level_pct'' = ''BATTERY_LEVEL_PCT''" "fold_name ''rssi'' = ''RSSI''"
  "fold_name ''interval_sec'' = ''INTERVAL_SEC''" "fold_name ''custom_values'' = ''CUSTOM_VALUES''"
  "fold_name ''state'' = ''STATE''" "fold_name ''uptime_sec'' = ''UPTIME_SEC''"
  "fold_name ''free_heap_bytes'' = ''FREE_HEAP_BYTES''" "fold_name ''header'' = ''HEADER''"
  "fold_name ''metrics'' = ''METRICS''" "fold_name ''status'' = ''STATUS''"
  "fold_name ''available'' = ''AVAILABLE''" "fold_name ''target_version'' = ''TARGET_VERSION''"
  "fold_name ''package_url'' = ''PACKAGE_URL''" "fold_name ''sha256'' = ''SHA256''"
  "fold_name ''size_bytes'' = ''SIZE_BYTES''" "fold_name ''mandatory'' = ''MANDATORY''"
  "fold_name ''command_id'' = ''COMMAND_ID''" "fold_name ''action'' = ''ACTION''"
  "fold_name ''params'' = ''PARAMS''" "fold_name ''message'' = ''MESSAGE''"
  "fold_name ''server_time'' = ''SERVER_TIME''" "fold_name ''sleep_interval_sec'' = ''SLEEP_INTERVAL_SEC''"
  "fold_name ''ota'' = ''OTA''" "fold_name ''commands'' = ''COMMANDS''" "fold_name ''result'' = ''RESULT''"
  by (simp_all add: fold_name_ascii upper_def char_of_eq_iff)

section \<open>Reading values back\<close>

lemma dec_number_simps [simp]:
  "f64_finite x \<Longrightarrow> dec_float (tree_f64 x) old = Some x"
  "dec_u32 (tree_u32 n) o1 = Some n" "dec_i32 (tree_i32 i) o2 = Some i" "dec_i64 (tree_i64 j) o3 = Some j"
proof -
  show "f64_finite x \<Longrightarrow> dec_float (tree_f64 x) old = Some x"
    by (simp add: dec_float_def ParseFloat_float_number)
  have "unat n < 2 ^ 32" using unsigned_less[where ?'a = nat, of n] by simp
  from ParseUint_nat[OF this] have "ParseUint 32 (int_number (uint n)) = Some (unat n)" by simp
  then show "dec_u32 (tree_u32 n) o1 = Some n" by (simp add: dec_u32_def)
  have "ParseInt 32 (int_number (sint i)) = Some (sint i)"
    using sint_greater_eq[of i] sint_less[of i] by (intro ParseInt_int) simp_all
  then show "dec_i32 (tree_i32 i) o2 = Some i" by (simp add: dec_i32_def)
  have "ParseInt 64 (int_number (sint j)) = Some (sint j)"
    using sint_greater_eq[of j] sint_less[of j] by (intro ParseInt_int) simp_all
  then show "dec_i64 (tree_i64 j) o3 = Some j" by (simp add: dec_i64_def)
qed

lemma dec_string_simps [simp]: "dec_string (TStr s) old = Some s" "dec_bool (TBool b) old' = Some b"
  by (simp_all add: dec_string_def dec_bool_def)

lemma sort_members: "keys_sorted kvs \<Longrightarrow> sort_key fst (map (\<lambda>kv. (fst kv, f (snd kv))) kvs) = map (\<lambda>kv. (fst kv, f (snd kv))) kvs"
  by (rule sort_key_id_if_sorted) (auto simp: keys_sorted_def comp_def strict_sorted_iff)

lemma dec_tree_any: "value_ok n v \<Longrightarrow> dec_any (tree_any v) = Some v"
proof (induction n v rule: value_ok.induct)
  case (3 n vs)
  then have "map dec_any (map tree_any vs) = map Some vs" by auto
  then show ?case by (simp add: those_eq)
next
  case (4 n kvs)
  let ?dec = "\<lambda>kv. map_option (Pair (fst kv)) (dec_any (snd kv))"
  have "map ?dec (map (\<lambda>kv. (fst kv, tree_any (snd kv))) kvs) = map Some kvs"
    using 4 by auto
  then have "those (map ?dec (map (\<lambda>kv. (fst kv, tree_any (snd kv))) kvs)) = Some kvs"
    by (simp only: those_eq)
  with 4 show ?case by (simp add: sort_members put_all_sorted[of _ "[]"] del: map_map)
qed (auto simp: ParseFloat_float_number)

lemma tree_any_ok: "value_ok n v \<Longrightarrow> tree_ok n (tree_any v)"
  by (induction n v rule: value_ok.induct) (auto simp: float_number_ok sort_members)

lemma dec_tree_map:
  assumes "map_ok n m" and "map_nonempty m"
  shows "dec_map (tree_map m) None = Some m"
proof -
  obtain kvs where kvs: "m = Some kvs" "value_ok n (JObject kvs)"
    using assms by (auto simp: map_ok_def map_nonempty_def split: option.splits)
  have "dec_any (tree_any (JObject kvs)) = Some (JObject kvs)" by (rule dec_tree_any[OF kvs(2)])
  then show ?thesis by (auto simp: kvs(1) tree_map_def dec_map_def)
qed

lemma tree_map_ok: "map_ok n m \<Longrightarrow> tree_ok n (tree_map m)"
  using tree_any_ok by (auto simp: map_ok_def tree_map_def split: option.splits)

declare fold_name.simps(2) [simp del]

lemmas reading = named_def fold_names

section \<open>Reading members back\<close>

definition fill :: "(gostring \<Rightarrow> json_tree \<Rightarrow> 'a \<Rightarrow> 'a option) \<Rightarrow> (gostring \<times> json_tree) list \<Rightarrow> 'a \<Rightarrow> 'a option" where
  "fill field kvs x = foldl (\<lambda>acc kv. Option.bind acc (field (fst kv) (snd kv))) (Some x) kvs"

lemma dec_struct_fill: "dec_struct field (TObj kvs) x = fill field kvs x"
  by (simp add: dec_struct_def fill_def)

lemma foldl_bind_None: "foldl (\<lambda>acc kv. Option.bind acc (f kv)) None kvs = None"
  by (induction kvs) simp_all

lemma fill_simps [simp]:
  "fill field [] x = Some x"
  "fill field ((k, t) # kvs) x = Option.bind (field k t x) (fill field kvs)"
  by (cases "field k t x"; simp add: fill_def foldl_bind_None)+

lemma fill_optional:
  "(present \<Longrightarrow> field k t x = Some z) \<Longrightarrow> (\<not> present \<Longrightarrow> x = z) \<Longrightarrow>
    fill field (optional present k t @ kvs) x = fill field kvs z"
  by (simp add: optional_def)

lemma fill_last: "fill field (optional present k t) x = fill field (optional present k t @ []) x"
  by simp

end
