(* ===== verification/Json_Roundtrip.thy ===== *)
theory Json_Roundtrip
  imports Json_Encode
begin

text \<open>
  The round trips of the payloads: what encoding/json writes for a telemetry payload, the server
  reads back, up to what \<^verbatim>\<open>omitempty\<close> drops.
\<close>

section \<open>The structs that the server reads\<close>

text \<open>What is read again: a negative zero has become zero and an empty map nil.\<close>

definition plain_f64 :: "f64 \<Rightarrow> f64" where
  "plain_f64 x = (if f64_nonzero x then x else 0)"

definition plain_map :: "json_map option \<Rightarrow> json_map option" where
  "plain_map m = (if map_nonempty m then m else None)"

definition plain_metrics :: "metrics_data \<Rightarrow> metrics_data" where
  "plain_metrics m = m\<lparr>Temperature := plain_f64 (Temperature m), Humidity := plain_f64 (Humidity m),
     BatteryVoltage := plain_f64 (BatteryVoltage m), CustomValues := plain_map (CustomValues m)\<rparr>"

definition plain_payload :: "telemetry_payload \<Rightarrow> telemetry_payload" where
  "plain_payload p = p\<lparr>Metrics := plain_metrics (Metrics p)\<rparr>"

lemma header_members:
  "header_member ''device_id'' t h = map_option (\<lambda>v. h\<lparr>DeviceID := v\<rparr>) (dec_string t (DeviceID h))"
  "header_member ''timestamp'' t h = map_option (\<lambda>v. h\<lparr>Timestamp := v\<rparr>) (dec_i64 t (Timestamp h))"
  "header_member ''seq_no'' t h = map_option (\<lambda>v. h\<lparr>SeqNo := v\<rparr>) (dec_u32 t (SeqNo h))"
  "header_member ''firmware_version'' t h = map_option (\<lambda>v. h\<lparr>FirmwareVersion := v\<rparr>) (dec_string t (FirmwareVersion h))"
  "header_member ''boot_count'' t h = map_option (\<lambda>v. h\<lparr>BootCount := v\<rparr>) (dec_u32 t (BootCount h))"
  by (simp_all add: header_member_def reading)

lemma read_header: "dec_struct header_member (tree_header h) zero_header = Some h"
proof -
  have "fill header_member (optional (BootCount h \<noteq> 0) ''boot_count'' (tree_u32 (BootCount h)) @ []) (h\<lparr>BootCount := 0\<rparr>) =
      fill header_member [] h"
    by (rule fill_optional) (simp_all add: header_members)
  then show ?thesis by (cases h) (simp add: tree_header_def dec_struct_fill header_members zero_header_def)
qed

lemma read_status: "dec_struct status_member (tree_status s) zero_status = Some s"
proof -
  have 1: "fill status_member (optional (State s \<noteq> []) ''state'' (TStr (State s)) @ kvs) zero_status =
      fill status_member kvs (zero_status\<lparr>State := State s\<rparr>)" for kvs
    by (rule fill_optional) (simp_all add: status_member_def reading zero_status_def)
  have 2: "fill status_member (optional (UptimeSec s \<noteq> 0) ''uptime_sec'' (tree_u32 (UptimeSec s)) @ kvs)
      (zero_status\<lparr>State := State s\<rparr>) = fill status_member kvs (s\<lparr>FreeHeapBytes := 0\<rparr>)" for kvs
    by (rule fill_optional) (simp_all add: status_member_def reading zero_status_def)
  have 3: "fill status_member (optional (FreeHeapBytes s \<noteq> 0) ''free_heap_bytes'' (tree_u32 (FreeHeapBytes s)) @ [])
      (s\<lparr>FreeHeapBytes := 0\<rparr>) = fill status_member [] s"
    by (rule fill_optional) (simp_all add: status_member_def reading)
  show ?thesis using 1 2 3 by (simp add: tree_status_def dec_struct_fill)
qed

text \<open>One rule for each member of the metrics.\<close>

lemma fill_metrics:
  "f64_finite v \<Longrightarrow> Temperature m = 0 \<Longrightarrow> fill metrics_member (optional (f64_nonzero v) ''temperature'' (tree_f64 v) @ kvs) m =
     fill metrics_member kvs (m\<lparr>Temperature := plain_f64 v\<rparr>)"
  "f64_finite v \<Longrightarrow> Humidity m = 0 \<Longrightarrow> fill metrics_member (optional (f64_nonzero v) ''humidity'' (tree_f64 v) @ kvs) m =
     fill metrics_member kvs (m\<lparr>Humidity := plain_f64 v\<rparr>)"
  "f64_finite v \<Longrightarrow> BatteryVoltage m = 0 \<Longrightarrow>
     fill metrics_member (optional (f64_nonzero v) ''battery_voltage'' (tree_f64 v) @ kvs) m =
     fill metrics_member kvs (m\<lparr>BatteryVoltage := plain_f64 v\<rparr>)"
  "BatteryLevelPct m = 0 \<Longrightarrow> fill metrics_member (optional (n \<noteq> 0) ''battery_level_pct'' (tree_u32 n) @ kvs) m =
     fill metrics_member kvs (m\<lparr>BatteryLevelPct := n\<rparr>)"
  "RSSI m = 0 \<Longrightarrow> fill metrics_member (optional (i \<noteq> 0) ''rssi'' (tree_i32 i) @ kvs) m =
     fill metrics_member kvs (m\<lparr>RSSI := i\<rparr>)"
  "IntervalSec m = 0 \<Longrightarrow> fill metrics_member (optional (n \<noteq> 0) ''interval_sec'' (tree_u32 n) @ kvs) m =
     fill metrics_member kvs (m\<lparr>IntervalSec := n\<rparr>)"
  "map_ok d cv \<Longrightarrow> CustomValues m = None \<Longrightarrow>
     fill metrics_member (optional (map_nonempty cv) ''custom_values'' (tree_map cv)) m =
     Some (m\<lparr>CustomValues := plain_map cv\<rparr>)"
  by (cases m; auto simp: optional_def metrics_member_def reading plain_f64_def plain_map_def dec_tree_map)+

lemma read_metrics:
  assumes "metrics_ok n m"
  shows "dec_struct metrics_member (tree_metrics m) zero_metrics = Some (plain_metrics m)"
proof -
  have "map_ok n (CustomValues m)" using assms by (simp add: metrics_ok_def)
  from fill_metrics(7)[OF this] assms show ?thesis
    by (cases m) (simp add: metrics_ok_def tree_metrics_def dec_struct_fill zero_metrics_def fill_metrics(1-6) plain_metrics_def)
qed

lemma pointer_to_status: "dec_pointer dec zero (tree_status s) None = map_option Some (dec (tree_status s) zero)"
  by (simp add: dec_pointer_def tree_status_def)

lemma read_payload:
  assumes "payload_ok n p"
  shows "dec_struct payload_member (tree_payload p) empty_payload = Some (plain_payload p)"
proof -
  have "metrics_ok n (Metrics p)" using assms by (simp add: payload_ok_def)
  from read_metrics[OF this] show ?thesis
    by (cases p; cases "Status p")
      (simp_all add: tree_payload_def dec_struct_fill[of payload_member] payload_member_def reading read_header read_status
        empty_payload_def plain_payload_def pointer_to_status)
qed

section \<open>The trees are well-formed\<close>

lemma tree_header_ok: "n < max_nesting \<Longrightarrow> header_ok h \<Longrightarrow> tree_ok n (tree_header h)"
  by (auto simp: tree_header_def header_ok_def optional_def valid_ascii number_ok_int)

lemma tree_metrics_ok: "n < max_nesting \<Longrightarrow> metrics_ok (Suc n) m \<Longrightarrow> tree_ok n (tree_metrics m)"
  by (auto simp: tree_metrics_def metrics_ok_def optional_def valid_ascii number_ok_int float_number_ok tree_map_ok)

lemma tree_status_ok: "n < max_nesting \<Longrightarrow> valid_utf8 (State s) \<Longrightarrow> tree_ok n (tree_status s)"
  by (auto simp: tree_status_def optional_def valid_ascii number_ok_int)

lemma tree_payload_ok:
  assumes "n < 9999" and "payload_ok (Suc (Suc n)) p"
  shows "tree_ok n (tree_payload p)"
proof -
  have n: "n < max_nesting" "Suc n < max_nesting" using assms(1) by (simp_all add: max_nesting_def)
  have "tree_ok (Suc n) (tree_header (Header p))" "tree_ok (Suc n) (tree_metrics (Metrics p))"
      "Status p = Some s \<Longrightarrow> tree_ok (Suc n) (tree_status s)" for s
    using assms(2) n(2) by (auto simp: payload_ok_def tree_header_ok tree_metrics_ok tree_status_ok)
  with n show ?thesis by (auto simp: tree_payload_def valid_ascii split: option.splits)
qed

lemma unmarshal_written_payload:
  assumes "payload_ok 2 p"
  shows "json_Unmarshal err payload_member empty_payload (json_Marshal (tree_payload p)) = Ok (plain_payload p)"
proof -
  have "tree_ok 0 (tree_payload p)" using assms by (intro tree_payload_ok) (simp_all add: numeral_2_eq_2)
  then show ?thesis
    using read_payload[OF assms] by (simp add: json_Unmarshal_def json_Marshal_def json_parse_text)
qed

section \<open>Lists of payloads\<close>

text \<open>How a client of the dashboard reads the answer of the history endpoint.\<close>

definition tree_history :: "telemetry_payload slice \<Rightarrow> json_tree" where
  "tree_history = tree_slice tree_payload"

definition read_history :: "u8 list \<Rightarrow> telemetry_payload slice option" where
  "read_history body =
     (case json_parse (bytes_to_string body) of
        Some TNull \<Rightarrow> Some None
      | Some (TArr ts) \<Rightarrow> map_option Some (those (map (\<lambda>t. dec_struct payload_member t empty_payload) ts))
      | _ \<Rightarrow> None)"

lemma read_written_history:
  assumes "list_all (payload_ok 3) (elements ps)"
  shows "read_history (json_Encode (tree_history ps)) = Some (map_option (map plain_payload) ps)"
proof (cases ps)
  case None
  then show ?thesis
    by (simp add: tree_history_def tree_slice_def read_history_def json_Encode_def json_parse_line)
next
  case (Some qs)
  have "tree_ok 0 (tree_history ps)"
    using assms by (auto simp: Some tree_history_def tree_slice_def list_all_iff max_nesting_def numeral_3_eq_3 intro!: tree_payload_ok)
  moreover have "map (\<lambda>t. dec_struct payload_member t empty_payload) (map tree_payload qs) = map Some (map plain_payload qs)"
    using assms by (auto simp: Some list_all_iff intro: read_payload)
  ultimately show ?thesis
    by (simp add: Some read_history_def json_Encode_def json_parse_line tree_history_def tree_slice_def those_eq del: map_map)
qed

end
