(* ===== verification/Sql_Repo.thy ===== *)
theory Sql_Repo
  imports Handler_Laws Json_Roundtrip
begin

text \<open>
  \<^verbatim>\<open>SQLRepository\<close> (server/storage/sql\_repository.go), the repository of the default
  configuration. The database is its four tables, each a list of rows in insertion order with
  the columns that the statements of the source name (the AUTOINCREMENT ids are the
  positions). A statement of the source is a function on the tables; a transaction works on a
  copy that is kept only by a successful commit.

  The database engine is not part of the source. \<open>faults\<close> says which call of the engine fails,
  and with which error; \<open>reals\<close> says how it stores a floating point number (None is NULL, which
  SQLite stores for a NaN). Rows with equal sort keys keep their insertion order. Maps are stored
  as the JSON text that package encoding/json writes; reading it back is modelled for such texts.
\<close>

section \<open>Tables\<close>

record device_row =
  dr_device_id :: gostring
  dr_firmware_version :: gostring
  dr_status :: gostring
  dr_last_seq_no :: u32
  dr_last_seen_at :: time
  dr_total_telemetries :: int
  dr_last_temp :: "f64 option"
  dr_last_humidity :: "f64 option"
  dr_last_voltage :: "f64 option"
  dr_last_battery_pct :: u32
  dr_last_rssi :: i32
  dr_current_interval_sec :: u32
  dr_created_at :: time

record telemetry_row =
  tr_device_id :: gostring
  tr_timestamp :: i64
  tr_seq_no :: u32
  tr_firmware_version :: gostring
  tr_boot_count :: u32
  tr_temperature :: "f64 option"
  tr_humidity :: "f64 option"
  tr_battery_voltage :: "f64 option"
  tr_battery_level_pct :: u32
  tr_rssi :: i32
  tr_state :: gostring
  tr_uptime_sec :: u32
  tr_free_heap_bytes :: u32
  tr_custom_values_json :: gostring
  tr_created_at :: time

record event_row =
  er_device_id :: gostring
  er_timestamp :: i64
  er_event_type :: gostring
  er_severity :: gostring
  er_message :: gostring
  er_details_json :: gostring
  er_created_at :: time

record command_row =
  cr_device_id :: gostring
  cr_command_id :: gostring
  cr_action :: gostring
  cr_params_json :: gostring
  cr_status :: gostring
  cr_created_at :: time
  cr_sent_at :: "time option"
  cr_acked_at :: "time option"

record sql_db =
  devices_table :: "device_row list"
  telemetries_table :: "telemetry_row list"
  events_table :: "event_row list"
  commands_table :: "command_row list"

definition empty_db :: sql_db where
  "empty_db = \<lparr>devices_table = [], telemetries_table = [], events_table = [], commands_table = []\<rparr>"

section \<open>The engine\<close>

datatype db_call =
    OpenDB | Migrate | BeginTx | InsertTelemetry | UpsertDevice | CommitTx | InsertEvent
  | QueryDevice | QueryDevices | QueryHistory | InsertCommand | QueryPending
  | MarkSent gostring | UpdateAck
  | NextRow db_call nat | ScanRow db_call nat

type_synonym db_faults = "db_call \<Rightarrow> go_error option"

text \<open>The loop over the rows of a query: \<^verbatim>\<open>rows.Next\<close> is false after a failure too, and nothing asks
  \<^verbatim>\<open>rows.Err\<close>; a row that cannot be scanned is skipped.\<close>

fun read_rows :: "db_faults \<Rightarrow> db_call \<Rightarrow> nat \<Rightarrow> 'r list \<Rightarrow> 'r list" where
  "read_rows faults query i [] = []"
| "read_rows faults query i (row # rows) =
     (if faults (NextRow query i) \<noteq> None then []
      else if faults (ScanRow query i) \<noteq> None then read_rows faults query (Suc i) rows
      else row # read_rows faults query (Suc i) rows)"

lemma read_rows_subset: "set (read_rows faults query i rows) \<subseteq> set rows"
  by (induction rows arbitrary: i) auto

lemma read_rows_all:
  "(\<And>j. faults (NextRow query j) = None \<and> faults (ScanRow query j) = None) \<Longrightarrow> read_rows faults query i rows = rows"
  by (induction rows arbitrary: i) auto

text \<open>A slice declared with \<^verbatim>\<open>var\<close> and appended to stays nil when nothing is.\<close>

definition appended :: "'a list \<Rightarrow> 'a slice" where
  "appended xs = (if xs = [] then None else Some xs)"

text \<open>How the engine stores a number in a REAL column.\<close>

type_synonym sql_reals = "f64 \<Rightarrow> f64 option"

text \<open>\<^verbatim>\<open>json.Marshal\<close> of a map into a text column, its error ignored, and \<^verbatim>\<open>json.Unmarshal\<close> of that
  text.\<close>

definition marshal_map :: "json_map option \<Rightarrow> gostring" where
  "marshal_map m = (if map_encodable m then json_text (tree_map m) else [])"

definition unmarshal_map :: "gostring \<Rightarrow> json_map option" where
  "unmarshal_map s =
     (case Option.bind (json_parse s) (\<lambda>t. dec_map t None) of Some m \<Rightarrow> m | None \<Rightarrow> None)"

lemma marshal_roundtrip:
  assumes "map_ok 0 m"
  shows "unmarshal_map (marshal_map m) = m"
proof -
  have "json_parse (json_text (tree_map m)) = Some (tree_map m)"
    by (rule json_parse_text[OF tree_map_ok[OF assms]])
  moreover have "dec_map (tree_map m) None = Some m"
  proof (cases "map_nonempty m")
    case True
    with assms show ?thesis by (rule dec_tree_map)
  qed (auto simp: map_nonempty_def tree_map_def dec_map_def put_all_def)
  ultimately show ?thesis using map_ok_encodable[OF assms] by (simp add: unmarshal_map_def marshal_map_def)
qed

text \<open>A statement: the error of the engine, or its effect.\<close>

definition exec :: "db_faults \<Rightarrow> db_call \<Rightarrow> (sql_db \<Rightarrow> sql_db) \<Rightarrow> sql_db \<Rightarrow> unit outcome \<times> sql_db" where
  "exec faults call eff db = (case faults call of Some e \<Rightarrow> (Err e, db) | None \<Rightarrow> (Ok (), eff db))"

text \<open>Opening: the pool sizes and the tables. The schema is created unless it is there.\<close>

record sql_pool =
  MaxOpenConns :: nat
  MaxIdleConns :: "nat option"

definition NewSQLRepository ::
  "db_faults \<Rightarrow> gostring \<Rightarrow> sql_db option \<Rightarrow> (sql_pool \<times> sql_db) outcome"
where
  "NewSQLRepository faults driverName existing =
     (case faults OpenDB of
        Some e \<Rightarrow> Err (wrap_error ''failed to open database'' e)
      | None \<Rightarrow>
          let pool = (if driverName = ''sqlite'' then \<lparr>MaxOpenConns = 1, MaxIdleConns = None\<rparr>
                      else \<lparr>MaxOpenConns = 25, MaxIdleConns = Some 5\<rparr>)
          in case faults Migrate of
               Some e \<Rightarrow> Err (wrap_error ''database migration failed'' e)
             | None \<Rightarrow> Ok (pool, case existing of None \<Rightarrow> empty_db | Some db \<Rightarrow> db))"

section \<open>SaveTelemetry\<close>

definition telemetry_values :: "sql_reals \<Rightarrow> time \<Rightarrow> telemetry_payload \<Rightarrow> telemetry_row" where
  "telemetry_values reals now t =
     (let (stateStr, uptimeSec, freeHeap) =
            (case Status t of None \<Rightarrow> (''NORMAL'', 0, 0)
             | Some s \<Rightarrow> (State s, UptimeSec s, FreeHeapBytes s))
      in \<lparr>tr_device_id = DeviceID (Header t), tr_timestamp = Timestamp (Header t),
          tr_seq_no = SeqNo (Header t), tr_firmware_version = FirmwareVersion (Header t),
          tr_boot_count = BootCount (Header t),
          tr_temperature = reals (Temperature (Metrics t)),
          tr_humidity = reals (Humidity (Metrics t)),
          tr_battery_voltage = reals (BatteryVoltage (Metrics t)),
          tr_battery_level_pct = BatteryLevelPct (Metrics t), tr_rssi = RSSI (Metrics t),
          tr_state = stateStr, tr_uptime_sec = uptimeSec, tr_free_heap_bytes = freeHeap,
          tr_custom_values_json = marshal_map (CustomValues (Metrics t)),
          tr_created_at = now\<rparr>)"

definition insert_telemetry :: "telemetry_row \<Rightarrow> sql_db \<Rightarrow> sql_db" where
  "insert_telemetry row db = db\<lparr>telemetries_table := telemetries_table db @ [row]\<rparr>"

definition device_values :: "sql_reals \<Rightarrow> time \<Rightarrow> telemetry_payload \<Rightarrow> device_row" where
  "device_values reals now t =
     (let intervalSec = (if IntervalSec (Metrics t) = 0 then 60 else IntervalSec (Metrics t))
      in \<lparr>dr_device_id = DeviceID (Header t), dr_firmware_version = FirmwareVersion (Header t),
          dr_status = ''ONLINE'', dr_last_seq_no = SeqNo (Header t), dr_last_seen_at = now,
          dr_total_telemetries = 1,
          dr_last_temp = reals (Temperature (Metrics t)),
          dr_last_humidity = reals (Humidity (Metrics t)),
          dr_last_voltage = reals (BatteryVoltage (Metrics t)),
          dr_last_battery_pct = BatteryLevelPct (Metrics t), dr_last_rssi = RSSI (Metrics t),
          dr_current_interval_sec = intervalSec, dr_created_at = now\<rparr>)"

text \<open>\<^verbatim>\<open>ON CONFLICT(device_id) DO UPDATE SET ...\<close>\<close>

definition update_row :: "device_row \<Rightarrow> device_row \<Rightarrow> device_row" where
  "update_row excluded row = row\<lparr>
     dr_firmware_version := dr_firmware_version excluded, dr_status := ''ONLINE'',
     dr_last_seq_no := dr_last_seq_no excluded, dr_last_seen_at := dr_last_seen_at excluded,
     dr_total_telemetries := dr_total_telemetries row + 1,
     dr_last_temp := dr_last_temp excluded, dr_last_humidity := dr_last_humidity excluded,
     dr_last_voltage := dr_last_voltage excluded,
     dr_last_battery_pct := dr_last_battery_pct excluded, dr_last_rssi := dr_last_rssi excluded,
     dr_current_interval_sec := (if 0 < dr_current_interval_sec excluded
        then dr_current_interval_sec excluded else dr_current_interval_sec row)\<rparr>"

definition upsert_device :: "device_row \<Rightarrow> sql_db \<Rightarrow> sql_db" where
  "upsert_device excluded db =
     (if \<exists>row \<in> set (devices_table db). dr_device_id row = dr_device_id excluded
      then db\<lparr>devices_table := map (\<lambda>row. if dr_device_id row = dr_device_id excluded
             then update_row excluded row else row) (devices_table db)\<rparr>
      else db\<lparr>devices_table := devices_table db @ [excluded]\<rparr>)"

text \<open>The transaction. Every error path runs the deferred rollback: the tables are as before.\<close>

definition sql_SaveTelemetry ::
  "db_faults \<Rightarrow> sql_reals \<Rightarrow> time \<Rightarrow> telemetry_payload \<Rightarrow> sql_db \<Rightarrow> unit outcome \<times> sql_db"
where
  "sql_SaveTelemetry faults reals now t db =
     (case faults BeginTx of
        Some e \<Rightarrow> (Err e, db)
      | None \<Rightarrow>
          (case exec faults InsertTelemetry (insert_telemetry (telemetry_values reals now t)) db of
             (Ok _, tx1) \<Rightarrow>
               (case exec faults UpsertDevice (upsert_device (device_values reals now t)) tx1 of
                  (Ok _, tx2) \<Rightarrow> (case faults CommitTx of Some e \<Rightarrow> (Err e, db) | None \<Rightarrow> (Ok (), tx2))
                | (Err e, _) \<Rightarrow> (Err (wrap_error ''upsert device failed'' e), db)
                | (Panic, _) \<Rightarrow> (Panic, db))
           | (Err e, _) \<Rightarrow> (Err (wrap_error ''insert telemetry failed'' e), db)
           | (Panic, _) \<Rightarrow> (Panic, db)))"

section \<open>The other methods\<close>

definition sql_SaveEvent ::
  "db_faults \<Rightarrow> time \<Rightarrow> event_payload \<Rightarrow> sql_db \<Rightarrow> unit outcome \<times> sql_db"
where
  "sql_SaveEvent faults now e db =
     exec faults InsertEvent (\<lambda>db. db\<lparr>events_table := events_table db @
       [\<lparr>er_device_id = DeviceID (EvHeader e), er_timestamp = Timestamp (EvHeader e),
         er_event_type = EventType (Event e), er_severity = Severity (Event e),
         er_message = EvMessage (Event e), er_details_json = marshal_map (Details (Event e)),
         er_created_at = now\<rparr>]\<rparr>) db"

text \<open>\<^verbatim>\<open>sql.NullFloat64\<close>: NULL is read as 0.\<close>

definition null_float :: "f64 option \<Rightarrow> f64" where
  "null_float x = (case x of None \<Rightarrow> 0 | Some v \<Rightarrow> v)"

definition row_device :: "int \<Rightarrow> device_row \<Rightarrow> device_state" where
  "row_device pendingCount row =
     (let interval = (if dr_current_interval_sec row = 0 then 60 else dr_current_interval_sec row)
      in \<lparr>DevID = dr_device_id row, DevFirmware = dr_firmware_version row,
          LastSeenAt = dr_last_seen_at row, LastSeqNo = dr_last_seq_no row,
          LastMetrics = \<lparr>Temperature = null_float (dr_last_temp row),
            Humidity = null_float (dr_last_humidity row),
            BatteryVoltage = null_float (dr_last_voltage row),
            BatteryLevelPct = dr_last_battery_pct row, RSSI = dr_last_rssi row,
            IntervalSec = interval, CustomValues = None\<rparr>,
          LastStatus = None, DevStatus = dr_status row,
          TotalTelemetries = word_of_int (dr_total_telemetries row),
          PendingCommandsCount = pendingCount, CurrentIntervalSec = interval\<rparr>)"

definition sql_GetDevice :: "db_faults \<Rightarrow> gostring \<Rightarrow> sql_db \<Rightarrow> device_state outcome" where
  "sql_GetDevice faults dev db =
     (case faults QueryDevice of
        Some e \<Rightarrow> Err e
      | None \<Rightarrow>
          (case find (\<lambda>row. dr_device_id row = dev) (devices_table db) of
             None \<Rightarrow> Err DeviceNotFound
           | Some row \<Rightarrow> Ok (row_device 0 row)))"

definition pending_row :: "gostring \<Rightarrow> command_row \<Rightarrow> bool" where
  "pending_row dev c \<longleftrightarrow> cr_device_id c = dev \<and> cr_status c = ''PENDING''"

definition sql_ListDevices :: "db_faults \<Rightarrow> sql_db \<Rightarrow> device_state slice" where
  "sql_ListDevices faults db =
     (case faults QueryDevices of
        Some e \<Rightarrow> Some []
      | None \<Rightarrow>
          appended (map (\<lambda>row. row_device (int (length (filter (pending_row (dr_device_id row)) (commands_table db)))) row)
            (read_rows faults QueryDevices 0 (sort_key (\<lambda>row. - dr_last_seen_at row) (devices_table db)))))"

text \<open>A row whose NULL column cannot be scanned into a \<^verbatim>\<open>float64\<close> is skipped.\<close>

definition scan_telemetry :: "gostring \<Rightarrow> telemetry_row \<Rightarrow> telemetry_payload option" where
  "scan_telemetry dev row =
     (case (tr_temperature row, tr_humidity row, tr_battery_voltage row) of
        (Some temp, Some humi, Some volt) \<Rightarrow>
          Some \<lparr>Header = \<lparr>DeviceID = dev, Timestamp = tr_timestamp row, SeqNo = tr_seq_no row,
                  FirmwareVersion = tr_firmware_version row, BootCount = tr_boot_count row\<rparr>,
                Metrics = \<lparr>Temperature = temp, Humidity = humi, BatteryVoltage = volt,
                  BatteryLevelPct = tr_battery_level_pct row, RSSI = tr_rssi row,
                  IntervalSec = 0, CustomValues = None\<rparr>,
                Status = Some \<lparr>State = tr_state row, UptimeSec = tr_uptime_sec row,
                  FreeHeapBytes = tr_free_heap_bytes row\<rparr>\<rparr>
      | _ \<Rightarrow> None)"

definition sql_GetTelemetryHistory ::
  "db_faults \<Rightarrow> gostring \<Rightarrow> int \<Rightarrow> sql_db \<Rightarrow> telemetry_payload slice outcome"
where
  "sql_GetTelemetryHistory faults dev limit db =
     (let limit' = (if limit \<le> 0 then 50 else limit)
      in case faults QueryHistory of
           Some e \<Rightarrow> Err e
         | None \<Rightarrow>
             Ok (appended (List.map_filter (scan_telemetry dev)
               (read_rows faults QueryHistory 0 (take (nat limit') (sort_key (\<lambda>row. - sint (tr_timestamp row))
                 (filter (\<lambda>row. tr_device_id row = dev) (telemetries_table db))))))))"

definition sql_QueueCommand ::
  "db_faults \<Rightarrow> time \<Rightarrow> gostring \<Rightarrow> device_command \<Rightarrow> sql_db \<Rightarrow> unit outcome \<times> sql_db"
where
  "sql_QueueCommand faults now dev c db =
     (if CommandID c \<in> cr_command_id ` set (commands_table db)
      then (Err (OtherError ''UNIQUE constraint failed: commands.command_id''), db)
      else exec faults InsertCommand (\<lambda>db. db\<lparr>commands_table := commands_table db @
        [\<lparr>cr_device_id = dev, cr_command_id = CommandID c, cr_action = Action c,
          cr_params_json = marshal_map (Params c), cr_status = ''PENDING'',
          cr_created_at = now, cr_sent_at = None, cr_acked_at = None\<rparr>]\<rparr>) db)"

definition scan_command :: "command_row \<Rightarrow> device_command" where
  "scan_command row =
     \<lparr>CommandID = cr_command_id row, Action = cr_action row,
      Params = (if cr_params_json row = [] then None else unmarshal_map (cr_params_json row))\<rparr>"

definition mark_sent :: "time \<Rightarrow> gostring \<Rightarrow> sql_db \<Rightarrow> sql_db" where
  "mark_sent now cid db = db\<lparr>commands_table := map (\<lambda>c. if cr_command_id c = cid
     then c\<lparr>cr_status := ''SENT'', cr_sent_at := Some now\<rparr> else c) (commands_table db)\<rparr>"

definition sql_GetPendingCommands ::
  "db_faults \<Rightarrow> time \<Rightarrow> gostring \<Rightarrow> sql_db \<Rightarrow> device_command list outcome \<times> sql_db"
where
  "sql_GetPendingCommands faults now dev db =
     (case faults QueryPending of
        Some e \<Rightarrow> (Err e, db)
      | None \<Rightarrow>
          let cmds = map scan_command (read_rows faults QueryPending 0
                (sort_key cr_created_at (filter (pending_row dev) (commands_table db))))
          in (Ok cmds, fold (\<lambda>cid db. snd (exec faults (MarkSent cid) (mark_sent now cid) db))
                (map CommandID cmds) db))"

definition sql_AckCommand ::
  "db_faults \<Rightarrow> time \<Rightarrow> gostring \<Rightarrow> gostring \<Rightarrow> gostring \<Rightarrow> sql_db \<Rightarrow> unit outcome \<times> sql_db"
where
  "sql_AckCommand faults now dev cid res db =
     exec faults UpdateAck (\<lambda>db. db\<lparr>commands_table := map (\<lambda>c.
       if cr_device_id c = dev \<and> cr_command_id c = cid
       then c\<lparr>cr_status := ''ACKED'', cr_acked_at := Some now\<rparr> else c) (commands_table db)\<rparr>) db"

definition sql_ops :: "db_faults \<Rightarrow> sql_reals \<Rightarrow> sql_db repository" where
  "sql_ops faults reals = \<lparr>
     SaveTelemetry = sql_SaveTelemetry faults reals,
     GetDevice = sql_GetDevice faults,
     ListDevices = sql_ListDevices faults,
     SaveEvent = sql_SaveEvent faults,
     GetTelemetryHistory = sql_GetTelemetryHistory faults,
     QueueCommand = sql_QueueCommand faults,
     GetPendingCommands = sql_GetPendingCommands faults,
     AckCommand = sql_AckCommand faults\<rparr>"

section \<open>Lookups\<close>

abbreviation find_device :: "gostring \<Rightarrow> device_row list \<Rightarrow> device_row option" where
  "find_device dev \<equiv> find (\<lambda>row. dr_device_id row = dev)"

lemma update_row_id [simp]: "dr_device_id (update_row x row) = dr_device_id row"
  by (simp add: update_row_def)

lemma find_update:
  "find_device dev (map (\<lambda>row. if dr_device_id row = dr_device_id x then update_row x row else row) rows) =
     (if dev = dr_device_id x then map_option (update_row x) (find_device dev rows) else find_device dev rows)"
  by (induction rows) auto

lemma find_append: "find P (xs @ ys) = (case find P xs of None \<Rightarrow> find P ys | Some x \<Rightarrow> Some x)"
  by (induction xs) auto

lemma find_device_None: "find_device dev rows = None \<longleftrightarrow> dev \<notin> dr_device_id ` set rows"
  by (induction rows) auto

lemma find_device_Some: "find_device dev rows = Some row \<Longrightarrow> row \<in> set rows \<and> dr_device_id row = dev"
  by (induction rows) (auto split: if_splits)

lemma find_upsert [repo_simps]:
  "find_device dev (devices_table (upsert_device x db)) =
     (if dev = dr_device_id x
      then Some (case find_device dev (devices_table db) of None \<Rightarrow> x | Some row \<Rightarrow> update_row x row)
      else find_device dev (devices_table db))"
proof (cases "find_device (dr_device_id x) (devices_table db)")
  case None
  then have "\<not> (\<exists>row \<in> set (devices_table db). dr_device_id row = dr_device_id x)"
    unfolding find_device_None by (auto simp: image_iff)
  with None show ?thesis
    by (auto simp: upsert_device_def find_append split: option.splits)
next
  case (Some row)
  from find_device_Some[OF this] have "\<exists>row \<in> set (devices_table db). dr_device_id row = dr_device_id x" by blast
  with Some show ?thesis by (auto simp: upsert_device_def find_update)
qed

lemma upsert_tables [repo_simps]:
  "telemetries_table (upsert_device x db) = telemetries_table db"
  "commands_table (upsert_device x db) = commands_table db"
  "events_table (upsert_device x db) = events_table db"
  by (simp_all add: upsert_device_def)

lemma value_ids [simp]:
  "dr_device_id (device_values reals now t) = DeviceID (Header t)"
  "tr_device_id (telemetry_values reals now t) = DeviceID (Header t)"
  by (simp_all add: device_values_def telemetry_values_def Let_def split: option.splits)

text \<open>A save is committed as a whole or leaves the tables as they were.\<close>

definition saved :: "sql_reals \<Rightarrow> time \<Rightarrow> telemetry_payload \<Rightarrow> sql_db \<Rightarrow> sql_db" where
  "saved reals now t db =
     upsert_device (device_values reals now t) (insert_telemetry (telemetry_values reals now t) db)"

lemma sql_save_cases:
  "sql_SaveTelemetry faults reals now t db = (Ok (), saved reals now t db) \<or>
   (\<exists>e. sql_SaveTelemetry faults reals now t db = (Err e, db))"
  by (simp add: sql_SaveTelemetry_def saved_def exec_def split: option.splits)

lemma saved_tables [repo_simps]:
  "telemetries_table (saved reals now t db) = telemetries_table db @ [telemetry_values reals now t]"
  "commands_table (saved reals now t db) = commands_table db"
  "events_table (saved reals now t db) = events_table db"
  by (simp_all add: saved_def insert_telemetry_def repo_simps)

lemma find_saved [repo_simps]:
  "find_device dev (devices_table (saved reals now t db)) =
     (if dev = DeviceID (Header t)
      then Some (case find_device dev (devices_table db) of
                   None \<Rightarrow> device_values reals now t | Some row \<Rightarrow> update_row (device_values reals now t) row)
      else find_device dev (devices_table db))"
  by (simp add: saved_def find_upsert insert_telemetry_def)

section \<open>The invariant\<close>

definition telemetry_count :: "gostring \<Rightarrow> sql_db \<Rightarrow> nat" where
  "telemetry_count dev db = length (filter (\<lambda>r. tr_device_id r = dev) (telemetries_table db))"

lemma telemetry_count_other [simp]:
  "telemetry_count dev (db\<lparr>commands_table := cs\<rparr>) = telemetry_count dev db"
  "telemetry_count dev (db\<lparr>events_table := es\<rparr>) = telemetry_count dev db"
  by (simp_all add: telemetry_count_def)

definition sql_inv :: "sql_db \<Rightarrow> bool" where
  "sql_inv db \<longleftrightarrow>
     distinct (map dr_device_id (devices_table db)) \<and>
     distinct (map cr_command_id (commands_table db)) \<and>
     (\<forall>row \<in> set (devices_table db). dr_status row = ''ONLINE'' \<and> dr_current_interval_sec row \<noteq> 0 \<and>
        0 < telemetry_count (dr_device_id row) db \<and>
        dr_total_telemetries row = int (telemetry_count (dr_device_id row) db)) \<and>
     (\<forall>r \<in> set (telemetries_table db). tr_device_id r \<in> dr_device_id ` set (devices_table db)) \<and>
     (\<forall>c \<in> set (commands_table db). cr_status c \<in> {''PENDING'', ''SENT'', ''ACKED''})"

lemma sql_inv_empty: "sql_inv empty_db"
  by (simp add: sql_inv_def empty_db_def)

lemma sql_inv_find:
  assumes "sql_inv db" and "find_device dev (devices_table db) = Some row"
  shows "dr_status row = ''ONLINE''" and "dr_current_interval_sec row \<noteq> 0"
    and "0 < telemetry_count dev db" and "dr_total_telemetries row = int (telemetry_count dev db)"
  using assms find_device_Some[OF assms(2)] by (auto simp: sql_inv_def)

lemma device_values_ok:
  "dr_status (device_values reals now t) = ''ONLINE''" "dr_current_interval_sec (device_values reals now t) \<noteq> 0"
  "dr_total_telemetries (device_values reals now t) = 1" "0 < dr_current_interval_sec (device_values reals now t)"
  by (simp_all add: device_values_def Let_def word_neq_0_conv)

lemma upsert_ids:
  "map dr_device_id (devices_table (upsert_device x db)) =
     (if dr_device_id x \<in> dr_device_id ` set (devices_table db) then map dr_device_id (devices_table db)
      else map dr_device_id (devices_table db) @ [dr_device_id x])"
  by (auto simp: upsert_device_def image_iff) metis+

lemma saved_rows:
  assumes "row \<in> set (devices_table (saved reals now t db))"
  shows "dr_device_id row \<noteq> DeviceID (Header t) \<and> row \<in> set (devices_table db) \<or>
    row = device_values reals now t \<and> DeviceID (Header t) \<notin> dr_device_id ` set (devices_table db) \<or>
    (\<exists>r \<in> set (devices_table db). dr_device_id r = DeviceID (Header t) \<and>
       row = update_row (device_values reals now t) r)"
  using assms by (auto simp: saved_def upsert_device_def insert_telemetry_def split: if_splits)

lemma sql_inv_saved:
  assumes inv: "sql_inv db"
  shows "sql_inv (saved reals now t db)"
proof -
  let ?db = "saved reals now t db" and ?x = "device_values reals now t" and ?dev = "DeviceID (Header t)"
  have ids: "map dr_device_id (devices_table ?db) =
      (if ?dev \<in> dr_device_id ` set (devices_table db) then map dr_device_id (devices_table db)
       else map dr_device_id (devices_table db) @ [?dev])"
    by (simp add: saved_def upsert_ids insert_telemetry_def)
  have count: "telemetry_count dev ?db = telemetry_count dev db + (if dev = ?dev then 1 else 0)" for dev
    by (simp add: telemetry_count_def saved_tables)
  have zero: "?dev \<notin> dr_device_id ` set (devices_table db) \<Longrightarrow> telemetry_count ?dev db = 0"
    using inv by (auto simp: sql_inv_def telemetry_count_def filter_empty_conv simp del: image_iff) (metis)
  show ?thesis
    unfolding sql_inv_def
  proof (intro conjI ballI)
    show "distinct (map dr_device_id (devices_table ?db))"
      using inv by (simp add: ids sql_inv_def)
    show "distinct (map cr_command_id (commands_table ?db))" using inv by (simp add: saved_tables sql_inv_def)
    show "cr_status c \<in> {''PENDING'', ''SENT'', ''ACKED''}" if "c \<in> set (commands_table ?db)" for c
      using that inv by (simp add: saved_tables sql_inv_def)
    show "tr_device_id r \<in> dr_device_id ` set (devices_table ?db)" if "r \<in> set (telemetries_table ?db)" for r
    proof -
      have "set (map dr_device_id (devices_table ?db)) = insert ?dev (dr_device_id ` set (devices_table db))"
        unfolding ids by auto
      with that inv show ?thesis by (auto simp: saved_tables sql_inv_def)
    qed
    fix row assume row: "row \<in> set (devices_table ?db)"
    from saved_rows[OF row] inv zero
    show "dr_status row = ''ONLINE''" "dr_current_interval_sec row \<noteq> 0" "0 < telemetry_count (dr_device_id row) ?db"
      "dr_total_telemetries row = int (telemetry_count (dr_device_id row) ?db)"
      by (auto simp: sql_inv_def count device_values_ok update_row_def)
  qed
qed

lemma exec_cases: "exec faults call eff db = (Ok (), eff db) \<or> (\<exists>e. exec faults call eff db = (Err e, db))"
  by (simp add: exec_def split: option.splits)

text \<open>Marking the delivered commands: those whose update the engine executed.\<close>

definition mark_all :: "time \<Rightarrow> gostring set \<Rightarrow> sql_db \<Rightarrow> sql_db" where
  "mark_all now cids db = db\<lparr>commands_table := map (\<lambda>c. if cr_command_id c \<in> cids
     then c\<lparr>cr_status := ''SENT'', cr_sent_at := Some now\<rparr> else c) (commands_table db)\<rparr>"

lemma mark_all_more: "mark_all now X (mark_sent now cid db) = mark_all now (insert cid X) db"
  by (auto simp: mark_all_def mark_sent_def)

lemma fold_mark:
  "fold (\<lambda>cid db. snd (exec faults (MarkSent cid) (mark_sent now cid) db)) cids db =
     mark_all now {cid \<in> set cids. faults (MarkSent cid) = None} db"
proof (induction cids arbitrary: db)
  case Nil
  show ?case by (simp add: mark_all_def)
next
  case (Cons cid cids)
  show ?case
  proof (cases "faults (MarkSent cid)")
    case None
    then have "{c \<in> set (cid # cids). faults (MarkSent c) = None} =
        insert cid {c \<in> set cids. faults (MarkSent c) = None}" by auto
    with None Cons show ?thesis by (simp add: exec_def mark_all_more)
  next
    case (Some e)
    then have "{c \<in> set (cid # cids). faults (MarkSent c) = None} = {c \<in> set cids. faults (MarkSent c) = None}"
      by auto
    with Some Cons show ?thesis by (simp add: exec_def)
  qed
qed

definition pending_commands :: "gostring \<Rightarrow> sql_db \<Rightarrow> device_command list" where
  "pending_commands dev db =
     map (scan_command) (sort_key cr_created_at (filter (pending_row dev) (commands_table db)))"

text \<open>The commands that a poll reads.\<close>

definition polled_commands :: "db_faults \<Rightarrow> gostring \<Rightarrow> sql_db \<Rightarrow> device_command list" where
  "polled_commands faults dev db = map scan_command (read_rows faults QueryPending 0
     (sort_key cr_created_at (filter (pending_row dev) (commands_table db))))"

lemma polled_pending: "set (polled_commands faults dev db) \<subseteq> set (pending_commands dev db)"
  using read_rows_subset[of faults QueryPending 0 "sort_key cr_created_at (filter (pending_row dev) (commands_table db))"]
  by (auto simp: polled_commands_def pending_commands_def)

lemma polled_all: "(\<And>j. faults (NextRow QueryPending j) = None \<and> faults (ScanRow QueryPending j) = None) \<Longrightarrow>
    polled_commands faults dev db = pending_commands dev db"
  by (simp add: polled_commands_def pending_commands_def read_rows_all)

lemma sql_pending_cases:
  "sql_GetPendingCommands faults now dev db =
     (case faults QueryPending of
        Some e \<Rightarrow> (Err e, db)
      | None \<Rightarrow> (Ok (polled_commands faults dev db),
          mark_all now {cid \<in> CommandID ` set (polled_commands faults dev db). faults (MarkSent cid) = None} db))"
  by (simp add: sql_GetPendingCommands_def polled_commands_def Let_def fold_mark split: option.splits)

lemma pending_ids: "CommandID ` set (pending_commands dev db) =
    cr_command_id ` {c \<in> set (commands_table db). pending_row dev c}"
  by (force simp: pending_commands_def scan_command_def)

lemma mark_all_tables [repo_simps]:
  "devices_table (mark_all now X db) = devices_table db"
  "telemetries_table (mark_all now X db) = telemetries_table db"
  "events_table (mark_all now X db) = events_table db"
  "map cr_command_id (commands_table (mark_all now X db)) = map cr_command_id (commands_table db)"
  by (simp_all add: mark_all_def)

lemma sql_inv_commands:
  assumes "sql_inv db" and "distinct (map cr_command_id cs)"
    and "\<forall>c \<in> set cs. cr_status c \<in> {''PENDING'', ''SENT'', ''ACKED''}"
  shows "sql_inv (db\<lparr>commands_table := cs\<rparr>)"
  using assms by (simp add: sql_inv_def)

lemma sql_inv_mark: "sql_inv db \<Longrightarrow> sql_inv (mark_all now X db)"
  unfolding mark_all_def
  by (rule sql_inv_commands) (auto simp: sql_inv_def comp_def if_distrib cong: if_cong)

lemma ack_effect_table:
  "sql_AckCommand faults now dev cid res db = (Ok (), db\<lparr>commands_table := map (\<lambda>c.
       if cr_device_id c = dev \<and> cr_command_id c = cid
       then c\<lparr>cr_status := ''ACKED'', cr_acked_at := Some now\<rparr> else c) (commands_table db)\<rparr>) \<or>
   (\<exists>e. sql_AckCommand faults now dev cid res db = (Err e, db))"
  unfolding sql_AckCommand_def by (rule exec_cases)

lemma acked_not_pending:
  assumes "sql_AckCommand faults now dev cid res db = (Ok (), db')"
    and "x \<in> set (commands_table db')" and "pending_row dev x"
  shows "cr_command_id x \<noteq> cid"
proof -
  have db': "commands_table db' = map (\<lambda>c. if cr_device_id c = dev \<and> cr_command_id c = cid
       then c\<lparr>cr_status := ''ACKED'', cr_acked_at := Some now\<rparr> else c) (commands_table db)"
    using ack_effect_table[of faults now dev cid res db] assms(1) by (elim disjE exE) auto
  then obtain c where "x = (if cr_device_id c = dev \<and> cr_command_id c = cid
       then c\<lparr>cr_status := ''ACKED'', cr_acked_at := Some now\<rparr> else c)"
    using assms(2) unfolding db' set_map by blast
  then show ?thesis using assms(3) by (cases "cr_device_id c = dev \<and> cr_command_id c = cid") (auto simp: pending_row_def)
qed

lemma sql_inv_ack: "sql_inv db \<Longrightarrow> sql_inv (snd (sql_AckCommand faults now dev cid res db))"
  using ack_effect_table[of faults now dev cid res db]
proof (elim disjE exE)
  assume inv: "sql_inv db" and eq: "sql_AckCommand faults now dev cid res db = (Ok (), db\<lparr>commands_table := map (\<lambda>c.
       if cr_device_id c = dev \<and> cr_command_id c = cid
       then c\<lparr>cr_status := ''ACKED'', cr_acked_at := Some now\<rparr> else c) (commands_table db)\<rparr>)"
  have ids: "map cr_command_id (map (\<lambda>c. if cr_device_id c = dev \<and> cr_command_id c = cid
       then c\<lparr>cr_status := ''ACKED'', cr_acked_at := Some now\<rparr> else c) cs) = map cr_command_id cs" for cs
    by (induction cs) auto
  show ?thesis
    unfolding eq snd_conv
    by (rule sql_inv_commands[OF inv]) (use inv in \<open>auto simp: ids sql_inv_def simp del: map_map\<close>)
qed simp

definition new_command_row :: "time \<Rightarrow> gostring \<Rightarrow> device_command \<Rightarrow> command_row" where
  "new_command_row now dev c =
     \<lparr>cr_device_id = dev, cr_command_id = CommandID c, cr_action = Action c,
      cr_params_json = marshal_map (Params c), cr_status = ''PENDING'',
      cr_created_at = now, cr_sent_at = None, cr_acked_at = None\<rparr>"

lemma queue_effect_table:
  "(CommandID c \<notin> cr_command_id ` set (commands_table db) \<and>
    sql_QueueCommand faults now dev c db =
      (Ok (), db\<lparr>commands_table := commands_table db @ [new_command_row now dev c]\<rparr>)) \<or>
   (\<exists>e. sql_QueueCommand faults now dev c db = (Err e, db))"
  by (simp add: sql_QueueCommand_def new_command_row_def exec_def split: option.splits)

lemma sql_inv_queue: "sql_inv db \<Longrightarrow> sql_inv (snd (sql_QueueCommand faults now dev c db))"
  using queue_effect_table[of c db faults now dev]
proof (elim disjE exE conjE)
  assume inv: "sql_inv db" and new: "CommandID c \<notin> cr_command_id ` set (commands_table db)"
    and eq: "sql_QueueCommand faults now dev c db =
      (Ok (), db\<lparr>commands_table := commands_table db @ [new_command_row now dev c]\<rparr>)"
  show ?thesis
    unfolding eq snd_conv
    by (rule sql_inv_commands[OF inv]) (use inv new in \<open>auto simp: sql_inv_def new_command_row_def\<close>)
qed simp

lemma sql_inv_event: "sql_inv db \<Longrightarrow> sql_inv (snd (sql_SaveEvent faults now e db))"
  by (simp add: sql_SaveEvent_def exec_def sql_inv_def split: option.splits)

lemma sql_device_tables [repo_simps]:
  "devices_table (snd (sql_SaveEvent faults now e db)) = devices_table db"
  "devices_table (snd (sql_QueueCommand faults now dev c db)) = devices_table db"
  "devices_table (snd (sql_GetPendingCommands faults now dev db)) = devices_table db"
  "devices_table (snd (sql_AckCommand faults now dev cid res db)) = devices_table db"
  by (simp_all add: sql_SaveEvent_def sql_QueueCommand_def sql_pending_cases sql_AckCommand_def exec_def
      mark_all_def split: option.splits)

text \<open>The device entry that a committed save leaves.\<close>

lemma sql_get_saved:
  assumes "faults QueryDevice = None"
  shows "sql_GetDevice faults dev (saved reals now t db) =
    (if dev = DeviceID (Header t)
     then Ok (row_device 0 (case find_device dev (devices_table db) of
            None \<Rightarrow> device_values reals now t | Some row \<Rightarrow> update_row (device_values reals now t) row))
     else sql_GetDevice faults dev db)"
  using assms by (simp add: sql_GetDevice_def repo_simps)

lemma reports_row:
  "reports now t (row_device n (device_values reals now t))"
  "dr_device_id row = DeviceID (Header t) \<Longrightarrow>
     reports now t (row_device n (update_row (device_values reals now t) row))"
  by (simp_all add: reports_def row_device_def update_row_def device_values_def Let_def)

lemma saved_reports:
  assumes "faults QueryDevice = None"
  shows "\<exists>d. sql_GetDevice faults (payload_id t) (saved reals now t db) = Ok d \<and> reports now t d"
proof (cases "find_device (payload_id t) (devices_table db)")
  case None
  with assms show ?thesis by (simp add: sql_get_saved reports_row)
next
  case (Some row)
  with assms find_device_Some[OF Some] show ?thesis by (simp add: sql_get_saved reports_row)
qed

lemma saved_counts:
  assumes "faults QueryDevice = None" and "sql_GetDevice faults (payload_id t) db = Ok d"
    and "sql_GetDevice faults (payload_id t) (saved reals now t db) = Ok d'"
  shows "TotalTelemetries d' = TotalTelemetries d + 1"
proof (cases "find_device (payload_id t) (devices_table db)")
  case None
  with assms show ?thesis by (simp add: sql_GetDevice_def)
next
  case (Some row)
  from assms(2) Some assms(1) have "d = row_device 0 row" by (simp add: sql_GetDevice_def)
  moreover from assms(1,3) Some have "d' = row_device 0 (update_row (device_values reals now t) row)"
    by (simp add: sql_get_saved)
  ultimately show ?thesis by (simp add: row_device_def update_row_def Let_def)
qed

section \<open>The contract of the interface\<close>

text \<open>Whatever calls fail, as long as the look-up of a device is answered.\<close>

abbreviation answering :: "db_faults \<Rightarrow> db_faults" where
  "answering faults \<equiv> faults(QueryDevice := None)"

lemma sql_ops_parts [simp]:
  "SaveTelemetry (sql_ops faults reals) = sql_SaveTelemetry faults reals"
  "GetDevice (sql_ops faults reals) = sql_GetDevice faults"
  "ListDevices (sql_ops faults reals) = sql_ListDevices faults"
  "SaveEvent (sql_ops faults reals) = sql_SaveEvent faults"
  "GetTelemetryHistory (sql_ops faults reals) = sql_GetTelemetryHistory faults"
  "QueueCommand (sql_ops faults reals) = sql_QueueCommand faults"
  "GetPendingCommands (sql_ops faults reals) = sql_GetPendingCommands faults"
  "AckCommand (sql_ops faults reals) = sql_AckCommand faults"
  by (simp_all add: sql_ops_def)

interpretation sql: repository_contract "sql_ops (answering faults) reals" sql_inv for faults reals
proof
  fix s s' s'' now now' t e dev dev' c cid res r cs d d'
  let ?f = "answering faults"
  note save = sql_save_cases[of ?f reals now t s]
  assume inv: "sql_inv s"
  show "sql_inv (snd (SaveTelemetry (sql_ops ?f reals) now t s))"
    using save inv sql_inv_saved by auto
  show "sql_inv (snd (SaveEvent (sql_ops ?f reals) now e s))"
    "sql_inv (snd (QueueCommand (sql_ops ?f reals) now dev c s))"
    "sql_inv (snd (AckCommand (sql_ops ?f reals) now dev cid res s))"
    using inv by (simp_all add: sql_inv_event sql_inv_queue sql_inv_ack)
  show "sql_inv (snd (GetPendingCommands (sql_ops ?f reals) now dev s))"
    using inv by (simp add: sql_pending_cases sql_inv_mark split: option.splits)
  show "GetDevice (sql_ops ?f reals) dev (snd (SaveEvent (sql_ops ?f reals) now e s)) = GetDevice (sql_ops ?f reals) dev s"
    "GetDevice (sql_ops ?f reals) dev (snd (QueueCommand (sql_ops ?f reals) now dev' c s)) = GetDevice (sql_ops ?f reals) dev s"
    "GetDevice (sql_ops ?f reals) dev (snd (GetPendingCommands (sql_ops ?f reals) now dev' s)) = GetDevice (sql_ops ?f reals) dev s"
    "GetDevice (sql_ops ?f reals) dev (snd (AckCommand (sql_ops ?f reals) now dev' cid res s)) = GetDevice (sql_ops ?f reals) dev s"
    by (simp_all only: sql_ops_parts sql_GetDevice_def sql_device_tables)
  { assume "SaveTelemetry (sql_ops ?f reals) now t s = (r, s')" "r \<noteq> Ok ()"
    then show "s' = s" using save by auto }
  { assume "SaveTelemetry (sql_ops ?f reals) now t s = (Ok (), s')"
    then have s': "s' = saved reals now t s" using save by auto
    show "\<exists>d. GetDevice (sql_ops ?f reals) (payload_id t) s' = Ok d \<and> reports now t d"
      unfolding s' sql_ops_parts by (rule saved_reports) simp
    assume "GetDevice (sql_ops ?f reals) (payload_id t) s = Ok d" "GetDevice (sql_ops ?f reals) (payload_id t) s' = Ok d'"
    then show "TotalTelemetries d' = TotalTelemetries d + 1"
      unfolding s' sql_ops_parts by (intro saved_counts[where faults = ?f and t = t and db = s and reals = reals and now = now]) simp_all }
  { assume "SaveTelemetry (sql_ops ?f reals) now t s = (r, s')" "dev \<noteq> payload_id t"
    then show "GetDevice (sql_ops ?f reals) dev s' = GetDevice (sql_ops ?f reals) dev s"
      using save sql_get_saved[of ?f dev reals now t s] by auto }
  { assume a: "AckCommand (sql_ops ?f reals) now dev cid res s = (Ok (), s')"
      "GetPendingCommands (sql_ops ?f reals) now' dev s' = (Ok cs, s'')" "c \<in> set cs"
    have "set cs \<subseteq> set (pending_commands dev s')"
      using a(2) polled_pending[of ?f dev s'] by (simp add: sql_pending_cases split: option.splits)
    with a(3) have "CommandID c \<in> cr_command_id ` {x \<in> set (commands_table s'). pending_row dev x}"
      unfolding pending_ids[symmetric] by blast
    then obtain x where x: "x \<in> set (commands_table s')" "pending_row dev x" "CommandID c = cr_command_id x"
      by blast
    show "CommandID c \<noteq> cid"
      unfolding x(3) using a(1) x(1,2) by (intro acked_not_pending[of ?f now dev cid res s s' x]) simp_all }
qed

end
