(* ===== verification/Sql_Properties.thy ===== *)
theory Sql_Properties
  imports Sql_Repo Memory_Handlers
begin

text \<open>
  What the SQL repository keeps over any sequence of its operations, each run with any set of
  failing calls of the engine: the counters agree with the stored rows, a command leaves the
  pending state for good, and a save is all or nothing. The handlers' guarantees come from the
  contract through the interpretation \<open>sql\<close>.
\<close>

datatype sql_op =
    SqlSave time telemetry_payload
  | SqlEvent time event_payload
  | SqlQueue time gostring device_command
  | SqlPoll time gostring
  | SqlAck time gostring gostring gostring

primrec sql_step :: "sql_reals \<Rightarrow> db_faults \<Rightarrow> sql_op \<Rightarrow> sql_db \<Rightarrow> sql_db" where
  "sql_step reals faults (SqlSave now t) db = snd (sql_SaveTelemetry faults reals now t db)"
| "sql_step reals faults (SqlEvent now e) db = snd (sql_SaveEvent faults now e db)"
| "sql_step reals faults (SqlQueue now dev c) db = snd (sql_QueueCommand faults now dev c db)"
| "sql_step reals faults (SqlPoll now dev) db = snd (sql_GetPendingCommands faults now dev db)"
| "sql_step reals faults (SqlAck now dev cid res) db = snd (sql_AckCommand faults now dev cid res db)"

definition sql_run :: "sql_reals \<Rightarrow> (db_faults \<times> sql_op) list \<Rightarrow> sql_db \<Rightarrow> sql_db" where
  "sql_run reals ops db = fold (\<lambda>(faults, x). sql_step reals faults x) ops db"

lemma sql_run_Cons: "sql_run reals ((faults, x) # ops) db = sql_run reals ops (sql_step reals faults x db)"
  by (simp add: sql_run_def)

lemma sql_step_inv: "sql_inv db \<Longrightarrow> sql_inv (sql_step reals faults x db)"
proof (cases x)
  case (SqlSave now t)
  assume "sql_inv db"
  then show ?thesis
    using SqlSave sql_save_cases[of faults reals now t db] sql_inv_saved by auto
qed (simp_all add: sql_inv_event sql_inv_queue sql_inv_ack sql_pending_cases sql_inv_mark split: option.splits)

lemma sql_run_inv: "sql_inv db \<Longrightarrow> sql_inv (sql_run reals ops db)"
proof (induction ops arbitrary: db)
  case (Cons op ops)
  then show ?case by (cases op) (simp add: sql_run_Cons sql_step_inv)
qed (simp add: sql_run_def)

text \<open>A command that is no longer pending.\<close>

definition settled :: "gostring \<Rightarrow> sql_db \<Rightarrow> bool" where
  "settled cid db \<longleftrightarrow> (\<exists>c \<in> set (commands_table db). cr_command_id c = cid) \<and>
     (\<forall>c \<in> set (commands_table db). cr_command_id c = cid \<longrightarrow> cr_status c \<noteq> ''PENDING'')"

lemma settled_map:
  assumes "settled cid db" and "commands_table db' = map f (commands_table db)"
    and "\<And>c. cr_command_id (f c) = cr_command_id c"
    and "\<And>c. cr_status c \<noteq> ''PENDING'' \<Longrightarrow> cr_status (f c) \<noteq> ''PENDING''"
  shows "settled cid db'"
  using assms by (auto simp: settled_def)

lemma settled_step: "settled cid db \<Longrightarrow> settled cid (sql_step reals faults x db)"
proof (cases x)
  case (SqlSave now t)
  assume "settled cid db"
  then show ?thesis using SqlSave sql_save_cases[of faults reals now t db]
    by (auto simp: settled_def saved_tables)
next
  case (SqlEvent now e)
  assume "settled cid db"
  then show ?thesis using SqlEvent by (simp add: sql_SaveEvent_def exec_def settled_def split: option.splits)
next
  case (SqlQueue now dev c)
  assume s: "settled cid db"
  from queue_effect_table[of c db faults now dev] show ?thesis
  proof (elim disjE exE conjE)
    assume new: "CommandID c \<notin> cr_command_id ` set (commands_table db)"
      and eq: "sql_QueueCommand faults now dev c db =
        (Ok (), db\<lparr>commands_table := commands_table db @ [new_command_row now dev c]\<rparr>)"
    have "CommandID c \<noteq> cid" using s new by (auto simp: settled_def)
    with s show ?thesis by (simp add: SqlQueue eq settled_def new_command_row_def)
  qed (use s SqlQueue in simp)
next
  case (SqlPoll now dev)
  assume s: "settled cid db"
  have "settled cid (mark_all now X db)" for X
    by (rule settled_map[OF s, where f = "\<lambda>c. if cr_command_id c \<in> X
          then c\<lparr>cr_status := ''SENT'', cr_sent_at := Some now\<rparr> else c"])
       (simp_all add: mark_all_def)
  with s show ?thesis by (simp add: SqlPoll sql_pending_cases split: option.splits)
next
  case (SqlAck now dev cid' res)
  assume s: "settled cid db"
  from ack_effect_table[of faults now dev cid' res db] show ?thesis
  proof (elim disjE exE)
    assume eq: "sql_AckCommand faults now dev cid' res db = (Ok (), db\<lparr>commands_table := map (\<lambda>c.
       if cr_device_id c = dev \<and> cr_command_id c = cid'
       then c\<lparr>cr_status := ''ACKED'', cr_acked_at := Some now\<rparr> else c) (commands_table db)\<rparr>)"
    show ?thesis
      by (rule settled_map[OF s, where f = "\<lambda>c. if cr_device_id c = dev \<and> cr_command_id c = cid'
            then c\<lparr>cr_status := ''ACKED'', cr_acked_at := Some now\<rparr> else c"])
         (simp_all add: SqlAck eq)
  qed (use s SqlAck in simp)
qed

lemma settled_run: "settled cid db \<Longrightarrow> settled cid (sql_run reals ops db)"
proof (induction ops arbitrary: db)
  case (Cons op ops)
  then show ?case by (cases op) (simp add: sql_run_Cons settled_step)
qed (simp add: sql_run_def)

lemma settled_not_pending: "settled cid db \<Longrightarrow> cid \<notin> CommandID ` set (pending_commands dev db)"
  by (auto simp: pending_ids settled_def pending_row_def)

section \<open>Properties of the SQL repository\<close>

text \<open>
  C14: Whatever operations run, and whichever calls of the engine fail, the database stays
  consistent: a device is known exactly when a telemetry of it is stored, and its entry counts
  the stored rows.
\<close>

theorem sql_run_consistent:
  "case sql_GetDevice (answering faults) dev (sql_run reals ops empty_db) of
      Ok d \<Rightarrow> DevID d = dev \<and> DevStatus d = ''ONLINE'' \<and>
        0 < telemetry_count dev (sql_run reals ops empty_db) \<and>
        TotalTelemetries d = word_of_nat (telemetry_count dev (sql_run reals ops empty_db))
    | Err e \<Rightarrow> e = DeviceNotFound \<and> telemetry_count dev (sql_run reals ops empty_db) = 0
    | Panic \<Rightarrow> False"
proof -
  let ?db = "sql_run reals ops empty_db"
  have inv: "sql_inv ?db" by (rule sql_run_inv[OF sql_inv_empty])
  show ?thesis
  proof (cases "find_device dev (devices_table ?db)")
    case None
    then have "dev \<notin> dr_device_id ` set (devices_table ?db)" by (simp only: find_device_None not_False_eq_True)
    with inv have "\<forall>r \<in> set (telemetries_table ?db). tr_device_id r \<noteq> dev" unfolding sql_inv_def by metis
    then have "telemetry_count dev ?db = 0" by (simp add: telemetry_count_def filter_empty_conv)
    with None show ?thesis by (simp add: sql_GetDevice_def)
  next
    case (Some row)
    note r = sql_inv_find[OF inv Some]
    have "dr_device_id row = dev" using find_device_Some[OF Some] by simp
    with Some r show ?thesis by (simp add: sql_GetDevice_def row_device_def Let_def)
  qed
qed

text \<open>
  C19: Saving a telemetry is all or nothing: it succeeds exactly when none of the four calls of
  the transaction fails, and then the row is stored and the device's entry reports it;
  otherwise an error is returned and the tables are as they were.
\<close>

theorem sql_save_atomic:
  "case sql_SaveTelemetry faults reals now t db of
     (Ok _, db') \<Rightarrow> faults BeginTx = None \<and> faults InsertTelemetry = None \<and> faults UpsertDevice = None \<and>
        faults CommitTx = None \<and>
        telemetries_table db' = telemetries_table db @ [telemetry_values reals now t] \<and>
        (\<exists>d. sql_GetDevice (answering faults) (payload_id t) db' = Ok d \<and> reports now t d)
   | (Err e, db') \<Rightarrow> (\<exists>call \<in> {BeginTx, InsertTelemetry, UpsertDevice, CommitTx}. faults call = Some e \<or>
        (\<exists>e' msg. faults call = Some e' \<and> e = wrap_error msg e')) \<and> db' = db
   | (Panic, _) \<Rightarrow> False"
  using saved_reports[of "answering faults" t reals now db]
  by (auto simp: sql_SaveTelemetry_def exec_def saved_def[symmetric] saved_tables split: option.splits)

definition demo_reals :: sql_reals where
  "demo_reals x = (if f64_is_nan x then None else Some x)"

definition no_faults :: db_faults where
  "no_faults = (\<lambda>_. None)"

text \<open>What the row of a payload reads back as.\<close>

definition stored_view :: "telemetry_payload \<Rightarrow> telemetry_payload" where
  "stored_view t = t\<lparr>Metrics := (Metrics t)\<lparr>IntervalSec := 0, CustomValues := None\<rparr>,
     Status := Some (case Status t of None \<Rightarrow> \<lparr>State = ''NORMAL'', UptimeSec = 0, FreeHeapBytes = 0\<rparr>
                     | Some s \<Rightarrow> s)\<rparr>"

definition read_back :: "sql_reals \<Rightarrow> telemetry_payload \<Rightarrow> telemetry_payload option" where
  "read_back reals t =
     (case (reals (Temperature (Metrics t)), reals (Humidity (Metrics t)), reals (BatteryVoltage (Metrics t))) of
        (Some temp, Some humi, Some volt) \<Rightarrow>
          Some ((stored_view t)\<lparr>Metrics := (Metrics (stored_view t))\<lparr>Temperature := temp, Humidity := humi,
            BatteryVoltage := volt\<rparr>\<rparr>)
      | _ \<Rightarrow> None)"

lemma row_read_back: "scan_telemetry (DeviceID (Header t)) (telemetry_values reals now t) = read_back reals t"
  by (simp add: read_back_def scan_telemetry_def telemetry_values_def stored_view_def Let_def split: option.splits)

lemma dispatch_sql_rows:
  assumes "engine_repo e = None \<or> engine_repo e = Some (sql_ops faults reals)"
    and "dispatch_alerts e clk h alts (s, started) = (r, s', started')"
  shows "telemetries_table s' = telemetries_table s"
  using assms(2)
proof (induction alts arbitrary: clk s started)
  case (Cons alt alts)
  obtain q s1 where q: "(case engine_repo e of None \<Rightarrow> (Ok (), s)
      | Some ops \<Rightarrow> SaveEvent ops (clk 0) (alert_record h alt) s) = (q, s1)" by fastforce
  have "telemetries_table s1 = telemetries_table s"
    using q assms(1) by (auto simp: sql_SaveEvent_def exec_def split: option.splits)
  with Cons show ?case by (auto simp: q split: outcome.splits)
qed simp

lemma sql_pending_rows: "telemetries_table (snd (sql_GetPendingCommands faults now dev db)) = telemetries_table db"
  by (simp add: sql_pending_cases mark_all_def split: option.splits)

lemma sql_accepted_row:
  assumes "accept_telemetry (NewApiHandler env (sql_ops faults reals) url) env' clk p st = Some (Ok resp, st')"
    and "StatusCode resp = 200"
  shows "telemetries_table (repo_state st') = telemetries_table (repo_state st) @ [telemetry_values reals (clk 0) p]"
proof -
  let ?h = "NewApiHandler env (sql_ops faults reals) url"
  have parts: "repo ?h = sql_ops faults reals" "engine_repo (ruleEngine ?h) = Some (sql_ops faults reals)"
    by (simp_all add: NewApiHandler_def NewRuleEngine_def)
  obtain al s2 started where ev: "EvaluateAndAlert (ruleEngine ?h) (\<lambda>n. clk (n + 3)) p (saved reals (clk 0) p (repo_state st)) =
      (al, s2, started)" by (metis prod_cases3)
  obtain r s' calls where "dispatch_alerts (ruleEngine ?h) ((\<lambda>n. clk (n + 3)) \<circ> Suc) (Header p)
      (evaluate_rules (thresholds (ruleEngine ?h)) (unix_seconds (clk 3)) p) (saved reals (clk 0) p (repo_state st), []) = (r, s', calls)"
    by (metis prod_cases3)
  with dispatch_sql_rows[OF _ this] parts(2) ev
  have s2: "telemetries_table s2 = telemetries_table (repo_state st) @ [telemetry_values reals (clk 0) p]"
    by (simp add: EvaluateAndAlert_def saved_tables)
  from sql_save_cases[of faults reals "clk 0" p "repo_state st"] assms parts(1) ev
  consider "sql_SaveTelemetry faults reals (clk 0) p (repo_state st) = (Ok (), saved reals (clk 0) p (repo_state st))"
    by (auto simp: accept_telemetry_def writeError_def json_response_def)
  then show ?thesis
  proof cases
    case 1
    then have "respond_telemetry ?h env' (\<lambda>n. clk (n + 1)) p (st\<lparr>repo_state := s2, webhook_calls := webhook_calls st @ started\<rparr>) =
        Some (Ok resp, st')"
      using assms(1) ev parts(1) by (auto simp: accept_telemetry_def Let_def split: outcome.splits)
    then have "repo_state st' = snd (sql_GetPendingCommands faults (clk 1) (DeviceID (Header p)) s2)"
      using parts(1) by (auto simp: respond_telemetry_def Let_def split: outcome.splits prod.splits)
    then show ?thesis by (simp add: s2 sql_pending_rows)
  qed
qed

definition row_of_payload :: "sql_reals \<Rightarrow> time \<Rightarrow> telemetry_payload \<Rightarrow> telemetry_row \<Rightarrow> bool" where
  "row_of_payload reals now p row \<longleftrightarrow>
     tr_device_id row = DeviceID (Header p) \<and> tr_timestamp row = Timestamp (Header p) \<and> tr_seq_no row = SeqNo (Header p) \<and>
     tr_firmware_version row = FirmwareVersion (Header p) \<and> tr_boot_count row = BootCount (Header p) \<and>
     tr_temperature row = reals (Temperature (Metrics p)) \<and> tr_humidity row = reals (Humidity (Metrics p)) \<and>
     tr_battery_voltage row = reals (BatteryVoltage (Metrics p)) \<and>
     tr_battery_level_pct row = BatteryLevelPct (Metrics p) \<and> tr_rssi row = RSSI (Metrics p) \<and>
     tr_state row = (case Status p of None \<Rightarrow> ''NORMAL'' | Some s \<Rightarrow> State s) \<and>
     tr_uptime_sec row = (case Status p of None \<Rightarrow> 0 | Some s \<Rightarrow> UptimeSec s) \<and>
     tr_free_heap_bytes row = (case Status p of None \<Rightarrow> 0 | Some s \<Rightarrow> FreeHeapBytes s) \<and>
     tr_custom_values_json row = marshal_map (CustomValues (Metrics p)) \<and> tr_created_at row = now"

lemma values_of_payload: "row_of_payload reals now p (telemetry_values reals now p)"
  by (auto simp: row_of_payload_def telemetry_values_def Let_def split: option.splits)

text \<open>
  C15: On the SQL repository too, with any set of failing calls other than the device look-up, a
  telemetry request answered 200 stored an authentic payload: one row was appended, each of its
  columns holds the field of the payload, the history reads the row back as the payload without
  interval and custom values, with a NORMAL status where it had none (or skips it, when a column
  holds NULL for a measurement), and the device's entry reports the payload. A request answered
  otherwise changed nothing.
\<close>

theorem sql_telemetry_stored_or_refused:
  assumes "sql_inv (repo_state st)"
    and "HandleTelemetry (NewApiHandler env (sql_ops (answering faults) reals) url) env clk ctx req st = Some (Ok resp, st')"
  shows "sql_inv (repo_state st') \<and>
    (if StatusCode resp = 200
     then \<exists>p row d. submits env ctx req p \<and>
       telemetries_table (repo_state st') = telemetries_table (repo_state st) @ [row] \<and> row_of_payload reals (clk 0) p row \<and>
       scan_telemetry (DeviceID (Header p)) row = read_back reals p \<and>
       sql_GetDevice (answering faults) (DeviceID (Header p)) (repo_state st') = Ok d \<and> reports (clk 0) p d
     else st' = st)"
  using telemetry_cases[OF assms(2)]
proof (elim disjE exE conjE)
  fix p assume p: "submits env ctx req p"
    "accept_telemetry (NewApiHandler env (sql_ops (answering faults) reals) url) env clk p st = Some (Ok resp, st')"
  from sql.accept_effect[OF p(2) new_handler_wired assms(1)] p(1) sql_accepted_row[OF p(2)]
    values_of_payload[of reals "clk 0" p] row_read_back[of p reals "clk 0"] show ?thesis by auto
qed (use assms(1) in auto)

lemma demo_no_alerts: "evaluate_rules DefaultThresholds now demo_payload = []"
proof -
  have m: "Temperature (Metrics demo_payload) = 0" "BatteryLevelPct (Metrics demo_payload) = 80"
    "RSSI (Metrics demo_payload) = 0"
    by (simp_all add: demo_payload_def zero_metrics_def)
  have "\<not> (35 * 2 ^ 1074 < f64_scaled 0)" "\<not> f64_scaled 0 < 0" by (simp_all add: default_low_value)
  then have "\<not> f64_gt (Temperature (Metrics demo_payload)) (HighTempThreshold DefaultThresholds)"
    "\<not> f64_lt (Temperature (Metrics demo_payload)) (LowTempThreshold DefaultThresholds)"
    unfolding m(1) default_temperature[OF default_low_value(2)] .
  moreover have "\<not> (0 < BatteryLevelPct (Metrics demo_payload) \<and>
      BatteryLevelPct (Metrics demo_payload) < LowBatteryPct DefaultThresholds)"
    "\<not> sint (RSSI (Metrics demo_payload)) < sint (WeakRSSIThreshold DefaultThresholds)"
    unfolding m by (simp_all add: DefaultThresholds_def)
  ultimately have "map RuleName (evaluate_rules DefaultThresholds now demo_payload) = []"
    unfolding rule_names by (simp only: if_False append_Nil)
  then show ?thesis by (simp only: map_is_Nil_conv)
qed

text \<open>The request of \<^const>\<open>demo_payload\<close> on an empty database.\<close>

abbreviation demo_sql_handler :: "sql_db api_handler" where
  "demo_sql_handler \<equiv> NewApiHandler demo_env (sql_ops (answering no_faults) demo_reals) []"

lemma handler_parts:
  "repo (NewApiHandler env ops url) = ops"
  "ruleEngine (NewApiHandler env ops url) = NewRuleEngine DefaultThresholds url (Some ops)"
  by (simp_all add: NewApiHandler_def)

lemma demo_sql_request:
  "\<exists>resp st'. HandleTelemetry demo_sql_handler demo_env int (demo_context ''D'') demo_request (initial_state empty_db) =
     Some (Ok resp, st') \<and> StatusCode resp = 200"
proof -
  let ?db = "saved demo_reals 0 demo_payload empty_db" and ?h = demo_sql_handler
  have save: "SaveTelemetry (repo ?h) 0 demo_payload (repo_state (initial_state empty_db)) = (Ok (), ?db)"
    by (simp add: handler_parts sql_SaveTelemetry_def exec_def no_faults_def saved_def initial_state_def)
  have eval: "EvaluateAndAlert (ruleEngine ?h) clk demo_payload ?db = (Ok [], ?db, [])" for clk
    by (simp add: EvaluateAndAlert_def handler_parts NewRuleEngine_def demo_no_alerts)
  have poll: "\<exists>cs db'. GetPendingCommands (repo ?h) now dev ?db = (Ok cs, db')" for now dev
    by (simp add: handler_parts sql_pending_cases no_faults_def)
  obtain cs db' where "GetPendingCommands (repo ?h) 1 (DeviceID (Header demo_payload)) ?db = (Ok cs, db')"
    using poll by blast
  then show ?thesis
    by (simp add: submits_accept[OF demo_submits] accept_telemetry_def save eval respond_telemetry_def
        json_response_def Let_def case_prod_beta del: prod.collapse)
qed

theorem sql_telemetry_stored_or_refused_witness:
  "\<exists>resp st'. HandleTelemetry demo_sql_handler demo_env int (demo_context ''D'') demo_request (initial_state empty_db) =
     Some (Ok resp, st') \<and> StatusCode resp = 200 \<and> sql_inv (repo_state st') \<and>
     (\<exists>p row d. submits demo_env (demo_context ''D'') demo_request p \<and>
       telemetries_table (repo_state st') = [row] \<and> row_of_payload demo_reals 0 p row \<and>
       scan_telemetry (DeviceID (Header p)) row = read_back demo_reals p \<and>
       sql_GetDevice (answering no_faults) (DeviceID (Header p)) (repo_state st') = Ok d \<and> reports 0 p d)"
proof -
  obtain resp st' where r: "HandleTelemetry demo_sql_handler demo_env int (demo_context ''D'') demo_request
      (initial_state empty_db) = Some (Ok resp, st')" "StatusCode resp = 200"
    using demo_sql_request by blast
  have "sql_inv (repo_state (initial_state empty_db))" by (simp add: initial_state_def sql_inv_empty)
  moreover have "telemetries_table (repo_state (initial_state empty_db)) = []" by (simp add: initial_state_def empty_db_def)
  ultimately show ?thesis using sql_telemetry_stored_or_refused[OF _ r(1)] r by simp
qed

end
