(* ===== verification/Sql_Refinement.thy ===== *)
theory Sql_Refinement
  imports Sql_Properties
begin

text \<open>
  The two repositories against each other. After any operations on the SQL repository, under any
  failing calls, its devices, telemetry rows and event rows are those of the in-memory
  repository after the operations that succeeded. What the SQL columns do not hold is left out
  of the comparison: the status, the custom values, and the interval, which only the SQL
  repository keeps. Commands are left out: there the two differ.
\<close>

definition save_commits :: "db_faults \<Rightarrow> bool" where
  "save_commits faults \<longleftrightarrow> faults BeginTx = None \<and> faults InsertTelemetry = None \<and>
     faults UpsertDevice = None \<and> faults CommitTx = None"

text \<open>The operations on devices, telemetries and events that succeeded.\<close>

fun committed :: "db_faults \<times> sql_op \<Rightarrow> repo_op list" where
  "committed (faults, SqlSave now t) = (if save_commits faults then [Saved now t] else [])"
| "committed (faults, SqlEvent now e) = (if faults InsertEvent = None then [Recorded e] else [])"
| "committed _ = []"

definition committed_trace :: "(db_faults \<times> sql_op) list \<Rightarrow> repo_op list" where
  "committed_trace ops = concat (map committed ops)"

text \<open>What both repositories report of a device; \<open>reals\<close> is what the columns make of a float.\<close>

definition stored_float :: "sql_reals \<Rightarrow> f64 \<Rightarrow> f64" where
  "stored_float reals x = null_float (reals x)"

definition common_device :: "sql_reals \<Rightarrow> device_state \<Rightarrow> device_state" where
  "common_device reals d = d\<lparr>LastMetrics := (LastMetrics d)\<lparr>
       Temperature := stored_float reals (Temperature (LastMetrics d)),
       Humidity := stored_float reals (Humidity (LastMetrics d)),
       BatteryVoltage := stored_float reals (BatteryVoltage (LastMetrics d)),
       IntervalSec := 0, CustomValues := None\<rparr>, LastStatus := None, CurrentIntervalSec := 0\<rparr>"

definition without_interval :: "device_state \<Rightarrow> device_state" where
  "without_interval d = d\<lparr>LastMetrics := (LastMetrics d)\<lparr>IntervalSec := 0\<rparr>, CurrentIntervalSec := 0\<rparr>"

text \<open>The columns of an event row that the in-memory repository keeps as well.\<close>

definition event_columns :: "event_payload \<Rightarrow> gostring \<times> i64 \<times> gostring \<times> gostring \<times> gostring \<times> gostring" where
  "event_columns e = (DeviceID (EvHeader e), Timestamp (EvHeader e), EventType (Event e),
     Severity (Event e), EvMessage (Event e), marshal_map (Details (Event e)))"

definition row_columns :: "event_row \<Rightarrow> gostring \<times> i64 \<times> gostring \<times> gostring \<times> gostring \<times> gostring" where
  "row_columns r = (er_device_id r, er_timestamp r, er_event_type r, er_severity r, er_message r, er_details_json r)"

section \<open>One operation\<close>

lemma committed_trace_snoc: "committed_trace (ops @ [x]) = committed_trace ops @ committed x"
  by (simp add: committed_trace_def)

lemma sql_run_snoc: "sql_run reals (ops @ [(faults, x)]) db = sql_step reals faults x (sql_run reals ops db)"
  by (simp add: sql_run_def)

lemma save_outcome:
  "snd (sql_SaveTelemetry faults reals now t db) =
     (if save_commits faults then saved reals now t db else db)"
  by (simp add: sql_SaveTelemetry_def saved_def exec_def save_commits_def split: option.splits)

lemma event_outcome:
  "snd (sql_SaveEvent faults now e db) =
     (if faults InsertEvent = None then db\<lparr>events_table := events_table db @
        [\<lparr>er_device_id = DeviceID (EvHeader e), er_timestamp = Timestamp (EvHeader e),
          er_event_type = EventType (Event e), er_severity = Severity (Event e),
          er_message = EvMessage (Event e), er_details_json = marshal_map (Details (Event e)),
          er_created_at = now\<rparr>]\<rparr> else db)"
  by (simp add: sql_SaveEvent_def exec_def split: option.splits)

lemma command_steps_tables:
  "telemetries_table (snd (sql_QueueCommand faults now dev c db)) = telemetries_table db"
  "events_table (snd (sql_QueueCommand faults now dev c db)) = events_table db"
  "telemetries_table (snd (sql_GetPendingCommands faults now dev db)) = telemetries_table db"
  "events_table (snd (sql_GetPendingCommands faults now dev db)) = events_table db"
  "telemetries_table (snd (sql_AckCommand faults now dev cid res db)) = telemetries_table db"
  "events_table (snd (sql_AckCommand faults now dev cid res db)) = events_table db"
  by (simp_all add: sql_QueueCommand_def sql_pending_cases sql_AckCommand_def exec_def mark_all_def
      split: option.splits)

section \<open>The rows of a run\<close>

lemma run_rows:
  "filter (\<lambda>r. tr_device_id r = dev) (telemetries_table (sql_run reals ops empty_db)) =
     map (\<lambda>(now, t). telemetry_values reals now t) (saves dev (committed_trace ops))"
proof (induction ops rule: rev_induct)
  case Nil
  show ?case by (simp add: sql_run_def empty_db_def committed_trace_def)
next
  case (snoc op ops)
  obtain faults x where op: "op = (faults, x)" by (cases op)
  with snoc show ?case
    by (cases x) (simp_all add: sql_run_snoc committed_trace_snoc saves_append save_outcome event_outcome
        saved_tables command_steps_tables)
qed

lemma run_event_rows:
  "map row_columns (filter (\<lambda>r. er_device_id r = dev) (events_table (sql_run reals ops empty_db))) =
     map event_columns (recorded dev (committed_trace ops))"
proof (induction ops rule: rev_induct)
  case Nil
  show ?case by (simp add: sql_run_def empty_db_def committed_trace_def)
next
  case (snoc op ops)
  obtain faults x where op: "op = (faults, x)" by (cases op)
  with snoc show ?case
    by (cases x) (simp_all add: sql_run_snoc committed_trace_snoc recorded_append save_outcome event_outcome
        saved_tables command_steps_tables row_columns_def event_columns_def)
qed

text \<open>The entry of a device: the values of its last save, and the number of its saves.\<close>

definition row_of_saves :: "sql_reals \<Rightarrow> (time \<times> telemetry_payload) list \<Rightarrow> device_row \<Rightarrow> bool" where
  "row_of_saves reals xs row \<longleftrightarrow> xs \<noteq> [] \<and> (let (now, t) = last xs in
     dr_device_id row = DeviceID (Header t) \<and> dr_firmware_version row = FirmwareVersion (Header t) \<and>
     dr_status row = ''ONLINE'' \<and> dr_last_seq_no row = SeqNo (Header t) \<and> dr_last_seen_at row = now \<and>
     dr_total_telemetries row = int (length xs) \<and>
     dr_last_temp row = reals (Temperature (Metrics t)) \<and>
     dr_last_humidity row = reals (Humidity (Metrics t)) \<and>
     dr_last_voltage row = reals (BatteryVoltage (Metrics t)) \<and>
     dr_last_battery_pct row = BatteryLevelPct (Metrics t) \<and> dr_last_rssi row = RSSI (Metrics t))"

lemma row_of_saves_step:
  "row_of_saves reals [(now, t)] (device_values reals now t)"
  "row_of_saves reals xs row \<Longrightarrow> dr_device_id row = DeviceID (Header t) \<Longrightarrow>
     row_of_saves reals (xs @ [(now, t)]) (update_row (device_values reals now t) row)"
  by (auto simp: row_of_saves_def device_values_def update_row_def Let_def)

lemma run_device_row:
  "case find_device dev (devices_table (sql_run reals ops empty_db)) of
     None \<Rightarrow> saves dev (committed_trace ops) = []
   | Some row \<Rightarrow> row_of_saves reals (saves dev (committed_trace ops)) row"
proof (induction ops rule: rev_induct)
  case Nil
  show ?case by (simp add: sql_run_def empty_db_def committed_trace_def)
next
  case (snoc op ops)
  obtain faults x where op: "op = (faults, x)" by (cases op)
  let ?db = "sql_run reals ops empty_db"
  show ?case
  proof (cases x)
    case (SqlSave now t)
    show ?thesis
    proof (cases "committed op = []")
      case True
      then have "committed_trace (ops @ [op]) = committed_trace ops" by (simp add: committed_trace_snoc)
      moreover have "sql_run reals (ops @ [op]) empty_db = ?db"
        using True by (simp add: op SqlSave sql_run_snoc save_outcome split: if_splits)
      ultimately show ?thesis using snoc by (simp only:)
    next
      case False
      then have com: "committed op = [Saved now t]" by (simp add: op SqlSave split: if_splits)
      have db: "sql_run reals (ops @ [op]) empty_db = saved reals now t ?db"
        using False by (simp add: op SqlSave sql_run_snoc save_outcome split: if_splits)
      show ?thesis
      proof (cases "dev = DeviceID (Header t)")
        case other: False
        then show ?thesis using snoc by (simp add: db com committed_trace_snoc saves_append find_saved cong: option.case_cong)
      next
        case dev: True
        show ?thesis
        proof (cases "find_device dev (devices_table ?db)")
          case None
          with snoc dev show ?thesis
            by (simp add: db com committed_trace_snoc saves_append find_saved row_of_saves_step)
        next
          case (Some row)
          have "dr_device_id row = DeviceID (Header t)" using find_device_Some[OF Some] dev by simp
          with snoc dev Some show ?thesis
            by (simp add: db com committed_trace_snoc saves_append find_saved row_of_saves_step)
        qed
      qed
    qed
  next
    case (SqlEvent now e)
    with snoc show ?thesis
      by (simp add: op sql_run_snoc committed_trace_snoc saves_append sql_device_tables cong: option.case_cong)
  qed (use snoc in \<open>simp_all add: op sql_run_snoc committed_trace_snoc sql_device_tables cong: option.case_cong\<close>)
qed

section \<open>The property\<close>

text \<open>
  C20: Equivalence of the two repositories. After any operations on the SQL repository, with any
  failing calls, reading a device gives what the in-memory repository gives after the operations
  that succeeded, on the columns both have; and the stored telemetry and event rows of a
  device are its telemetry and event slices, in the same order.
\<close>

theorem sql_refines_memory:
  "bind_outcome (sql_GetDevice (answering faults) dev (sql_run reals ops empty_db)) (\<lambda>d. Ok (without_interval d)) =
     bind_outcome (read_device dev (mem_run (committed_trace ops))) (\<lambda>d. Ok (common_device reals d)) \<and>
   map (\<lambda>r. r\<lparr>tr_created_at := 0\<rparr>)
       (filter (\<lambda>r. tr_device_id r = dev) (telemetries_table (sql_run reals ops empty_db))) =
     map (telemetry_values reals 0) (slice_of (telemetries (mem_run (committed_trace ops))) dev) \<and>
   map row_columns (filter (\<lambda>r. er_device_id r = dev) (events_table (sql_run reals ops empty_db))) =
     map event_columns (slice_of (events (mem_run (committed_trace ops))) dev)"
proof (intro conjI)
  let ?db = "sql_run reals ops empty_db" and ?xs = "saves dev (committed_trace ops)"
  show "bind_outcome (sql_GetDevice (answering faults) dev ?db) (\<lambda>d. Ok (without_interval d)) =
     bind_outcome (read_device dev (mem_run (committed_trace ops))) (\<lambda>d. Ok (common_device reals d))"
  proof (cases "find_device dev (devices_table ?db)")
    case None
    with run_device_row[where dev = dev and reals = reals and ops = ops] show ?thesis
      by (simp add: run_device spec_device_def sql_GetDevice_def)
  next
    case (Some row)
    have "dr_device_id row = dev" using find_device_Some[OF Some] by simp
    moreover have "row_of_saves reals ?xs row" using run_device_row[where dev = dev and reals = reals and ops = ops] Some by simp
    ultimately show ?thesis using Some
      by (auto simp: run_device spec_device_def sql_GetDevice_def row_of_saves_def row_device_def
          without_interval_def common_device_def stored_float_def Let_def split: prod.splits)
  qed
  have "(telemetry_values reals now t)\<lparr>tr_created_at := 0\<rparr> = telemetry_values reals 0 t" for now t
    by (simp add: telemetry_values_def Let_def split: option.splits)
  then show "map (\<lambda>r. r\<lparr>tr_created_at := 0\<rparr>) (filter (\<lambda>r. tr_device_id r = dev) (telemetries_table ?db)) =
     map (telemetry_values reals 0) (slice_of (telemetries (mem_run (committed_trace ops))) dev)"
    by (simp add: run_rows run_telemetries comp_def case_prod_beta)
  show "map row_columns (filter (\<lambda>r. er_device_id r = dev) (events_table ?db)) =
     map event_columns (slice_of (events (mem_run (committed_trace ops))) dev)"
    by (simp only: run_event_rows run_events)
qed

end
