(* ===== verification/Start_Up.thy ===== *)
theory Start_Up
  imports Server Config Sql_Refinement
begin

text \<open>
  The function \<^verbatim>\<open>main\<close> of server/main.go: the configuration, the choice of the repository, the
  handler over it, the TLS settings, the two listeners, and the wait for a signal or for a
  listener that fails. A fatal error before the listeners start is the \<open>Err\<close> of \<open>server_main\<close>. The
  timeouts of the listeners are left out.
\<close>

datatype service =
    MemoryService "mem_repo server" "mem_repo api_state"
  | SqlService "sql_db server" "sql_db api_state"

record ('kp, 'pool) listening =
  serves :: service
  edge_addr :: gostring
  edge_tls :: "('kp, 'pool) tls_config"
  dashboard_addr :: gostring

definition new_server ::
  "go_env \<Rightarrow> config \<Rightarrow> (endpoint \<Rightarrow> http_request \<Rightarrow> http_response) \<Rightarrow> 's repository \<Rightarrow> 's server"
where
  "new_server env cfg fs ops = \<lparr>api = NewApiHandler env ops (WebhookURL cfg), machine = env,
     requireMTLS = RequireMTLS cfg, files = fs\<rparr>"

text \<open>\<^verbatim>\<open>log.Fatalf\<close> ends the program: what was opened before is left to the operating system.\<close>

definition fatal :: "gostring \<Rightarrow> go_error \<Rightarrow> go_error" where
  "fatal msg e = wrap_error (''[FATAL] '' @ msg) e"

definition open_repository ::
  "go_env \<Rightarrow> config \<Rightarrow> (endpoint \<Rightarrow> http_request \<Rightarrow> http_response) \<Rightarrow> (gostring list \<Rightarrow> gostring list) \<Rightarrow>
     db_faults \<Rightarrow> sql_reals \<Rightarrow> sql_db option \<Rightarrow> service outcome"
where
  "open_repository env cfg fs order faults reals existing =
     (if DBDriver cfg = ''memory''
      then Ok (MemoryService (new_server env cfg fs (mem_ops order)) (initial_state NewInMemoryRepository))
      else case NewSQLRepository faults (DBDriver cfg) existing of
             Err e \<Rightarrow> Err (fatal ''Database connection failed'' e)
           | Panic \<Rightarrow> Panic
           | Ok (pool, db) \<Rightarrow> Ok (SqlService (new_server env cfg fs (sql_ops faults reals)) (initial_state db)))"

definition server_main ::
  "('kp, 'pool) host \<Rightarrow> go_env \<Rightarrow> (endpoint \<Rightarrow> http_request \<Rightarrow> http_response) \<Rightarrow> (gostring list \<Rightarrow> gostring list) \<Rightarrow>
     db_faults \<Rightarrow> sql_reals \<Rightarrow> sql_db option \<Rightarrow> ('kp, 'pool) listening outcome"
where
  "server_main os env fs order faults reals existing =
     (let cfg = LoadConfig os
      in case open_repository env cfg fs order faults reals existing of
           Err e \<Rightarrow> Err e
         | Panic \<Rightarrow> Panic
         | Ok svc \<Rightarrow>
             (case BuildTLSConfig os cfg of
                Err e \<Rightarrow> Err (fatal ''TLS Configuration error'' e)
              | Panic \<Rightarrow> Panic
              | Ok tls \<Rightarrow> Ok \<lparr>serves = svc, edge_addr = '':'' @ Port cfg, edge_tls = tls,
                               dashboard_addr = '':8080''\<rparr>))"

text \<open>What can end the wait: a signal, the edge listener's failure, but not the dashboard's.
  None is a program that still runs.\<close>

datatype server_event = Signal | EdgeFailed go_error | DashboardFailed go_error

datatype server_exit = CleanExit | FatalExit go_error

fun await_exit :: "server_event list \<Rightarrow> server_exit option" where
  "await_exit [] = None"
| "await_exit (Signal # _) = Some CleanExit"
| "await_exit (EdgeFailed e # _) = Some (FatalExit (fatal ''Edge Server failed'' e))"
| "await_exit (DashboardFailed e # evs) = await_exit evs"

definition middleware_required :: "service \<Rightarrow> bool" where
  "middleware_required svc = (case svc of MemoryService s _ \<Rightarrow> requireMTLS s | SqlService s _ \<Rightarrow> requireMTLS s)"

lemma open_repository_config:
  "open_repository env cfg fs order faults reals existing = Ok svc \<Longrightarrow> middleware_required svc = RequireMTLS cfg"
  by (auto simp: open_repository_def new_server_def middleware_required_def split: if_splits outcome.splits)

lemma open_repository_cases:
  "case open_repository env cfg fs order faults reals existing of
     Ok (MemoryService s st) \<Rightarrow> DBDriver cfg = ''memory'' \<and> st = initial_state NewInMemoryRepository
   | Ok (SqlService s st) \<Rightarrow> DBDriver cfg \<noteq> ''memory'' \<and>
       st = initial_state (case existing of None \<Rightarrow> empty_db | Some db \<Rightarrow> db)
   | Err e \<Rightarrow> DBDriver cfg \<noteq> ''memory'' \<and> (faults OpenDB \<noteq> None \<or> faults Migrate \<noteq> None)
   | Panic \<Rightarrow> False"
  by (auto simp: open_repository_def NewSQLRepository_def Let_def split: option.splits)

lemma mtls_setting: "RequireMTLS (LoadConfig os) \<longleftrightarrow> os_Getenv os ''REQUIRE_MTLS'' \<in> {[], ''true''}"
  by (simp add: LoadConfig_def getEnv_def Let_def)

lemma driver_setting: "DBDriver (LoadConfig os) = ''memory'' \<longleftrightarrow> os_Getenv os ''DB_DRIVER'' = ''memory''"
  by (simp add: LoadConfig_def getEnv_def Let_def)

lemma tls_client_auth:
  "BuildTLSConfig os c = Ok tls \<Longrightarrow> ClientAuth tls = RequireAndVerifyClientCert \<longleftrightarrow> RequireMTLS c"
  by (auto simp: BuildTLSConfig_def Let_def split: outcome.splits option.splits if_splits)

text \<open>
  C31: Starting the server. When it starts, TLS demands client certificates exactly when the
  middleware of the edge routes refuses requests without one, and that is unless
  \<^verbatim>\<open>REQUIRE_MTLS\<close> is set to something other than true; it serves the in-memory repository
  exactly when \<^verbatim>\<open>DB_DRIVER\<close> is memory, and otherwise the existing tables, or empty ones. It refuses to start only when the database or the TLS configuration fails.
\<close>

theorem server_start_up:
  "case server_main os env fs order faults reals existing of
     Ok l \<Rightarrow>
       (ClientAuth (edge_tls l) = RequireAndVerifyClientCert \<longleftrightarrow> middleware_required (serves l)) \<and>
       (middleware_required (serves l) \<longleftrightarrow> os_Getenv os ''REQUIRE_MTLS'' \<in> {[], ''true''}) \<and>
       (case serves l of
          MemoryService s st \<Rightarrow> os_Getenv os ''DB_DRIVER'' = ''memory'' \<and>
            st = initial_state NewInMemoryRepository
        | SqlService s st \<Rightarrow> os_Getenv os ''DB_DRIVER'' \<noteq> ''memory'' \<and>
            st = initial_state (case existing of None \<Rightarrow> empty_db | Some db \<Rightarrow> db))
   | Err e \<Rightarrow>
       (case BuildTLSConfig os (LoadConfig os) of
          Err e' \<Rightarrow> True
        | _ \<Rightarrow> os_Getenv os ''DB_DRIVER'' \<noteq> ''memory'' \<and> {OpenDB, Migrate} \<inter> dom faults \<noteq> {})
   | Panic \<Rightarrow> BuildTLSConfig os (LoadConfig os) = Panic"
proof (cases "open_repository env (LoadConfig os) fs order faults reals existing")
  case (Ok svc)
  note c = open_repository_cases[where env = env and cfg = "LoadConfig os" and fs = fs and order = order and
      faults = faults and reals = reals and existing = existing]
  note m = open_repository_config[OF Ok, unfolded mtls_setting]
  show ?thesis
  proof (cases "BuildTLSConfig os (LoadConfig os)")
    case tls: (Ok tls)
    have "ClientAuth tls = RequireAndVerifyClientCert \<longleftrightarrow> middleware_required svc"
      using tls_client_auth[OF tls] m by (simp only: mtls_setting)
    with m c Ok show ?thesis
      by (cases svc) (simp_all add: server_main_def tls driver_setting)
  qed (simp_all add: server_main_def Ok Let_def)
next
  case (Err e)
  with open_repository_cases[where env = env and cfg = "LoadConfig os" and fs = fs and order = order and
      faults = faults and reals = reals and existing = existing] show ?thesis
    by (auto simp: server_main_def driver_setting split: outcome.split)
next
  case Panic
  with open_repository_cases[where env = env and cfg = "LoadConfig os" and fs = fs and order = order and
      faults = faults and reals = reals and existing = existing] show ?thesis by simp
qed

end
