(* ===== verification/Simulator.thy ===== *)
theory Simulator
  imports Http Go_Arith
begin

text \<open>
  The device simulator (tools/simulator/main.go): a client that reports telemetry in a loop,
  retries, installs updates and executes the commands of the answers.

  What the program takes from outside is in \<open>sim_env\<close>: the HTTP client (a GET or POST acts on
  the world \<open>'w\<close> and gives an error or a reply), package encoding/json, the SHA-256 digest, the
  random numbers of each cycle, the clock, and which \<^verbatim>\<open>select\<close> finds the context cancelled.
  Pauses and log lines are not modelled. The floating point expressions are evaluated without
  fused operations, as on amd64.
\<close>

section \<open>Data\<close>

text \<open>The simulator declares its own copies of the structs. Those that differ from the server's
  are the metrics, which have no interval and no custom values, and the payload, whose status
  is not a pointer.\<close>

record sim_metrics =
  SimTemperature :: f64
  SimHumidity :: f64
  SimBatteryVoltage :: f64
  SimBatteryLevelPct :: u32
  SimRSSI :: i32

record sim_payload =
  SimHeader :: message_header
  SimMetrics :: sim_metrics
  SimStatus :: device_status

record simulated_device =
  SimDeviceID :: gostring
  SimFirmware :: gostring
  CertFile :: gostring
  KeyFile :: gostring
  ServerURL :: gostring
  NextSeqNo :: u32
  SimBootCount :: u32
  BaseTemp :: f64
  BaseHumidity :: f64
  BatteryMv :: u32

text \<open>What reading the body of a reply gives: the bytes, and the error that ended it early.\<close>

record http_reply =
  ReplyStatus :: nat
  ReplyBody :: "u8 list"
  ReplyError :: "go_error option"

text \<open>The draws of one cycle: two values of \<^verbatim>\<open>rand.Float64()\<close>, two of \<^verbatim>\<open>rand.Intn\<close>, the clock.\<close>

record sim_draws =
  draw_temp :: f64
  draw_humidity :: f64
  draw_rssi :: nat
  draw_heap :: nat
  draw_now :: time

record 'w sim_env =
  client_get :: "gostring \<Rightarrow> 'w \<Rightarrow> (go_error + http_reply) \<times> 'w"
  client_post :: "gostring \<Rightarrow> gostring \<Rightarrow> u8 list \<Rightarrow> 'w \<Rightarrow> (go_error + http_reply) \<times> 'w"
  request_valid :: "gostring \<Rightarrow> bool"
  marshal_payload :: "sim_payload \<Rightarrow> u8 list"
  marshal_fields :: "(gostring \<times> gostring) list \<Rightarrow> u8 list"
  unmarshal_response :: "u8 list \<Rightarrow> api_response outcome"
  digest_hex :: "u8 list \<Rightarrow> gostring"
  draws :: "nat \<Rightarrow> sim_draws"
  cancelled :: "nat \<Rightarrow> bool"

section \<open>NewSimulatedDevice\<close>

text \<open>\<open>22.0 + rand.Float64()*8.0\<close> and so on; the constants are the bit patterns.\<close>

definition NewSimulatedDevice ::
  "unit outcome \<Rightarrow> unit outcome \<Rightarrow> f64 \<Rightarrow> f64 \<Rightarrow> nat \<Rightarrow>
     gostring \<Rightarrow> gostring \<Rightarrow> gostring \<Rightarrow> gostring \<Rightarrow> simulated_device outcome"
where
  "NewSimulatedDevice key_pair ca_file r1 r2 r3 deviceID certFile keyFile serverURL =
     (case key_pair of
        Err e \<Rightarrow> Err (wrap_error (''failed to load client cert for '' @ deviceID) e)
      | Panic \<Rightarrow> Panic
      | Ok _ \<Rightarrow>
          (case ca_file of
             Err e \<Rightarrow> Err (wrap_error ''failed to read root CA cert'' e)
           | Panic \<Rightarrow> Panic
           | Ok _ \<Rightarrow> Ok
               \<lparr>SimDeviceID = deviceID, SimFirmware = ''1.0.0'', CertFile = certFile, KeyFile = keyFile,
                ServerURL = serverURL, NextSeqNo = 1, SimBootCount = 1,
                BaseTemp = f64_add 0x4036000000000000 (f64_mul r1 0x4020000000000000),
                BaseHumidity = f64_add 0x4046800000000000 (f64_mul r2 0x4034000000000000),
                BatteryMv = 4100 - word_of_nat r3\<rparr>))"

section \<open>ExecuteCommand\<close>

text \<open>The switch on the action: the result to acknowledge, and the device afterwards. A
  \<^verbatim>\<open>CONFIG_UPDATE\<close> is only logged.\<close>

definition run_action :: "device_command \<Rightarrow> simulated_device \<Rightarrow> gostring \<times> simulated_device" where
  "run_action cmd d =
     (if Action cmd = ''CONFIG_UPDATE'' then (''SUCCESS'', d)
      else if Action cmd = ''REBOOT'' then (''SUCCESS'', d\<lparr>SimBootCount := SimBootCount d + 1\<rparr>)
      else if Action cmd = ''SELF_TEST'' then (''SUCCESS'', d)
      else (''UNKNOWN_ACTION'', d))"

text \<open>The acknowledgement is sent once and its outcome ignored. A URL that \<^verbatim>\<open>http.NewRequest\<close>
  rejects gives a nil request, whose header is then dereferenced.\<close>

definition ExecuteCommand ::
  "'w sim_env \<Rightarrow> device_command \<Rightarrow> simulated_device \<times> 'w \<Rightarrow> unit outcome \<times> simulated_device \<times> 'w"
where
  "ExecuteCommand env cmd = (\<lambda>(d, w).
     let (result, d') = run_action cmd d;
         ackData = marshal_fields env
           [(''command_id'', CommandID cmd), (''device_id'', SimDeviceID d), (''result'', result)];
         url = ServerURL d @ ''/api/v1/commands/ack''
     in if \<not> request_valid env url then (Panic, d', w)
        else (Ok (), d', snd (client_post env url ''application/json'' ackData w)))"

fun execute_all ::
  "'w sim_env \<Rightarrow> device_command list \<Rightarrow> simulated_device \<times> 'w \<Rightarrow> unit outcome \<times> simulated_device \<times> 'w"
where
  "execute_all env [] dw = (Ok (), dw)"
| "execute_all env (cmd # cmds) dw =
     (case ExecuteCommand env cmd dw of
        (Panic, dw') \<Rightarrow> (Panic, dw')
      | (_, dw') \<Rightarrow> execute_all env cmds dw')"

section \<open>PerformOTA\<close>

definition PerformOTA ::
  "'w sim_env \<Rightarrow> ota_info \<Rightarrow> simulated_device \<times> 'w \<Rightarrow> bool \<times> simulated_device \<times> 'w"
where
  "PerformOTA env ota = (\<lambda>(d, w).
     case client_get env (PackageURL ota) w of
       (Inl e, w') \<Rightarrow> (False, d, w')
     | (Inr resp, w') \<Rightarrow>
         if ReplyStatus resp \<noteq> 200 then (False, d, w')
         else if ReplyError resp \<noteq> None then (False, d, w')
         else
           let computedHash = digest_hex env (ReplyBody resp)
           in if SHA256 ota \<noteq> [] \<and> computedHash \<noteq> SHA256 ota then (False, d, w')
              else (True, d\<lparr>SimFirmware := TargetVersion ota, SimBootCount := SimBootCount d + 1\<rparr>, w'))"

section \<open>One cycle of Run\<close>

definition drained :: "u32 \<Rightarrow> u32" where
  "drained mv = (if 3300 < mv then mv - 2 else mv)"

definition battery_pct :: "u32 \<Rightarrow> u32" where
  "battery_pct mv =
     (if 3300 < mv
      then let pct = (mv - 3300) * 100 div 800 in if 100 < pct then 100 else pct
      else 0)"

text \<open>The reading and the payload. \<open>cycles * defaultIntervalSec\<close> is cut to 32 bits.\<close>

definition sim_report :: "sim_draws \<Rightarrow> int \<Rightarrow> nat \<Rightarrow> simulated_device \<Rightarrow> sim_payload \<times> simulated_device" where
  "sim_report r defaultIntervalSec cycles d =
     (let temp = f64_add (BaseTemp d) (f64_sub (f64_mul (draw_temp r) 0x4000000000000000) 0x3FF0000000000000);
          humidity = f64_add (BaseHumidity d)
            (f64_sub (f64_mul (draw_humidity r) 0x4010000000000000) 0x4000000000000000);
          mv = drained (BatteryMv d);
          batteryVolt = f64_div (f64_of_nat (unat mv)) 0x408F400000000000
      in (\<lparr>SimHeader = \<lparr>DeviceID = SimDeviceID d, Timestamp = unix_seconds (draw_now r),
             SeqNo = NextSeqNo d, FirmwareVersion = SimFirmware d, BootCount = SimBootCount d\<rparr>,
           SimMetrics = \<lparr>SimTemperature = temp, SimHumidity = humidity, SimBatteryVoltage = batteryVolt,
             SimBatteryLevelPct = battery_pct mv, SimRSSI = - 55 - word_of_nat (draw_rssi r)\<rparr>,
           SimStatus = \<lparr>State = ''NORMAL'', UptimeSec = word_of_int (int cycles * defaultIntervalSec),
             FreeHeapBytes = 45000 + word_of_nat (draw_heap r)\<rparr>\<rparr>,
          d\<lparr>BatteryMv := mv, NextSeqNo := NextSeqNo d + 1\<rparr>))"

text \<open>At most three attempts, until one is answered.\<close>

primrec post_attempts ::
  "('w \<Rightarrow> (go_error + http_reply) \<times> 'w) \<Rightarrow> nat \<Rightarrow> 'w \<Rightarrow> (go_error + http_reply) \<times> 'w"
where
  "post_attempts send 0 w = send w"
| "post_attempts send (Suc n) w =
     (case send w of
        (Inr resp, w') \<Rightarrow> (Inr resp, w')
      | (Inl e, w') \<Rightarrow> post_attempts send n w')"

text \<open>The reaction to an answer with status 200.\<close>

definition react ::
  "'w sim_env \<Rightarrow> u8 list \<Rightarrow> simulated_device \<times> 'w \<Rightarrow> unit outcome \<times> simulated_device \<times> 'w"
where
  "react env body dw =
     (case unmarshal_response env body of
        Ok apiResp \<Rightarrow>
          let dw1 = (case OTA apiResp of
                None \<Rightarrow> dw
              | Some ota \<Rightarrow>
                  if Available ota \<and> TargetVersion ota \<noteq> SimFirmware (fst dw)
                  then snd (PerformOTA env ota dw) else dw)
          in execute_all env (Commands apiResp) dw1
      | _ \<Rightarrow> (Ok (), dw))"

text \<open>The body of the loop up to the test of \<^verbatim>\<open>maxCycles\<close>: the cycles counted so far are in the
  result.\<close>

definition sim_cycle ::
  "'w sim_env \<Rightarrow> int \<Rightarrow> sim_draws \<Rightarrow> nat \<Rightarrow> simulated_device \<times> 'w \<Rightarrow>
     unit outcome \<times> nat \<times> simulated_device \<times> 'w"
where
  "sim_cycle env defaultIntervalSec r cycles = (\<lambda>(d, w).
     let (payload, d1) = sim_report r defaultIntervalSec cycles d;
         url = ServerURL d1 @ ''/api/v1/telemetry''
     in case post_attempts (client_post env url ''application/json'' (marshal_payload env payload)) 2 w of
          (Inl e, w1) \<Rightarrow> (Ok (), cycles, d1, w1)
        | (Inr resp, w1) \<Rightarrow>
            if ReplyStatus resp = 200
            then let (out, d2, w2) = react env (ReplyBody resp) (d1, w1) in (out, Suc cycles, d2, w2)
            else (Ok (), cycles, d1, w1))"

section \<open>Run\<close>

text \<open>The loop may run forever; \<open>i\<close> numbers its iterations. The \<open>2 i\<close>-th \<^verbatim>\<open>select\<close> is the one at
  the head of the loop, the next one the pause at its end.\<close>

partial_function (option) sim_loop ::
  "'w sim_env \<Rightarrow> int \<Rightarrow> int \<Rightarrow> nat \<Rightarrow> nat \<Rightarrow> simulated_device \<times> 'w \<Rightarrow>
     (unit outcome \<times> nat \<times> simulated_device \<times> 'w) option"
where
  "sim_loop env defaultIntervalSec maxCycles i cycles dw =
     (if cancelled env (2 * i) then Some (Ok (), cycles, dw)
      else case sim_cycle env defaultIntervalSec (draws env i) cycles dw of
             (Panic, cycles', dw') \<Rightarrow> Some (Panic, cycles', dw')
           | (_, cycles', dw') \<Rightarrow>
               if 0 < maxCycles \<and> maxCycles \<le> int cycles' then Some (Ok (), cycles', dw')
               else if cancelled env (2 * i + 1) then Some (Ok (), cycles', dw')
               else sim_loop env defaultIntervalSec maxCycles (i + 1) cycles' dw')"

definition sim_Run ::
  "'w sim_env \<Rightarrow> int \<Rightarrow> int \<Rightarrow> simulated_device \<Rightarrow> 'w \<Rightarrow>
     (unit outcome \<times> nat \<times> simulated_device \<times> 'w) option"
where
  "sim_Run env defaultIntervalSec maxCycles d w = sim_loop env defaultIntervalSec maxCycles 0 0 (d, w)"

section \<open>The program\<close>

text \<open>The flags; a device that cannot be made is fatal.\<close>

record sim_flags =
  flag_server :: gostring
  flag_ca :: gostring
  flag_cert :: gostring
  flag_key :: gostring
  flag_id :: gostring
  flag_interval :: int
  flag_cycles :: int

definition default_flags :: sim_flags where
  "default_flags = \<lparr>flag_server = ''https://127.0.0.1:8443'', flag_ca = ''../certs/out/ca.crt'',
     flag_cert = ''../certs/out/client_DEV-ESP32-001.crt'', flag_key = ''../certs/out/client_DEV-ESP32-001.key'',
     flag_id = ''DEV-ESP32-001'', flag_interval = 1, flag_cycles = 3\<rparr>"

text \<open>\<open>files\<close> says which key pairs and CA files can be read, \<open>r1 r2 r3\<close> are the first draws.
  The result is None for a run that does not end, and an error for the fatal exit.\<close>

definition sim_main ::
  "'w sim_env \<Rightarrow> (gostring \<Rightarrow> gostring \<Rightarrow> unit outcome) \<Rightarrow> (gostring \<Rightarrow> unit outcome) \<Rightarrow>
     f64 \<Rightarrow> f64 \<Rightarrow> nat \<Rightarrow> sim_flags \<Rightarrow> 'w \<Rightarrow> (unit outcome \<times> nat \<times> simulated_device \<times> 'w) outcome option"
where
  "sim_main env key_pairs ca_files r1 r2 r3 flags w =
     (case NewSimulatedDevice (key_pairs (flag_cert flags) (flag_key flags)) (ca_files (flag_ca flags))
            r1 r2 r3 (flag_id flags) (flag_cert flags) (flag_key flags) (flag_server flags) of
        Err e \<Rightarrow> Some (Err (wrap_error ''Failed to initialize simulated device'' e))
      | Panic \<Rightarrow> Some Panic
      | Ok device \<Rightarrow> map_option Ok (sim_Run env (flag_interval flags) (flag_cycles flags) device w))"

end
