(* ===== verification/Simulator_Properties.thy ===== *)
theory Simulator_Properties
  imports Simulator Rule_Engine
begin

text \<open>
  What the simulated device reports and does, in any world. A run is the sequence of the states
  at the head of its loop (\<open>sim_reaches\<close>); the invariant over it gives the sequence numbers and
  the bounds of the readings.
\<close>

section \<open>The random draws\<close>

text \<open>The documented ranges of \<^verbatim>\<open>rand.Float64()\<close> and \<^verbatim>\<open>rand.Intn(n)\<close>.\<close>

definition unit_float :: "f64 \<Rightarrow> bool" where
  "unit_float x \<longleftrightarrow> f64_finite x \<and> 0 \<le> f64_scaled x \<and> f64_scaled x < 2 ^ 1074"

definition draws_ok :: "sim_draws \<Rightarrow> bool" where
  "draws_ok r \<longleftrightarrow> unit_float (draw_temp r) \<and> unit_float (draw_humidity r) \<and>
     draw_rssi r < 25 \<and> draw_heap r < 5000"

text \<open>A float that is the integer \<open>n\<close>, and one between two integers.\<close>

definition f64_is :: "f64 \<Rightarrow> int \<Rightarrow> bool" where
  "f64_is x n \<longleftrightarrow> f64_finite x \<and> f64_scaled x = n * 2 ^ 1074"

definition f64_within :: "int \<Rightarrow> int \<Rightarrow> f64 \<Rightarrow> bool" where
  "f64_within lo hi x \<longleftrightarrow> f64_finite x \<and> lo * 2 ^ 1074 \<le> f64_scaled x \<and> f64_scaled x \<le> hi * 2 ^ 1074"

lemma f64_constants:
  "f64_is 0 0" "f64_is 0x3FF0000000000000 1" "f64_is 0x4000000000000000 2" "f64_is 0x4010000000000000 4"
  "f64_is 0x4020000000000000 8" "f64_is 0x4034000000000000 20" "f64_is 0x4035000000000000 21"
  "f64_is 0x4036000000000000 22" "f64_is 0x403E000000000000 30" "f64_is 0x403F000000000000 31"
  "f64_is 0x4045800000000000 43" "f64_is 0x4046800000000000 45" "f64_is 0x4050400000000000 65"
  "f64_is 0x4050C00000000000 67" "f64_is 0xBFF0000000000000 (-1)" "f64_is 0xC000000000000000 (-2)"
  by (simp_all add: f64_is_def f64_eval)

lemma unit_within: "unit_float x \<Longrightarrow> f64_within 0 1 x"
  by (simp add: unit_float_def f64_within_def)

lemma is_within: "f64_is x n \<Longrightarrow> f64_within n n x"
  by (simp add: f64_is_def f64_within_def)

lemma within_add:
  assumes "f64_within a b x" "f64_within c d y" and "f64_is lo (a + c)" "f64_is hi (b + d)"
  shows "f64_within (a + c) (b + d) (f64_add x y)"
proof -
  have "f64_scaled lo \<le> f64_scaled x + f64_scaled y" "f64_scaled x + f64_scaled y \<le> f64_scaled hi"
    using assms unfolding f64_within_def f64_is_def by (simp_all only: ring_distribs) linarith+
  with f64_add_between[of x y lo hi] assms show ?thesis
    unfolding f64_within_def f64_is_def by simp
qed

lemma within_sub:
  assumes "f64_within a b x" "f64_within c d y" and "f64_is lo (a - d)" "f64_is hi (b - c)"
  shows "f64_within (a - d) (b - c) (f64_sub x y)"
proof -
  have "f64_scaled lo \<le> f64_scaled x - f64_scaled y" "f64_scaled x - f64_scaled y \<le> f64_scaled hi"
    using assms unfolding f64_within_def f64_is_def by (simp_all only: ring_distribs left_diff_distrib) linarith+
  with f64_sub_between[of x y lo hi] assms show ?thesis
    unfolding f64_within_def f64_is_def by simp
qed

lemma within_mul:
  assumes "unit_float x" "f64_is y n" "0 \<le> n"
  shows "f64_within 0 n (f64_mul x y)"
proof -
  have zero: "f64_finite 0" "f64_scaled 0 = 0" using f64_constants(1) by (simp_all add: f64_is_def)
  have y: "f64_finite y" "f64_scaled y = n * 2 ^ 1074" using assms(2) by (simp_all only: f64_is_def)
  have x: "f64_finite x" "0 \<le> f64_scaled x" "f64_scaled x \<le> 2 ^ 1074"
    using assms(1) by (simp_all add: unit_float_def)
  have "0 \<le> f64_scaled y" unfolding y(2) using assms(3) by (intro mult_nonneg_nonneg) simp_all
  then have "f64_scaled 0 * 2 ^ 1074 \<le> f64_scaled x * f64_scaled y"
    unfolding zero(2) using x(2) by (simp only: mult_zero_left mult_nonneg_nonneg)
  moreover have "f64_scaled x * f64_scaled y \<le> f64_scaled y * 2 ^ 1074"
    using mult_left_mono[OF x(3) \<open>0 \<le> f64_scaled y\<close>] by (simp only: mult.commute)
  ultimately show ?thesis
    using f64_mul_between[OF x(1) y(1) zero(1) y(1)] unfolding f64_within_def y(2) zero(2) by simp
qed

section \<open>The invariant of the device\<close>

definition device_ok :: "simulated_device \<Rightarrow> bool" where
  "device_ok d \<longleftrightarrow> f64_within 22 30 (BaseTemp d) \<and> f64_within 45 65 (BaseHumidity d) \<and>
     3299 \<le> BatteryMv d \<and> BatteryMv d \<le> 4100"

lemma new_device:
  assumes "NewSimulatedDevice kp ca r1 r2 r3 devid cert key url = Ok d"
    and "unit_float r1" "unit_float r2" "r3 < 300"
  shows "device_ok d" "NextSeqNo d = 1" "SimDeviceID d = devid" "ServerURL d = url" "SimFirmware d = ''1.0.0''"
proof -
  have d: "BaseTemp d = f64_add 0x4036000000000000 (f64_mul r1 0x4020000000000000)"
    "BaseHumidity d = f64_add 0x4046800000000000 (f64_mul r2 0x4034000000000000)"
    "BatteryMv d = 4100 - word_of_nat r3"
    and rest: "NextSeqNo d = 1" "SimDeviceID d = devid" "ServerURL d = url" "SimFirmware d = ''1.0.0''"
    using assms(1) by (auto simp: NewSimulatedDevice_def split: outcome.splits)
  show "NextSeqNo d = 1" "SimDeviceID d = devid" "ServerURL d = url" "SimFirmware d = ''1.0.0''" by (fact rest)+
  have "f64_within (22 + 0) (22 + 8) (BaseTemp d)" unfolding d
    by (rule within_add[OF is_within within_mul]) (use assms(2) f64_constants in simp_all)
  moreover have "f64_within (45 + 0) (45 + 20) (BaseHumidity d)" unfolding d
    by (rule within_add[OF is_within within_mul]) (use assms(3) f64_constants in simp_all)
  moreover have "3299 \<le> BatteryMv d \<and> BatteryMv d \<le> 4100"
  proof -
    have "unat (word_of_nat r3 :: u32) = r3" using assms(4) by (simp add: unat_of_nat take_bit_nat_eq_self)
    then have "word_of_nat r3 \<le> (4100 :: u32)" "unat (4100 - word_of_nat r3 :: u32) = 4100 - r3"
      using assms(4) by (simp_all add: word_le_nat_alt unat_sub_if')
    then show ?thesis unfolding d using assms(4) by (simp add: word_le_nat_alt)
  qed
  ultimately show "device_ok d" by (simp add: device_ok_def)
qed

lemma drained_bounds: "3299 \<le> mv \<Longrightarrow> mv \<le> 4100 \<Longrightarrow> 3299 \<le> drained mv \<and> drained mv \<le> mv"
proof -
  assume "3299 \<le> mv" "mv \<le> 4100"
  moreover have "unat (mv - 2) = unat mv - 2" if "3300 < mv"
    using that by (simp add: unat_sub_if' word_less_nat_alt)
  ultimately show ?thesis by (auto simp: drained_def word_le_nat_alt word_less_nat_alt)
qed

lemma battery_pct_value:
  assumes "mv \<le> 4100"
  shows "unat (battery_pct mv) = (unat mv - 3300) * 100 div 800"
proof (cases "3300 < mv")
  case True
  have m: "unat mv \<le> 4100" "3300 < unat mv" using assms True by (simp_all add: word_le_nat_alt word_less_nat_alt)
  then have "unat (mv - 3300) = unat mv - 3300" by (simp add: unat_sub_if')
  then have "unat ((mv - 3300) * 100) = (unat mv - 3300) * 100"
    using m by (simp only: unat_word_ariths) simp
  then have v: "unat ((mv - 3300) * 100 div 800) = (unat mv - 3300) * 100 div 800"
    by (simp add: unat_div)
  moreover have "\<not> 100 < (mv - 3300) * 100 div 800"
    using m unfolding word_less_nat_alt v by simp
  ultimately show ?thesis using True by (simp add: battery_pct_def Let_def)
next
  case False
  then show ?thesis by (simp add: battery_pct_def word_less_nat_alt)
qed

text \<open>What a reaction and a cycle change of the device.\<close>

definition upgraded :: "simulated_device \<Rightarrow> simulated_device \<Rightarrow> bool" where
  "upgraded d d' \<longleftrightarrow> d' = d\<lparr>SimFirmware := SimFirmware d', SimBootCount := SimBootCount d'\<rparr>"

lemma upgraded_intros [simp, intro]:
  "upgraded d d" "upgraded d (d\<lparr>SimBootCount := b\<rparr>)" "upgraded d (d\<lparr>SimFirmware := fw, SimBootCount := b\<rparr>)"
  by (simp_all add: upgraded_def)

lemma upgraded_trans: "upgraded d1 d2 \<Longrightarrow> upgraded d2 d3 \<Longrightarrow> upgraded d1 d3"
  by (cases d1; cases d2; cases d3) (simp add: upgraded_def)

lemma upgraded_fields:
  assumes "upgraded d d'"
  shows "SimDeviceID d' = SimDeviceID d" "ServerURL d' = ServerURL d" "NextSeqNo d' = NextSeqNo d"
    "BatteryMv d' = BatteryMv d" "BaseTemp d' = BaseTemp d" "BaseHumidity d' = BaseHumidity d"
  by (subst assms[unfolded upgraded_def]; simp)+

lemma run_action_upgraded: "upgraded d (snd (run_action cmd d))"
  by (simp add: run_action_def)

lemma execute_command_upgraded: "upgraded d (fst (snd (ExecuteCommand env cmd (d, w))))"
  using run_action_upgraded[of d cmd] by (simp add: ExecuteCommand_def Let_def case_prod_beta)

lemma execute_all_upgraded: "upgraded (fst dw) (fst (snd (execute_all env cmds dw)))"
proof (induction cmds arbitrary: dw)
  case (Cons cmd cmds)
  obtain out dw' where e: "ExecuteCommand env cmd dw = (out, dw')" by (cases "ExecuteCommand env cmd dw")
  have "upgraded (fst dw) (fst dw')" using execute_command_upgraded[of "fst dw" env cmd "snd dw"] e by simp
  with Cons[of dw'] e show ?case by (cases out) (auto intro: upgraded_trans)
qed simp

lemma ota_upgraded: "upgraded d (fst (snd (PerformOTA env ota (d, w))))"
  by (simp add: PerformOTA_def Let_def split: prod.splits sum.splits)

lemma react_upgraded: "upgraded (fst dw) (fst (snd (react env body dw)))"
proof (cases "unmarshal_response env body")
  case (Ok apiResp)
  let ?dw = "case OTA apiResp of None \<Rightarrow> dw | Some ota \<Rightarrow>
      if Available ota \<and> TargetVersion ota \<noteq> SimFirmware (fst dw) then snd (PerformOTA env ota dw) else dw"
  have "upgraded (fst dw) (fst ?dw)"
    using ota_upgraded[of "fst dw" env _ "snd dw"] by (simp split: option.splits)
  with execute_all_upgraded[of ?dw env "Commands apiResp"] Ok show ?thesis
    by (simp only: react_def Let_def outcome.case) (blast intro: upgraded_trans)
qed (simp_all add: react_def)

definition reported :: "simulated_device \<Rightarrow> simulated_device" where
  "reported d = d\<lparr>BatteryMv := drained (BatteryMv d), NextSeqNo := NextSeqNo d + 1\<rparr>"

lemma sim_report_device: "snd (sim_report r iv c d) = reported d"
  by (simp add: sim_report_def reported_def Let_def)

lemma cycle_device:
  assumes "sim_cycle env iv r c (d, w) = (out, c', d', w')"
  shows "upgraded (reported d) d'" and "c \<le> c' \<and> c' \<le> Suc c"
proof -
  obtain resp w1 where post: "post_attempts (client_post env (ServerURL (reported d) @ ''/api/v1/telemetry'')
      ''application/json'' (marshal_payload env (fst (sim_report r iv c d)))) 2 w = (resp, w1)"
    by (meson surj_pair)
  have eq: "sim_cycle env iv r c (d, w) = (case resp of
      Inl e \<Rightarrow> (Ok (), c, reported d, w1)
    | Inr rep \<Rightarrow> if ReplyStatus rep = 200
        then (case react env (ReplyBody rep) (reported d, w1) of (out, d2, w2) \<Rightarrow> (out, Suc c, d2, w2))
        else (Ok (), c, reported d, w1))"
    by (simp only: sim_cycle_def case_prod_beta Let_def sim_report_device fst_conv snd_conv post)
  show "upgraded (reported d) d'" "c \<le> c' \<and> c' \<le> Suc c"
    using assms react_upgraded[of "(reported d, w1)" env] unfolding eq
    by (auto split: sum.splits if_splits prod.splits) (metis fst_conv snd_conv)
qed

section \<open>Runs\<close>

text \<open>The states at the head of the loop: iteration number, cycles counted, device and world.\<close>

inductive sim_reaches ::
  "'w sim_env \<Rightarrow> int \<Rightarrow> simulated_device \<times> 'w \<Rightarrow> nat \<Rightarrow> nat \<Rightarrow> simulated_device \<times> 'w \<Rightarrow> bool"
  for env iv dw
where
  start: "sim_reaches env iv dw 0 0 dw"
| cycle: "sim_reaches env iv dw i c dw1 \<Longrightarrow> sim_cycle env iv (draws env i) c dw1 = (Ok (), c', dw2) \<Longrightarrow>
    sim_reaches env iv dw (Suc i) c' dw2"

lemma reaches_invariant:
  assumes "sim_reaches env iv dw i c dw'" and "device_ok (fst dw)"
  shows "device_ok (fst dw') \<and> BatteryMv (fst dw') \<le> BatteryMv (fst dw) \<and>
    NextSeqNo (fst dw') = NextSeqNo (fst dw) + word_of_nat i \<and>
    SimDeviceID (fst dw') = SimDeviceID (fst dw) \<and> ServerURL (fst dw') = ServerURL (fst dw) \<and> c \<le> i"
  using assms(1)
proof induction
  case start
  show ?case using assms(2) by simp
next
  case (cycle i c dw1 c' dw2)
  have "sim_cycle env iv (draws env i) c (fst dw1, snd dw1) = (Ok (), c', fst dw2, snd dw2)"
    using cycle.hyps by simp
  note d = cycle_device[OF this]
  note f = upgraded_fields[OF d(1)]
  from cycle.IH have b: "3299 \<le> BatteryMv (fst dw1)" "BatteryMv (fst dw1) \<le> 4100"
    by (simp_all add: device_ok_def)
  from drained_bounds[OF b] cycle.IH d(2) show ?case
    by (auto simp: f reported_def device_ok_def intro: order_trans)
qed

section \<open>Properties of the simulator\<close>

text \<open>The payload as the server's struct: what the decoder fills in for the absent fields.\<close>

definition sim_telemetry :: "sim_payload \<Rightarrow> telemetry_payload" where
  "sim_telemetry p = \<lparr>Header = SimHeader p,
     Metrics = \<lparr>Temperature = SimTemperature (SimMetrics p), Humidity = SimHumidity (SimMetrics p),
       BatteryVoltage = SimBatteryVoltage (SimMetrics p), BatteryLevelPct = SimBatteryLevelPct (SimMetrics p),
       RSSI = SimRSSI (SimMetrics p), IntervalSec = 0, CustomValues = None\<rparr>,
     Status = Some (SimStatus p)\<rparr>"

lemma report_within:
  assumes "device_ok d" "draws_ok r"
  shows "f64_within 21 31 (SimTemperature (SimMetrics (fst (sim_report r iv c d))))"
    and "f64_within 43 67 (SimHumidity (SimMetrics (fst (sim_report r iv c d))))"
proof -
  have base: "f64_within 22 30 (BaseTemp d)" "f64_within 45 65 (BaseHumidity d)"
    and r: "unit_float (draw_temp r)" "unit_float (draw_humidity r)"
    using assms by (simp_all add: device_ok_def draws_ok_def)
  have "f64_within (0 - 1) (2 - 1) (f64_sub (f64_mul (draw_temp r) 0x4000000000000000) 0x3FF0000000000000)"
    by (rule within_sub[OF within_mul is_within, where lo = "0xBFF0000000000000" and hi = "0x3FF0000000000000"])
       (use r f64_constants in simp_all)
  from within_add[OF base(1) this, where lo = "0x4035000000000000" and hi = "0x403F000000000000"]
  show "f64_within 21 31 (SimTemperature (SimMetrics (fst (sim_report r iv c d))))"
    using f64_constants by (simp add: sim_report_def Let_def)
  have "f64_within (0 - 2) (4 - 2) (f64_sub (f64_mul (draw_humidity r) 0x4010000000000000) 0x4000000000000000)"
    by (rule within_sub[OF within_mul is_within, where lo = "0xC000000000000000" and hi = "0x4000000000000000"])
       (use r f64_constants in simp_all)
  from within_add[OF base(2) this, where lo = "0x4045800000000000" and hi = "0x4050C00000000000"]
  show "f64_within 43 67 (SimHumidity (SimMetrics (fst (sim_report r iv c d))))"
    using f64_constants by (simp add: sim_report_def Let_def)
qed

lemma f64_round_below:
  assumes "0 < b" and "f64_is hi n" and "int a \<le> n * 2 ^ 1074 * int b"
  shows "f64_finite (f64_round False a b)" and "int (mag_value 52 (f64_mag (f64_round False a b))) \<le> n * 2 ^ 1074"
proof -
  have hi: "f64_finite hi" "f64_scaled hi = n * 2 ^ 1074" using assms(2) by (simp_all only: f64_is_def)
  note r = round_up_bound[OF assms(1) hi(1), of a, unfolded hi(2), OF assms(3)]
  have mag: "f64_mag (f64_round False a b) = nearest_mag a b"
    using r(1) by (simp add: f64_round_def f64_make_fields)
  show "f64_finite (f64_round False a b)" using r(1) by (simp only: f64_round_def f64_make_finite)
  show "int (mag_value 52 (f64_mag (f64_round False a b))) \<le> n * 2 ^ 1074" unfolding mag by (rule r(2))
qed

lemma f64_round_positive: "f64_neg (f64_round False a b) = False"
  by (simp add: f64_round_def f64_make_fields)

text \<open>The voltage of a battery of at most 4100 mV is finite.\<close>

lemma voltage_finite:
  assumes "n \<le> 4100"
  shows "f64_finite (f64_div (f64_of_nat n) 0x408F400000000000)"
proof -
  define c :: int where "c = 2 ^ 1074"
  have c: "0 < c" unfolding c_def by (simp only: zero_less_power zero_less_numeral)
  have k: "f64_is 0x40B0040000000000 4100" "f64_is 0x4014000000000000 5" "f64_is 0x408F400000000000 1000"
    by (simp_all add: f64_is_def f64_eval)
  have cn: "int (2 ^ 1074) = c" unfolding c_def by (simp only: of_nat_power of_nat_numeral)
  have "int (n * 2 ^ 1074) \<le> 4100 * c * int 1" using assms c by (simp only: of_nat_mult cn) simp
  note v = f64_round_below[OF zero_less_one k(1), folded c_def, OF this, folded f64_of_nat_def]
  let ?x = "f64_of_nat n" and ?y = "0x408F400000000000 :: f64"
  have y: "f64_finite ?y" "f64_scaled ?y = 1000 * c" using k(3) unfolding f64_is_def c_def by blast+
  have neg: "\<not> f64_neg ?y" "\<not> f64_neg ?x"
    by (simp add: f64_neg_def) (simp only: f64_of_nat_def f64_round_positive not_False_eq_True)
  have m: "int (mag_value 52 (f64_mag ?y)) = 1000 * c"
    using y(2) neg(1) by (simp only: f64_scaled_def signed_mag_def if_False)
  have pos: "0 < mag_value 52 (f64_mag ?y)" using m c by linarith
  have "mag_value 52 0 = 0" by (simp add: mag_value_def)
  then have nz: "f64_mag ?y \<noteq> 0" using pos by (metis less_irrefl)
  have div: "f64_div ?x ?y = f64_round False (mag_value 52 (f64_mag ?x) * 2 ^ 1074) (mag_value 52 (f64_mag ?y))"
    using v(1) y(1) nz neg by (simp only: f64_div_def f64_finite_not_nan) simp
  have "int (mag_value 52 (f64_mag ?x)) * c \<le> 4100 * c * c"
    using v(2) c by (intro mult_right_mono) simp_all
  also have "\<dots> \<le> 5 * c * (1000 * c)" using mult_pos_pos[OF c c] by simp
  finally have "int (mag_value 52 (f64_mag ?x) * 2 ^ 1074) \<le> 5 * c * int (mag_value 52 (f64_mag ?y))"
    unfolding m of_nat_mult cn .
  then show ?thesis unfolding div by (rule f64_round_below(1)[OF pos k(2), folded c_def])
qed
lemma report_voltage:
  assumes "device_ok d"
  shows "f64_finite (SimBatteryVoltage (SimMetrics (fst (sim_report r iv c d))))"
proof -
  have "drained (BatteryMv d) \<le> BatteryMv d" "BatteryMv d \<le> 4100"
    using assms drained_bounds by (auto simp: device_ok_def)
  then have "unat (drained (BatteryMv d)) \<le> 4100" by (simp add: word_le_nat_alt)
  from voltage_finite[OF this] show ?thesis by (simp add: sim_report_def Let_def)
qed

lemma report_rssi:
  assumes "draw_rssi r < 25"
  shows "sint (SimRSSI (SimMetrics (fst (sim_report r iv c d)))) = - 55 - int (draw_rssi r)"
proof -
  have "SimRSSI (SimMetrics (fst (sim_report r iv c d))) = word_of_int (- 55 - int (draw_rssi r))"
    by (simp add: sim_report_def Let_def)
  moreover have "signed_take_bit 31 (- 55 - int (draw_rssi r)) = - 55 - int (draw_rssi r)"
    using assms by (intro signed_take_bit_int_eq_self) simp_all
  ultimately show ?thesis by (simp only: sint_sbintrunc') simp
qed

lemma mild_report_rules:
  assumes "f64_within 0 35 (Temperature (Metrics t))" "- 85 \<le> sint (RSSI (Metrics t))"
  shows "set (map RuleName (evaluate_rules DefaultThresholds now t)) \<subseteq> {''LOW_BATTERY''}"
proof -
  have fin: "f64_finite (Temperature (Metrics t))" using assms(1) by (simp add: f64_within_def)
  have "\<not> 35 * 2 ^ 1074 < f64_scaled (Temperature (Metrics t))" "\<not> f64_scaled (Temperature (Metrics t)) < 0"
    using assms(1) unfolding f64_within_def by linarith+
  moreover have "sint (WeakRSSIThreshold DefaultThresholds) = - 85" by (simp add: DefaultThresholds_def)
  ultimately show ?thesis
    using assms(2) unfolding rule_names default_temperature[OF fin] by (auto split: if_splits)
qed

text \<open>
  C21: The report of the \<open>i\<close>-th iteration of a run, after any answers, carries the device's id
  and the sequence number \<open>i + 1\<close>; its readings stay within 21 to 31 degrees, 43 to 67 percent,
  0 to 100 percent of battery and -79 to -55 dBm, so that the only alert it can raise is the one
  for a low battery.
\<close>

theorem sim_reports_harmless:
  assumes "NewSimulatedDevice key_pair ca_file r1 r2 r3 devid cert key url = Ok d"
    and "unit_float r1" "unit_float r2" "r3 < 300"
    and "sim_reaches env iv (d, w) i c dw'" and "draws_ok (draws env i)"
    and "p = sim_telemetry (fst (sim_report (draws env i) iv c (fst dw')))"
  shows "DeviceID (Header p) = devid \<and> SeqNo (Header p) = word_of_nat (Suc i) \<and>
    f64_within 21 31 (Temperature (Metrics p)) \<and> f64_within 43 67 (Humidity (Metrics p)) \<and>
    unat (BatteryLevelPct (Metrics p)) \<le> 100 \<and> sint (RSSI (Metrics p)) \<in> {- 79 .. - 55} \<and>
    set (map RuleName (evaluate_rules DefaultThresholds now p)) \<subseteq> {''LOW_BATTERY''}"
proof -
  note n = new_device[OF assms(1-4)]
  have inv: "device_ok (fst dw')" "NextSeqNo (fst dw') = word_of_nat (Suc i)" "SimDeviceID (fst dw') = devid"
    using reaches_invariant[OF assms(5)] n by simp_all
  note w = report_within[OF inv(1) assms(6), of iv c]
  have head: "DeviceID (Header p) = devid" "SeqNo (Header p) = word_of_nat (Suc i)"
    "BatteryLevelPct (Metrics p) = battery_pct (drained (BatteryMv (fst dw')))"
    using inv(2,3) by (simp_all add: assms(7) sim_telemetry_def sim_report_def Let_def)
  have temp: "f64_within 21 31 (Temperature (Metrics p))" "f64_within 43 67 (Humidity (Metrics p))"
    using w by (simp_all add: assms(7) sim_telemetry_def)
  have rssi: "sint (RSSI (Metrics p)) \<in> {- 79 .. - 55}"
    using report_rssi[of "draws env i" iv c "fst dw'"] assms(6)
    by (simp add: assms(7) sim_telemetry_def draws_ok_def)
  have "3299 \<le> BatteryMv (fst dw')" "BatteryMv (fst dw') \<le> 4100" using inv(1) by (simp_all add: device_ok_def)
  then have "drained (BatteryMv (fst dw')) \<le> 4100" using drained_bounds by (blast intro: order_trans)
  then have batt: "unat (BatteryLevelPct (Metrics p)) \<le> 100"
    unfolding head(3) battery_pct_value[OF \<open>drained (BatteryMv (fst dw')) \<le> 4100\<close>] by (simp add: word_le_nat_alt)
  have "f64_within 0 35 (Temperature (Metrics p))"
    using temp(1) unfolding f64_within_def by (simp del: power_numeral)
  from mild_report_rules[OF this] rssi
  have "set (map RuleName (evaluate_rules DefaultThresholds now p)) \<subseteq> {''LOW_BATTERY''}" by simp
  with head temp rssi batt show ?thesis by blast
qed

text \<open>A world for the examples: every request is logged and answered 200; the answers hold one
  known and one unknown command.\<close>

definition demo_draws :: sim_draws where
  "demo_draws = \<lparr>draw_temp = 0, draw_humidity = 0, draw_rssi = 3, draw_heap = 7, draw_now = 0\<rparr>"

definition demo_sim_env :: "gostring list sim_env" where
  "demo_sim_env = \<lparr>client_get = (\<lambda>url w. (Inr \<lparr>ReplyStatus = 200, ReplyBody = [], ReplyError = None\<rparr>, w @ [url])),
     client_post = (\<lambda>url ctype body w. (Inr \<lparr>ReplyStatus = 200, ReplyBody = [], ReplyError = None\<rparr>, w @ [url])),
     request_valid = (\<lambda>_. True), marshal_payload = (\<lambda>_. []), marshal_fields = (\<lambda>_. []),
     unmarshal_response = (\<lambda>_. Ok (zero_response\<lparr>Commands :=
       [\<lparr>CommandID = ''c1'', Action = ''REBOOT'', Params = None\<rparr>,
        \<lparr>CommandID = ''c2'', Action = ''PING'', Params = None\<rparr>]\<rparr>)),
     digest_hex = (\<lambda>_. []), draws = (\<lambda>_. demo_draws), cancelled = (\<lambda>_. False)\<rparr>"

definition demo_device :: simulated_device where
  "demo_device = (case NewSimulatedDevice (Ok ()) (Ok ()) 0 0 0 ''D'' ''crt'' ''key'' ''https://s'' of Ok d \<Rightarrow> d)"

lemma demo_draws_ok: "unit_float 0" "draws_ok (draws demo_sim_env i)"
  using f64_constants(1) by (simp_all add: unit_float_def draws_ok_def demo_sim_env_def demo_draws_def f64_is_def)

lemma demo_new: "NewSimulatedDevice (Ok ()) (Ok ()) 0 0 0 ''D'' ''crt'' ''key'' ''https://s'' = Ok demo_device"
  by (simp add: demo_device_def NewSimulatedDevice_def)

theorem sim_reports_harmless_witness:
  "\<exists>c dw'. sim_reaches demo_sim_env 1 (demo_device, []) 1 c dw' \<and>
    SeqNo (Header (sim_telemetry (fst (sim_report (draws demo_sim_env 1) 1 c (fst dw'))))) = 2 \<and>
    set (map RuleName (evaluate_rules DefaultThresholds 0
      (sim_telemetry (fst (sim_report (draws demo_sim_env 1) 1 c (fst dw')))))) \<subseteq> {''LOW_BATTERY''}"
proof -
  have "\<exists>c dw'. sim_cycle demo_sim_env 1 (draws demo_sim_env 0) 0 (demo_device, []) = (Ok (), c, dw')"
    by (simp add: sim_cycle_def sim_report_def react_def ExecuteCommand_def demo_sim_env_def numeral_2_eq_2
        case_prod_beta Let_def zero_response_def)
  then obtain c dw' where r: "sim_reaches demo_sim_env 1 (demo_device, []) (Suc 0) c dw'"
    using cycle[OF start] by blast
  from sim_reports_harmless[OF demo_new _ _ _ this _ refl] demo_draws_ok
  show ?thesis by (intro exI[of _ c] exI[of _ dw'] conjI) (use r in simp_all)
qed

definition ack_sent :: "'w sim_env \<Rightarrow> simulated_device \<Rightarrow> device_command \<Rightarrow> 'w \<Rightarrow> 'w" where
  "ack_sent env d cmd w = snd (client_post env (ServerURL d @ ''/api/v1/commands/ack'') ''application/json''
     (marshal_fields env [(''command_id'', CommandID cmd), (''device_id'', SimDeviceID d),
        (''result'', if Action cmd \<in> {''CONFIG_UPDATE'', ''REBOOT'', ''SELF_TEST''} then ''SUCCESS'' else ''UNKNOWN_ACTION'')]) w)"

lemma execute_all_acks:
  assumes "request_valid env (ServerURL d @ ''/api/v1/commands/ack'')"
  shows "execute_all env cmds (d, w) =
    (Ok (), d\<lparr>SimBootCount := SimBootCount d + word_of_nat (length (filter (\<lambda>c. Action c = ''REBOOT'') cmds))\<rparr>,
     fold (ack_sent env d) cmds w)"
  using assms
proof (induction cmds arbitrary: d w)
  case (Cons cmd cmds)
  define d1 where "d1 = snd (run_action cmd d)"
  have d1: "d1 = d\<lparr>SimBootCount := SimBootCount d + (if Action cmd = ''REBOOT'' then 1 else 0)\<rparr>"
    by (simp add: d1_def run_action_def)
  have step: "ExecuteCommand env cmd (d, w) = (Ok (), d1, ack_sent env d cmd w)"
    using Cons.prems by (simp add: ExecuteCommand_def ack_sent_def d1_def run_action_def Let_def)
  have ack: "ack_sent env d1 = ack_sent env d" by (simp add: fun_eq_iff ack_sent_def d1)
  have "execute_all env cmds (d1, ack_sent env d cmd w) = (Ok (), d1\<lparr>SimBootCount := SimBootCount d1 +
      word_of_nat (length (filter (\<lambda>c. Action c = ''REBOOT'') cmds))\<rparr>, fold (ack_sent env d) cmds (ack_sent env d cmd w))"
    using Cons.IH[of d1] Cons.prems by (simp add: ack) (simp add: d1)
  with step show ?case by (simp add: d1)
qed simp

text \<open>
  C36: All commands of an answer are executed in order and each is acknowledged once, with
  SUCCESS or UNKNOWN\_ACTION; the device reboots once per REBOOT and nothing else of it
  changes: a CONFIG\_UPDATE is acknowledged as a success without any effect.
\<close>

theorem commands_acknowledged:
  assumes "request_valid env (ServerURL d @ ''/api/v1/commands/ack'')"
  shows "execute_all env cmds (d, w) =
    (Ok (), d\<lparr>SimBootCount := SimBootCount d + word_of_nat (length (filter (\<lambda>c. Action c = ''REBOOT'') cmds))\<rparr>,
     fold (ack_sent env d) cmds w)"
  using assms by (rule execute_all_acks)

theorem commands_acknowledged_witness:
  "execute_all demo_sim_env [\<lparr>CommandID = ''c1'', Action = ''REBOOT'', Params = None\<rparr>,
       \<lparr>CommandID = ''c2'', Action = ''PING'', Params = None\<rparr>] (demo_device, []) =
     (Ok (), demo_device\<lparr>SimBootCount := SimBootCount demo_device + 1\<rparr>,
      [''https://s/api/v1/commands/ack'', ''https://s/api/v1/commands/ack''])"
proof -
  have "request_valid demo_sim_env (ServerURL demo_device @ ''/api/v1/commands/ack'')"
    by (simp add: demo_sim_env_def)
  moreover have "ack_sent demo_sim_env demo_device cmd w = w @ [''https://s/api/v1/commands/ack'']" for cmd w
    by (simp add: ack_sent_def demo_sim_env_def demo_device_def NewSimulatedDevice_def)
  ultimately show ?thesis by (simp only: commands_acknowledged) simp
qed

lemma answered_at_once: "send w = (Inr resp, w') \<Longrightarrow> post_attempts send n w = (Inr resp, w')"
  by (cases n) simp_all

lemma react_returns:
  assumes "request_valid env (ServerURL (fst dw) @ ''/api/v1/commands/ack'')"
  shows "fst (react env body dw) = Ok ()"
proof (cases "unmarshal_response env body")
  case (Ok apiResp)
  let ?dw = "case OTA apiResp of None \<Rightarrow> dw | Some ota \<Rightarrow>
      if Available ota \<and> TargetVersion ota \<noteq> SimFirmware (fst dw) then snd (PerformOTA env ota dw) else dw"
  have up: "upgraded (fst dw) (fst ?dw)"
    using ota_upgraded[of "fst dw" env _ "snd dw"] by (simp split: option.splits)
  have all: "request_valid env (ServerURL d @ ''/api/v1/commands/ack'') \<Longrightarrow> fst (execute_all env cmds (d, w)) = Ok ()"
    for cmds d w
  proof (induction cmds arbitrary: d w)
    case (Cons cmd cmds)
    then show ?case
      using upgraded_fields(2)[OF run_action_upgraded[of d cmd]]
      by (simp add: ExecuteCommand_def Let_def case_prod_beta)
  qed simp
  from all[of "fst ?dw" "Commands apiResp" "snd ?dw"] assms upgraded_fields(2)[OF up] Ok show ?thesis
    by (simp only: react_def Let_def outcome.case prod.collapse)
qed (simp_all add: react_def)

definition answers :: "'w sim_env \<Rightarrow> gostring \<Rightarrow> bool" where
  "answers env url \<longleftrightarrow> (\<forall>body w. \<exists>resp w'. client_post env (url @ ''/api/v1/telemetry'') ''application/json'' body w =
     (Inr resp, w') \<and> ReplyStatus resp = 200)"

lemma answered_cycle:
  assumes "answers env (ServerURL (fst dw))"
    and "request_valid env (ServerURL (fst dw) @ ''/api/v1/commands/ack'')"
  shows "\<exists>dw'. sim_cycle env iv r c dw = (Ok (), Suc c, dw') \<and> upgraded (reported (fst dw)) (fst dw')"
proof -
  obtain d w where dw: "dw = (d, w)" by (cases dw)
  have url: "ServerURL (reported d) = ServerURL d" by (simp add: reported_def)
  obtain resp w1 where post: "client_post env (ServerURL d @ ''/api/v1/telemetry'') ''application/json''
      (marshal_payload env (fst (sim_report r iv c d))) w = (Inr resp, w1)" "ReplyStatus resp = 200"
    using assms(1) unfolding answers_def dw fst_conv by blast
  have eq: "sim_cycle env iv r c (d, w) =
      (case react env (ReplyBody resp) (reported d, w1) of (out, d2, w2) \<Rightarrow> (out, Suc c, d2, w2))"
    by (simp only: sim_cycle_def case_prod_beta Let_def sim_report_device fst_conv snd_conv url
        answered_at_once[of "client_post env _ _ _", OF post(1)] post(2) sum.case if_True refl)
  have "fst (react env (ReplyBody resp) (reported d, w1)) = Ok ()"
    using assms(2) by (intro react_returns) (simp add: dw url)
  with react_upgraded[of "(reported d, w1)" env "ReplyBody resp"] show ?thesis
    unfolding dw eq by (cases "react env (ReplyBody resp) (reported d, w1)") auto
qed

lemma sim_loop_ends:
  assumes "answers env (ServerURL (fst dw))"
    and "request_valid env (ServerURL (fst dw) @ ''/api/v1/commands/ack'')"
    and "\<forall>n. \<not> cancelled env n" and "c < m"
  shows "\<exists>dw'. sim_loop env iv (int m) i c dw = Some (Ok (), m, dw') \<and>
    NextSeqNo (fst dw') = NextSeqNo (fst dw) + word_of_nat (m - c)"
  using assms
proof (induction "m - c" arbitrary: i c dw)
  case 0
  then show ?case by simp
next
  case (Suc n)
  obtain dw1 where cyc: "sim_cycle env iv (draws env i) c dw = (Ok (), Suc c, dw1)"
    and up: "upgraded (reported (fst dw)) (fst dw1)"
    using answered_cycle[OF Suc.prems(1,2)] by blast
  have f: "ServerURL (fst dw1) = ServerURL (fst dw)" "NextSeqNo (fst dw1) = NextSeqNo (fst dw) + 1"
    using upgraded_fields[OF up] by (simp_all add: reported_def)
  show ?case
  proof (cases "Suc c = m")
    case True
    then have "m - c = 1" by simp
    with True cyc f Suc.prems(3) show ?thesis by (subst sim_loop.simps) simp
  next
    case False
    then have "Suc c < m" "n = m - Suc c" using Suc by simp_all
    from Suc.hyps(1)[OF this(2), of dw1 "i + 1"] this Suc.prems f
    obtain dw' where d: "sim_loop env iv (int m) (i + 1) (Suc c) dw1 = Some (Ok (), m, dw')"
      "NextSeqNo (fst dw') = NextSeqNo (fst dw1) + word_of_nat (m - Suc c)" by auto
    have "m - c = Suc (m - Suc c)" using Suc.prems(4) by simp
    with d f cyc False \<open>Suc c < m\<close> Suc.prems(3) show ?thesis
      by (subst sim_loop.simps) (simp add: add.assoc)
  qed
qed

text \<open>
  C37: Against a server that answers every report with status 200, a run that is not interrupted
  returns after exactly the requested number of reports, whatever the answers hold.
\<close>

theorem sim_run_ends:
  assumes "answers env (ServerURL d)" and "request_valid env (ServerURL d @ ''/api/v1/commands/ack'')"
    and "\<forall>n. \<not> cancelled env n" and "0 < maxCycles"
  shows "\<exists>d' w'. sim_Run env iv maxCycles d w = Some (Ok (), nat maxCycles, d', w') \<and>
    NextSeqNo d' = NextSeqNo d + word_of_int maxCycles"
proof -
  have m: "int (nat maxCycles) = maxCycles" "0 < nat maxCycles" using assms(4) by simp_all
  have "\<exists>dw'. sim_loop env iv (int (nat maxCycles)) 0 0 (d, w) = Some (Ok (), nat maxCycles, dw') \<and>
      NextSeqNo (fst dw') = NextSeqNo (fst (d, w)) + word_of_nat (nat maxCycles - 0)"
    by (rule sim_loop_ends) (use assms m(2) in simp_all)
  then show ?thesis using m(1) by (auto simp: sim_Run_def)
qed

theorem sim_run_ends_witness:
  "\<exists>d' w'. sim_Run demo_sim_env 1 3 demo_device [] = Some (Ok (), 3, d', w') \<and> NextSeqNo d' = 4"
proof -
  have "answers demo_sim_env (ServerURL demo_device)" "\<forall>n. \<not> cancelled demo_sim_env n"
    "request_valid demo_sim_env (ServerURL demo_device @ ''/api/v1/commands/ack'')"
    by (simp_all add: answers_def demo_sim_env_def)
  from sim_run_ends[OF this(1,3,2), of 3 1 "[]"] show ?thesis
    by (auto simp: demo_device_def NewSimulatedDevice_def)
qed

text \<open>A server that never answers 200: the failed cycles are not counted.\<close>

definition refuses :: "'w sim_env \<Rightarrow> gostring \<Rightarrow> bool" where
  "refuses env url \<longleftrightarrow> (\<forall>body w resp w'. client_post env (url @ ''/api/v1/telemetry'') ''application/json'' body w =
     (Inr resp, w') \<longrightarrow> ReplyStatus resp \<noteq> 200)"

lemma refused_attempts:
  assumes "refuses env url"
    and "post_attempts (client_post env (url @ ''/api/v1/telemetry'') ''application/json'' body) n w = (Inr resp, w')"
  shows "ReplyStatus resp \<noteq> 200"
  using assms(2)
proof (induction n arbitrary: w)
  case 0
  then show ?case using assms(1) unfolding refuses_def post_attempts.simps by blast
next
  case (Suc n)
  obtain res w1 where send: "client_post env (url @ ''/api/v1/telemetry'') ''application/json'' body w = (res, w1)"
    by (meson surj_pair)
  show ?case
  proof (cases res)
    case (Inl e)
    with Suc send show ?thesis by simp
  next
    case (Inr rep)
    with Suc.prems send have "rep = resp" by simp
    with send Inr assms(1) show ?thesis unfolding refuses_def by blast
  qed
qed

lemma refused_cycle:
  assumes "refuses env (ServerURL d)"
  shows "\<exists>w'. sim_cycle env iv r c (d, w) = (Ok (), c, reported d, w')"
proof -
  have url: "ServerURL (reported d) = ServerURL d" by (simp add: reported_def)
  obtain res w1 where post: "post_attempts (client_post env (ServerURL d @ ''/api/v1/telemetry'') ''application/json''
      (marshal_payload env (fst (sim_report r iv c d)))) 2 w = (res, w1)"
    by (meson surj_pair)
  with refused_attempts[OF assms] have "\<forall>resp. res = Inr resp \<longrightarrow> ReplyStatus resp \<noteq> 200" by blast
  then show ?thesis
    by (cases res) (simp_all only: sim_cycle_def case_prod_beta Let_def sim_report_device fst_conv snd_conv url post
        sum.case if_False, simp_all)
qed

definition stuck :: "'w sim_env \<Rightarrow> int \<Rightarrow> nat \<Rightarrow> simulated_device \<times> 'w \<Rightarrow> bool" where
  "stuck env maxCycles c dw \<longleftrightarrow> refuses env (ServerURL (fst dw)) \<and> (\<forall>n. \<not> cancelled env n) \<and>
     \<not> (0 < maxCycles \<and> maxCycles \<le> int c)"

lemma stuck_cycle:
  assumes "stuck env maxCycles c dw"
  shows "\<exists>dw'. sim_cycle env iv r c dw = (Ok (), c, dw') \<and> stuck env maxCycles c dw'"
proof -
  obtain d w where dw: "dw = (d, w)" by (cases dw)
  have "refuses env (ServerURL d)" using assms by (simp add: stuck_def dw)
  from refused_cycle[OF this, of iv r c w] assms show ?thesis
    unfolding dw by (auto simp: stuck_def reported_def)
qed

lemma stuck_never_returns: "sim_loop env iv maxCycles i c dw = Some res \<Longrightarrow> \<not> stuck env maxCycles c dw"
proof (rule sim_loop.raw_induct[where P = "\<lambda>env iv maxCycles i c dw res. \<not> stuck env maxCycles c dw"])
  fix f env iv maxCycles i c dw res
  assume IH: "\<And>env iv maxCycles i c dw res. f env iv maxCycles i c dw = Some res \<Longrightarrow> \<not> stuck env maxCycles c dw"
    and eq: "(if cancelled env (2 * i) then Some (Ok (), c, dw)
      else case sim_cycle env iv (draws env i) c dw of
             (Panic, cycles', dw') \<Rightarrow> Some (Panic, cycles', dw')
           | (_, cycles', dw') \<Rightarrow>
               if 0 < maxCycles \<and> maxCycles \<le> int cycles' then Some (Ok (), cycles', dw')
               else if cancelled env (2 * i + 1) then Some (Ok (), cycles', dw')
               else f env iv maxCycles (i + 1) cycles' dw') = Some res"
  show "\<not> stuck env maxCycles c dw"
  proof
    assume st: "stuck env maxCycles c dw"
    then obtain dw' where d: "sim_cycle env iv (draws env i) c dw = (Ok (), c, dw')" "stuck env maxCycles c dw'"
      using stuck_cycle by blast
    have "f env iv maxCycles (i + 1) c dw' = Some res"
      using eq st by (simp add: d(1) stuck_def split: if_splits)
    with IH d(2) show False by blast
  qed
qed

text \<open>
  C38: Against a server that never answers a report with status 200, a run that is not
  interrupted never returns, even when the number of cycles is limited: refused and failed
  reports do not count as cycles.
\<close>

theorem sim_run_unanswered:
  assumes "refuses env (ServerURL d)" and "\<forall>n. \<not> cancelled env n"
  shows "sim_Run env iv maxCycles d w = None"
proof -
  have "\<not> (0 < maxCycles \<and> maxCycles \<le> int 0)" by simp
  with assms have "stuck env maxCycles 0 (d, w)" by (simp only: stuck_def fst_conv simp_thms)
  with stuck_never_returns[of env iv maxCycles 0 0 "(d, w)"] show ?thesis
    by (cases "sim_loop env iv maxCycles 0 0 (d, w)") (auto simp: sim_Run_def)
qed

theorem sim_run_unanswered_witness:
  "sim_Run (demo_sim_env\<lparr>client_post := (\<lambda>url ctype body w. (Inl EOF, w))\<rparr>) 1 3 demo_device [] = None"
  by (rule sim_run_unanswered) (simp_all add: refuses_def demo_sim_env_def)

end
