(* ===== verification/Simulator_Json.thy ===== *)
theory Simulator_Json
  imports Json_Roundtrip Simulator_Properties
begin

text \<open>
  The JSON of the simulator (tools/simulator/main.go): the payload and the acknowledgements it
  writes are read by the server's structs, and the answers that the server writes are read by the
  simulator's own structs.
\<close>

section \<open>What the simulator writes\<close>

text \<open>The simulator's structs have no \<^verbatim>\<open>omitempty\<close> in what it sends.\<close>

definition tree_sim_header :: "message_header \<Rightarrow> json_tree" where
  "tree_sim_header h = TObj
     [(''device_id'', TStr (DeviceID h)), (''timestamp'', tree_i64 (Timestamp h)), (''seq_no'', tree_u32 (SeqNo h)),
      (''firmware_version'', TStr (FirmwareVersion h)), (''boot_count'', tree_u32 (BootCount h))]"

definition tree_sim_metrics :: "sim_metrics \<Rightarrow> json_tree" where
  "tree_sim_metrics m = TObj
     [(''temperature'', tree_f64 (SimTemperature m)), (''humidity'', tree_f64 (SimHumidity m)),
      (''battery_voltage'', tree_f64 (SimBatteryVoltage m)), (''battery_level_pct'', tree_u32 (SimBatteryLevelPct m)),
      (''rssi'', tree_i32 (SimRSSI m))]"

definition tree_sim_status :: "device_status \<Rightarrow> json_tree" where
  "tree_sim_status s = TObj
     [(''state'', TStr (State s)), (''uptime_sec'', tree_u32 (UptimeSec s)),
      (''free_heap_bytes'', tree_u32 (FreeHeapBytes s))]"

definition tree_sim_payload :: "sim_payload \<Rightarrow> json_tree" where
  "tree_sim_payload p = TObj
     [(''header'', tree_sim_header (SimHeader p)), (''metrics'', tree_sim_metrics (SimMetrics p)),
      (''status'', tree_sim_status (SimStatus p))]"

definition sim_payload_ok :: "sim_payload \<Rightarrow> bool" where
  "sim_payload_ok p \<longleftrightarrow> header_ok (SimHeader p) \<and> valid_utf8 (State (SimStatus p)) \<and>
     f64_finite (SimTemperature (SimMetrics p)) \<and> f64_finite (SimHumidity (SimMetrics p)) \<and>
     f64_finite (SimBatteryVoltage (SimMetrics p))"

lemma read_sim_header: "dec_struct header_member (tree_sim_header h) zero_header = Some h"
  by (cases h) (simp add: tree_sim_header_def dec_struct_fill header_members zero_header_def)

lemma read_sim_status: "dec_struct status_member (tree_sim_status s) zero_status = Some s"
  by (cases s) (simp add: tree_sim_status_def dec_struct_fill status_member_def reading zero_status_def)

lemma pointer_to_sim_status:
  "dec_pointer dec zero (tree_sim_status s) None = map_option Some (dec (tree_sim_status s) zero)"
  by (simp add: dec_pointer_def tree_sim_status_def)

lemma read_sim_payload:
  assumes "sim_payload_ok p"
  shows "dec_struct payload_member (tree_sim_payload p) empty_payload = Some (sim_telemetry p)"
proof -
  have "dec_struct metrics_member (tree_sim_metrics (SimMetrics p)) zero_metrics = Some (Metrics (sim_telemetry p))"
    using assms
    by (simp add: tree_sim_metrics_def dec_struct_fill metrics_member_def reading zero_metrics_def sim_telemetry_def sim_payload_ok_def)
  then show ?thesis
    by (simp add: tree_sim_payload_def dec_struct_fill[of payload_member] payload_member_def reading read_sim_header
        read_sim_status pointer_to_sim_status empty_payload_def sim_telemetry_def)
qed

lemma tree_sim_payload_ok: "sim_payload_ok p \<Longrightarrow> tree_ok 0 (tree_sim_payload p)"
  by (simp add: tree_sim_payload_def tree_sim_header_def tree_sim_metrics_def tree_sim_status_def sim_payload_ok_def
      header_ok_def valid_ascii number_ok_int float_number_ok max_nesting_def)

lemma unmarshal_sim_payload:
  "sim_payload_ok p \<Longrightarrow>
    json_Unmarshal err payload_member empty_payload (json_Marshal (tree_sim_payload p)) = Ok (sim_telemetry p)"
  by (simp add: json_Unmarshal_def json_Marshal_def json_parse_text tree_sim_payload_ok read_sim_payload)

lemma read_ack_fields:
  assumes "valid_utf8 cid" "valid_utf8 dev" "valid_utf8 res"
  shows "json_Decode err ack_member \<lparr>AckDevice = [], AckID = [], AckResult = []\<rparr>
     (Ok (json_Marshal (tree_fields [(''command_id'', cid), (''device_id'', dev), (''result'', res)]))) =
     Ok \<lparr>AckDevice = dev, AckID = cid, AckResult = res\<rparr>"
proof -
  have "tree_ok 0 (tree_fields [(''command_id'', cid), (''device_id'', dev), (''result'', res)])"
    using assms by (simp add: tree_fields_def valid_ascii max_nesting_def)
  from json_parse_first_text[OF this] show ?thesis
    by (simp add: json_Decode_def json_Marshal_def) (simp add: tree_fields_def dec_struct_fill ack_member_def reading)
qed

section \<open>What the simulator reads\<close>

text \<open>A JSON array fills a slice from its start, over the elements that are there.\<close>

definition dec_array :: "(json_tree \<Rightarrow> 'a \<Rightarrow> 'a option) \<Rightarrow> 'a \<Rightarrow> json_tree \<Rightarrow> 'a list \<Rightarrow> 'a list option" where
  "dec_array dec zero t old =
     (case t of
        TNull \<Rightarrow> Some []
      | TArr ts \<Rightarrow> those (map2 dec ts (old @ replicate (length ts) zero))
      | _ \<Rightarrow> None)"

definition ota_member :: "gostring \<Rightarrow> json_tree \<Rightarrow> ota_info \<Rightarrow> ota_info option" where
  "ota_member k t ota =
     (if named ''available'' k then map_option (\<lambda>v. ota\<lparr>Available := v\<rparr>) (dec_bool t (Available ota))
      else if named ''target_version'' k
        then map_option (\<lambda>v. ota\<lparr>TargetVersion := v\<rparr>) (dec_string t (TargetVersion ota))
      else if named ''package_url'' k then map_option (\<lambda>v. ota\<lparr>PackageURL := v\<rparr>) (dec_string t (PackageURL ota))
      else if named ''sha256'' k then map_option (\<lambda>v. ota\<lparr>SHA256 := v\<rparr>) (dec_string t (SHA256 ota))
      else if named ''size_bytes'' k then map_option (\<lambda>v. ota\<lparr>SizeBytes := v\<rparr>) (dec_u32 t (SizeBytes ota))
      else if named ''mandatory'' k then map_option (\<lambda>v. ota\<lparr>Mandatory := v\<rparr>) (dec_bool t (Mandatory ota))
      else Some ota)"

definition command_member :: "gostring \<Rightarrow> json_tree \<Rightarrow> device_command \<Rightarrow> device_command option" where
  "command_member k t c =
     (if named ''command_id'' k then map_option (\<lambda>v. c\<lparr>CommandID := v\<rparr>) (dec_string t (CommandID c))
      else if named ''action'' k then map_option (\<lambda>v. c\<lparr>Action := v\<rparr>) (dec_string t (Action c))
      else if named ''params'' k then map_option (\<lambda>v. c\<lparr>Params := v\<rparr>) (dec_map t (Params c))
      else Some c)"

definition zero_command :: device_command where
  "zero_command = \<lparr>CommandID = [], Action = [], Params = None\<rparr>"

definition response_member :: "gostring \<Rightarrow> json_tree \<Rightarrow> api_response \<Rightarrow> api_response option" where
  "response_member k t r =
     (if named ''status'' k then map_option (\<lambda>v. r\<lparr>RespStatus := v\<rparr>) (dec_string t (RespStatus r))
      else if named ''message'' k then map_option (\<lambda>v. r\<lparr>RespMessage := v\<rparr>) (dec_string t (RespMessage r))
      else if named ''server_time'' k then map_option (\<lambda>v. r\<lparr>ServerTime := v\<rparr>) (dec_i64 t (ServerTime r))
      else if named ''sleep_interval_sec'' k
        then map_option (\<lambda>v. r\<lparr>SleepIntervalSec := v\<rparr>) (dec_u32 t (SleepIntervalSec r))
      else if named ''ota'' k
        then map_option (\<lambda>v. r\<lparr>OTA := v\<rparr>) (dec_pointer (dec_struct ota_member) zero_ota t (OTA r))
      else if named ''commands'' k
        then map_option (\<lambda>v. r\<lparr>Commands := v\<rparr>) (dec_array (dec_struct command_member) zero_command t (Commands r))
      else Some r)"

lemma fill_ota:
  "TargetVersion x = [] \<Longrightarrow> fill ota_member (optional (s \<noteq> []) ''target_version'' (TStr s) @ kvs) x =
     fill ota_member kvs (x\<lparr>TargetVersion := s\<rparr>)"
  "PackageURL x = [] \<Longrightarrow> fill ota_member (optional (s \<noteq> []) ''package_url'' (TStr s) @ kvs) x =
     fill ota_member kvs (x\<lparr>PackageURL := s\<rparr>)"
  "SHA256 x = [] \<Longrightarrow> fill ota_member (optional (s \<noteq> []) ''sha256'' (TStr s) @ kvs) x =
     fill ota_member kvs (x\<lparr>SHA256 := s\<rparr>)"
  "SizeBytes x = 0 \<Longrightarrow> fill ota_member (optional (n \<noteq> 0) ''size_bytes'' (tree_u32 n) @ kvs) x =
     fill ota_member kvs (x\<lparr>SizeBytes := n\<rparr>)"
  "\<not> Mandatory x \<Longrightarrow> fill ota_member (optional b ''mandatory'' (TBool b)) x = Some (x\<lparr>Mandatory := b\<rparr>)"
  by (cases x; auto simp: optional_def ota_member_def reading)+

lemma read_ota: "dec_struct ota_member (tree_ota ota) zero_ota = Some ota"
  by (cases ota) (simp add: tree_ota_def dec_struct_fill fill_ota zero_ota_def, simp add: ota_member_def reading fill_ota)

definition plain_command :: "device_command \<Rightarrow> device_command" where
  "plain_command c = c\<lparr>Params := plain_map (Params c)\<rparr>"

definition command_ok :: "device_command \<Rightarrow> bool" where
  "command_ok c \<longleftrightarrow> valid_utf8 (CommandID c) \<and> valid_utf8 (Action c) \<and> map_ok 3 (Params c)"

lemma read_command:
  assumes "command_ok c"
  shows "dec_struct command_member (tree_command c) zero_command = Some (plain_command c)"
proof -
  have "map_ok 3 (Params c)" using assms by (simp add: command_ok_def)
  from dec_tree_map[OF this] show ?thesis
    by (cases c) (auto simp: tree_command_def dec_struct_fill command_member_def reading zero_command_def optional_def
        plain_command_def plain_map_def)
qed

lemma read_commands:
  assumes "list_all command_ok cs"
  shows "dec_array (dec_struct command_member) zero_command (TArr (map tree_command cs)) [] = Some (map plain_command cs)"
proof -
  have "map (\<lambda>t. dec_struct command_member t zero_command) (map tree_command cs) = map Some (map plain_command cs)"
    using assms by (auto simp: list_all_iff intro: read_command)
  then show ?thesis by (simp add: dec_array_def those_eq zip_replicate2 comp_def)
qed

definition plain_response :: "api_response \<Rightarrow> api_response" where
  "plain_response r = r\<lparr>Commands := map plain_command (Commands r)\<rparr>"

definition ota_ok :: "ota_info option \<Rightarrow> bool" where
  "ota_ok x \<longleftrightarrow> (case x of None \<Rightarrow> True
     | Some ota \<Rightarrow> valid_utf8 (TargetVersion ota) \<and> valid_utf8 (PackageURL ota) \<and> valid_utf8 (SHA256 ota))"

definition response_ok :: "api_response \<Rightarrow> bool" where
  "response_ok r \<longleftrightarrow> valid_utf8 (RespStatus r) \<and> valid_utf8 (RespMessage r) \<and> ota_ok (OTA r) \<and>
     list_all command_ok (Commands r)"

lemma fill_response:
  "RespMessage x = [] \<Longrightarrow> fill response_member (optional (s \<noteq> []) ''message'' (TStr s) @ kvs) x =
     fill response_member kvs (x\<lparr>RespMessage := s\<rparr>)"
  "SleepIntervalSec x = 0 \<Longrightarrow> fill response_member (optional (n \<noteq> 0) ''sleep_interval_sec'' (tree_u32 n) @ kvs) x =
     fill response_member kvs (x\<lparr>SleepIntervalSec := n\<rparr>)"
  "list_all command_ok cs \<Longrightarrow> Commands x = [] \<Longrightarrow>
     fill response_member (optional (cs \<noteq> []) ''commands'' (TArr (map tree_command cs))) x =
     Some (x\<lparr>Commands := map plain_command cs\<rparr>)"
  by (cases x; auto simp: optional_def response_member_def reading read_commands)+

lemma pointer_to_ota: "dec_pointer dec zero (tree_ota ota) None = map_option Some (dec (tree_ota ota) zero)"
  by (simp add: dec_pointer_def tree_ota_def)

lemma fill_offer:
  assumes "OTA x = None"
  shows "fill response_member ((case offer of None \<Rightarrow> [] | Some ota \<Rightarrow> [(''ota'', tree_ota ota)]) @ kvs) x =
    fill response_member kvs (x\<lparr>OTA := offer\<rparr>)"
  using assms by (cases x) (auto simp: response_member_def reading pointer_to_ota read_ota split: option.split)

lemma response_members:
  "response_member ''status'' t r = map_option (\<lambda>v. r\<lparr>RespStatus := v\<rparr>) (dec_string t (RespStatus r))"
  "response_member ''server_time'' t r = map_option (\<lambda>v. r\<lparr>ServerTime := v\<rparr>) (dec_i64 t (ServerTime r))"
  by (simp_all add: response_member_def reading)

lemma read_response:
  assumes "response_ok r"
  shows "dec_struct response_member (tree_response r) zero_response = Some (plain_response r)"
proof -
  have "list_all command_ok (Commands r)" using assms by (simp add: response_ok_def)
  then show ?thesis
    by (cases r) (simp add: tree_response_def dec_struct_fill response_members fill_response fill_offer zero_response_def
        plain_response_def)
qed

lemma tree_ota_ok: "n < max_nesting \<Longrightarrow> ota_ok (Some ota) \<Longrightarrow> tree_ok n (tree_ota ota)"
  by (auto simp: tree_ota_def ota_ok_def optional_def valid_ascii number_ok_int)

lemma tree_command_ok: "command_ok c \<Longrightarrow> tree_ok 2 (tree_command c)"
  using tree_map_ok[of 3 "Params c"]
  by (auto simp: tree_command_def command_ok_def optional_def valid_ascii max_nesting_def numeral_3_eq_3 numeral_2_eq_2)

lemma tree_response_ok:
  assumes "response_ok r"
  shows "tree_ok 0 (tree_response r)"
proof -
  have "tree_ok (Suc 0) (tree_ota ota)" if "OTA r = Some ota" for ota
    using assms that by (intro tree_ota_ok) (simp_all add: response_ok_def max_nesting_def)
  moreover have "tree_ok (Suc (Suc 0)) (tree_command c)" if "c \<in> set (Commands r)" for c
    using assms that tree_command_ok by (auto simp: response_ok_def list_all_iff simp flip: numeral_2_eq_2)
  ultimately show ?thesis
    using assms
    by (auto simp: tree_response_def response_ok_def optional_def valid_ascii number_ok_int max_nesting_def split: option.splits)
qed

lemma unmarshal_written_response:
  "response_ok r \<Longrightarrow> json_Unmarshal err response_member zero_response (json_Encode (tree_response r)) = Ok (plain_response r)"
  by (simp add: json_Unmarshal_def json_Encode_def json_parse_line tree_response_ok read_response)

end
