(* ===== verification/Device_Session.thy ===== *)
theory Device_Session
  imports Simulator_Json Server
begin

text \<open>
  The simulator and the server together: the simulator's HTTP client is connected to the edge
  listener on the in-memory repository, with the JSON of both sides. The main lemma says what a
  whole cycle does on both ends: report, update, commands and acknowledgements.
\<close>

section \<open>The network between a device and the server\<close>

text \<open>The body of a response as it goes over the wire.\<close>

definition body_bytes :: "http_body \<Rightarrow> u8 list" where
  "body_bytes b =
     (case b of
        NoBody \<Rightarrow> []
      | TextBody s \<Rightarrow> string_to_bytes s
      | ResponseBody r \<Rightarrow> json_Encode (tree_response r)
      | FieldsBody kvs \<Rightarrow> json_Encode (tree_fields kvs)
      | DevicesBody ds \<Rightarrow> json_Encode (tree_devices ds)
      | HistoryBody ps \<Rightarrow> json_Encode (tree_history ps))"

text \<open>What the client of a request sees: a handler that panics aborts the connection, and one that
  never returns runs into the timeout of the client.\<close>

definition reply :: "'s api_state handled \<Rightarrow> 's api_state \<Rightarrow> (go_error + http_reply) \<times> 's api_state" where
  "reply h st =
     (case h of
        None \<Rightarrow> (Inl (OtherError ''Client.Timeout exceeded''), st)
      | Some (Ok resp, st') \<Rightarrow>
          (Inr \<lparr>ReplyStatus = StatusCode resp, ReplyBody = body_bytes (RespBody resp), ReplyError = None\<rparr>, st')
      | Some (_, st') \<Rightarrow> (Inl EOF, st'))"

text \<open>The path and the parameters of a URL after its host. The URLs of the clients have no escapes.\<close>

definition url_path :: "gostring \<Rightarrow> gostring" where
  "url_path u = takeWhile (\<lambda>c. c \<noteq> CHR ''?'') u"

definition url_query :: "gostring \<Rightarrow> (gostring \<times> gostring) list" where
  "url_query u =
     (case dropWhile (\<lambda>c. c \<noteq> CHR ''?'') u of
        [] \<Rightarrow> []
      | _ # q \<Rightarrow> map (\<lambda>kv. (takeWhile (\<lambda>c. c \<noteq> CHR ''='') kv, drop 1 (dropWhile (\<lambda>c. c \<noteq> CHR ''='') kv)))
                   (strings_Split CHR ''&'' q))"

definition client_request ::
  "gostring \<Rightarrow> gostring \<Rightarrow> u8 list \<Rightarrow> certificate list option \<Rightarrow> gostring \<Rightarrow> http_request"
where
  "client_request method ctype body certs target = \<lparr>Method = method, Path = url_path target, Query = url_query target,
     ContentType = ctype, Body = Ok body, PeerCertificates = certs\<rparr>"

text \<open>A request to a listener. The world of a client is the server's state and the number of
  requests so far; \<open>handler n\<close> serves request \<open>n\<close>. Redirects are not followed: the program asks for
  clean paths only.\<close>

definition http_send ::
  "gostring \<Rightarrow> (nat \<Rightarrow> http_request \<Rightarrow> 's api_state \<Rightarrow> 's api_state handled) \<Rightarrow> certificate list option \<Rightarrow>
     gostring \<Rightarrow> gostring \<Rightarrow> u8 list \<Rightarrow> gostring \<Rightarrow> 's api_state \<times> nat \<Rightarrow> (go_error + http_reply) \<times> 's api_state \<times> nat"
where
  "http_send host handler certs method ctype body url = (\<lambda>(st, n).
     if \<not> prefix host url then (Inl (OtherError ''connection refused''), st, n)
     else let (r, st') = reply (handler n (client_request method ctype body certs (drop (length host) url)) st) st
          in (r, st', Suc n))"

definition edge_url :: gostring where
  "edge_url = ''https://127.0.0.1:8443''"

definition device_request :: "gostring \<Rightarrow> gostring \<Rightarrow> u8 list \<Rightarrow> certificate \<Rightarrow> gostring \<Rightarrow> http_request" where
  "device_request method ctype body cert url = client_request method ctype body (Some [cert]) (drop (length edge_url) url)"

definition edge_send ::
  "'s server \<Rightarrow> (nat \<Rightarrow> nat \<Rightarrow> time) \<Rightarrow> certificate \<Rightarrow> gostring \<Rightarrow> gostring \<Rightarrow> u8 list \<Rightarrow> gostring \<Rightarrow>
     's api_state \<times> nat \<Rightarrow> (go_error + http_reply) \<times> 's api_state \<times> nat"
where
  "edge_send srv clk cert = http_send edge_url (\<lambda>n. edge_serve srv (clk n)) (Some [cert])"

lemma edge_send_eq:
  "edge_send srv clk cert method ctype body url (st, n) =
     (if \<not> prefix edge_url url then (Inl (OtherError ''connection refused''), st, n)
      else let (r, st') = reply (edge_serve srv (clk n) (device_request method ctype body cert url) st) st
           in (r, st', Suc n))"
  by (simp add: edge_send_def http_send_def device_request_def)

lemma device_request_fields [simp]:
  "Method (device_request method ctype body cert url) = method"
  "ContentType (device_request method ctype body cert url) = ctype"
  "Body (device_request method ctype body cert url) = Ok body"
  "PeerCertificates (device_request method ctype body cert url) = Some [cert]"
  "Path (device_request method ctype body cert url) = url_path (drop (length edge_url) url)"
  by (simp_all add: device_request_def client_request_def)

text \<open>A simulated device that talks to the server. Marshalling a payload that is not finite gives no
  bytes, and the simulator ignores the error.\<close>

definition device_env ::
  "'s server \<Rightarrow> (nat \<Rightarrow> nat \<Rightarrow> time) \<Rightarrow> certificate \<Rightarrow> (gostring \<Rightarrow> bool) \<Rightarrow> (u8 list \<Rightarrow> go_error) \<Rightarrow>
     (nat \<Rightarrow> sim_draws) \<Rightarrow> (nat \<Rightarrow> bool) \<Rightarrow> ('s api_state \<times> nat) sim_env"
where
  "device_env srv clk cert url_ok err dr stop =
     \<lparr>client_get = edge_send srv clk cert ''GET'' [] [],
      client_post = (\<lambda>url ctype body. edge_send srv clk cert ''POST'' ctype body url),
      request_valid = url_ok,
      marshal_payload = (\<lambda>p. if payload_encodable (sim_telemetry p) then json_Marshal (tree_sim_payload p) else []),
      marshal_fields = (\<lambda>kvs. json_Marshal (tree_fields kvs)),
      unmarshal_response = json_Unmarshal err response_member zero_response,
      digest_hex = (\<lambda>bs. sha256_hex (machine srv) (bytes_to_string bs)),
      draws = dr, cancelled = stop\<rparr>"

section \<open>One request\<close>

abbreviation json_server ::
  "(gostring list \<Rightarrow> gostring list) \<Rightarrow> nat \<Rightarrow> (f64 \<Rightarrow> u32) \<Rightarrow> (gostring \<Rightarrow> gostring) \<Rightarrow> (u8 list \<Rightarrow> go_error) \<Rightarrow>
     gostring \<Rightarrow> bool \<Rightarrow> (endpoint \<Rightarrow> http_request \<Rightarrow> http_response) \<Rightarrow> mem_repo server"
where
  "json_server order alloc oor sha err url mtls fs \<equiv> mem_server order (json_env alloc oor sha err) url mtls fs"

lemma json_env_simps [simp]:
  "sha256_hex (json_env alloc oor sha err) = sha"
  "unmarshal_telemetry (json_env alloc oor sha err) = json_Unmarshal err payload_member empty_payload"
  "decode_ack_request (json_env alloc oor sha err) = json_Decode err ack_member \<lparr>AckDevice = [], AckID = [], AckResult = []\<rparr>"
  "decode_queue_request (json_env alloc oor sha err) =
     json_Decode err queue_member \<lparr>QueueDevice = [], QueueAction = [], QueueParams = None\<rparr>"
  by (simp_all add: json_env_def)

lemma mem_server_simps [simp]:
  "api (mem_server order env url mtls fs) = mem_api order env url" "machine (mem_server order env url mtls fs) = env"
  "requireMTLS (mem_server order env url mtls fs) = mtls"
  by (simp_all add: mem_server_def)

lemma edge_routes_of_device:
  "ServeMux edge_routes ''/api/v1/commands/ack'' = Dispatch CommandsAckEndpoint"
  "ServeMux edge_routes ''/api/v1/ota/download/1.1.0'' = Dispatch OtaDownloadEndpoint"
  "ServeMux edge_routes ''/api/v1/devices'' = Dispatch DevicesEndpoint"
  "ServeMux edge_routes ''/api/v1/telemetry/history'' = Dispatch HistoryEndpoint"
  by code_simp+

abbreviation cert_context :: "certificate \<Rightarrow> request_context" where
  "cert_context cert \<equiv> background_context\<lparr>DeviceIDKey := Some (CommonName cert), CertKey := Some cert\<rparr>"

lemma edge_serve_cert:
  assumes "ServeMux edge_routes (Path req) = Dispatch ep" "ep \<noteq> Health" "PeerCertificates req = Some [cert]"
  shows "edge_serve srv clk req st = serve_endpoint srv clk ep (cert_context cert) req st"
  using assms by (simp add: edge_serve_def MTLSAuthMiddleware_def)

lemma json_submits:
  assumes "sim_payload_ok p" and "DeviceID (SimHeader p) = CommonName cert"
  shows "submits (json_env alloc oor sha err) (cert_context cert)
    (device_request ''POST'' ''application/json'' (json_Marshal (tree_sim_payload p)) cert url) (sim_telemetry p)"
  using assms demo_not_binary
  by (simp add: submits_def url_path_def decode_telemetry_body_def unmarshal_sim_payload authenticated_id_def
      GetAuthenticatedDeviceID_def sim_telemetry_def)


lemma commands_encodable: "list_all command_ok cmds \<Longrightarrow> list_all (\<lambda>c. map_encodable (Params c)) cmds"
  by (auto simp: list_all_iff command_ok_def intro: map_ok_encodable)

lemma edge_path: "drop (length edge_url) (edge_url @ path) = path" "prefix edge_url (edge_url @ path)"
  by simp_all

lemma telemetry_response_ok:
  assumes "list_all command_ok cmds" and "valid_utf8 (sha256_hex env firmware_image)"
  shows "response_ok (telemetry_response (mem_api order env url) env now configs p cmds)"
  using assms
  by (simp add: response_ok_def telemetry_response_def ota_ok_def ota_offer_def NewApiHandler_def zero_ota_def valid_ascii)

lemma send_telemetry:
  fixes order alloc oor sha err url mtls fs cert st
  defines "srv \<equiv> json_server order alloc oor sha err url mtls fs"
    and "cmds \<equiv> pending_of st (CommonName cert)"
  assumes "sim_payload_ok rep" and "DeviceID (SimHeader rep) = CommonName cert"
    and "list_all command_ok cmds" and "valid_utf8 (sha firmware_image)"
  shows "\<exists>st' resp. edge_send srv clk cert ''POST'' ''application/json'' (json_Marshal (tree_sim_payload rep))
      (edge_url @ ''/api/v1/telemetry'') (st, n) =
        (Inr \<lparr>ReplyStatus = 200, ReplyBody = json_Encode (tree_response resp), ReplyError = None\<rparr>, st', Suc n) \<and>
    response_ok resp \<and> Commands resp = cmds \<and> OTA resp = ota_offer (api srv) (sim_telemetry rep) \<and>
    repo_state st' = fold mem_step
      (telemetry_ops (clk n 0) (sim_telemetry rep) (alerts_at (clk n 3) (sim_telemetry rep))) (repo_state st)"
proof -
  let ?env = "json_env alloc oor sha err" and ?p = "sim_telemetry rep"
  let ?req = "device_request ''POST'' ''application/json'' (json_Marshal (tree_sim_payload rep)) cert (edge_url @ ''/api/v1/telemetry'')"
  let ?resp = "telemetry_response (mem_api order ?env url) ?env (clk n 2) (deviceSleepConfigs st) ?p cmds"
  have dev: "DeviceID (Header ?p) = CommonName cert" using assms(4) by (simp add: sim_telemetry_def)
  have sub: "submits ?env (cert_context cert) ?req ?p" by (rule json_submits[OF assms(3,4)])
  from mem_telemetry[OF this, where order = order and url = url and clk = "clk n" and st = st]
  obtain st' where h: "HandleTelemetry (mem_api order ?env url) ?env (clk n) (cert_context cert) ?req st =
      Some (Ok (answer ?resp), st')"
    "repo_state st' = fold mem_step (telemetry_ops (clk n 0) ?p (alerts_at (clk n 3) ?p)) (repo_state st)"
    by (auto simp: dev cmds_def)
  have enc: "answer ?resp = json_response 200 (ResponseBody ?resp)"
    using commands_encodable[OF assms(5)] by (simp add: encoded_def response_encodable_def telemetry_response_def)
  have req: "Path ?req = ''/api/v1/telemetry''" "PeerCertificates ?req = Some [cert]" by (simp_all add: url_path_def)
  have "edge_serve srv (clk n) ?req st = Some (Ok (json_response 200 (ResponseBody ?resp)), st')"
    using edge_serve_cert[of ?req TelemetryEndpoint cert srv "clk n" st] h(1) req edge_telemetry_route
    by (simp add: serve_endpoint_def srv_def enc)
  then have "edge_send srv clk cert ''POST'' ''application/json'' (json_Marshal (tree_sim_payload rep))
      (edge_url @ ''/api/v1/telemetry'') (st, n) =
        (Inr \<lparr>ReplyStatus = 200, ReplyBody = json_Encode (tree_response ?resp), ReplyError = None\<rparr>, st', Suc n)"
    by (simp add: edge_send_eq reply_def json_response_def body_bytes_def)
  moreover have "response_ok ?resp" using assms(5,6) by (intro telemetry_response_ok) simp_all
  ultimately show ?thesis using h(2) by (intro exI[of _ st'] exI[of _ ?resp]) (simp add: telemetry_response_def srv_def)
qed

lemma send_ack:
  fixes order alloc oor sha err url mtls fs
  defines "srv \<equiv> json_server order alloc oor sha err url mtls fs"
  assumes "valid_utf8 cid" "valid_utf8 dev" "valid_utf8 res"
  shows "\<exists>r st'. edge_send srv clk cert ''POST'' ''application/json''
      (json_Marshal (tree_fields [(''command_id'', cid), (''device_id'', dev), (''result'', res)]))
      (edge_url @ ''/api/v1/commands/ack'') (st, n) = (r, st', Suc n) \<and>
    repo_state st' = mem_step (Acked dev cid) (repo_state st)"
proof -
  let ?env = "json_env alloc oor sha err"
  let ?body = "json_Marshal (tree_fields [(''command_id'', cid), (''device_id'', dev), (''result'', res)])"
  let ?req = "device_request ''POST'' ''application/json'' ?body cert (edge_url @ ''/api/v1/commands/ack'')"
  have "decode_ack_request ?env (Body ?req) = Ok \<lparr>AckDevice = dev, AckID = cid, AckResult = res\<rparr>"
    using read_ack_fields[OF assms(2-4), of err] by (simp add: url_path_def)
  from mem_ack[OF this, where order = order and url = url and clk = "clk n" and ctx = "cert_context cert" and st = st]
  obtain resp where "HandleAckCommand (mem_api order ?env url) ?env (clk n) (cert_context cert) ?req st =
      Some (Ok resp, st\<lparr>repo_state := mem_step (Acked dev cid) (repo_state st)\<rparr>)" by auto
  moreover have "Path ?req = ''/api/v1/commands/ack''" "PeerCertificates ?req = Some [cert]"
    by (simp_all add: url_path_def)
  ultimately have "edge_serve srv (clk n) ?req st = Some (Ok resp, st\<lparr>repo_state := mem_step (Acked dev cid) (repo_state st)\<rparr>)"
    using edge_serve_cert[of ?req CommandsAckEndpoint cert srv "clk n" st] edge_routes_of_device(1)
    by (simp add: serve_endpoint_def srv_def)
  then show ?thesis by (simp add: edge_send_eq reply_def)
qed

lemma send_download:
  fixes order alloc oor sha err url mtls fs
  defines "srv \<equiv> json_server order alloc oor sha err url mtls fs"
  shows "edge_send srv clk cert ''GET'' [] [] ''https://127.0.0.1:8443/api/v1/ota/download/1.1.0'' (st, n) =
    (Inr \<lparr>ReplyStatus = 200, ReplyBody = string_to_bytes firmware_image, ReplyError = None\<rparr>, st, Suc n)"
proof -
  let ?url = "''https://127.0.0.1:8443/api/v1/ota/download/1.1.0''"
  let ?req = "device_request ''GET'' [] [] cert ?url"
  have path: "Path ?req = ''/api/v1/ota/download/1.1.0''" "PeerCertificates ?req = Some [cert]" "Method ?req = ''GET''"
    by (simp_all add: url_path_def edge_url_def)
  have "prefix edge_url ?url" by (simp add: edge_url_def)
  then show ?thesis
    using edge_serve_cert[of ?req OtaDownloadEndpoint cert srv "clk n" st] path edge_routes_of_device(2)
    by (simp add: edge_send_eq reply_def serve_endpoint_def HandleOtaDownload_def body_bytes_def Let_def)
qed

section \<open>One cycle\<close>

definition after_offer :: "simulated_device \<Rightarrow> simulated_device" where
  "after_offer d = (if SimFirmware d = ''1.1.0'' then d
     else d\<lparr>SimFirmware := ''1.1.0'', SimBootCount := SimBootCount d + 1\<rparr>)"

definition after_commands :: "device_command list \<Rightarrow> simulated_device \<Rightarrow> simulated_device" where
  "after_commands cmds d =
     d\<lparr>SimBootCount := SimBootCount d + word_of_nat (length (filter (\<lambda>c. Action c = ''REBOOT'') cmds))\<rparr>"

text \<open>The operations of the repository that a cycle causes.\<close>

definition cycle_ops :: "time \<Rightarrow> time \<Rightarrow> telemetry_payload \<Rightarrow> device_command list \<Rightarrow> repo_op list" where
  "cycle_ops now alert_now p cmds =
     telemetry_ops now p (alerts_at alert_now p) @ map (\<lambda>c. Acked (DeviceID (Header p)) (CommandID c)) cmds"

lemma send_acks:
  fixes order alloc oor sha err url mtls fs cert clk url_ok dr stop
  defines "srv \<equiv> json_server order alloc oor sha err url mtls fs"
  defines "env \<equiv> device_env srv clk cert url_ok err dr stop"
  assumes "ServerURL d = edge_url" and "valid_utf8 (SimDeviceID d)" and "list_all command_ok cmds"
  shows "\<exists>st'. fold (ack_sent env d) cmds (st, n) = (st', n + length cmds) \<and>
    repo_state st' = fold mem_step (map (\<lambda>c. Acked (SimDeviceID d) (CommandID c)) cmds) (repo_state st)"
  using assms(5)
proof (induction cmds arbitrary: st n)
  case (Cons c cmds)
  let ?res = "if Action c \<in> {''CONFIG_UPDATE'', ''REBOOT'', ''SELF_TEST''} then ''SUCCESS'' else ''UNKNOWN_ACTION''"
  have "valid_utf8 ?res" by (simp add: valid_ascii)
  moreover have "valid_utf8 (CommandID c)" using Cons.prems by (simp add: command_ok_def)
  ultimately obtain r st1 where s: "edge_send srv clk cert ''POST'' ''application/json''
      (json_Marshal (tree_fields [(''command_id'', CommandID c), (''device_id'', SimDeviceID d), (''result'', ?res)]))
      (edge_url @ ''/api/v1/commands/ack'') (st, n) = (r, st1, Suc n)"
      "repo_state st1 = mem_step (Acked (SimDeviceID d) (CommandID c)) (repo_state st)"
    using send_ack[OF _ assms(4), of "CommandID c" ?res] unfolding srv_def by blast
  have "ack_sent env d c (st, n) = (st1, Suc n)"
    using s(1) by (simp add: ack_sent_def env_def device_env_def assms(3))
  with Cons.IH[of st1 "Suc n"] Cons.prems s(2) show ?case by simp
qed simp

lemma post_first: "client_post env url ct body w = (Inr resp, w') \<Longrightarrow>
    post_attempts (client_post env url ct body) n w = (Inr resp, w')"
  by (rule answered_at_once)

lemma device_cycle:
  fixes order alloc oor sha err url mtls fs cert clk url_ok dr stop r iv c d st
  defines "srv \<equiv> json_server order alloc oor sha err url mtls fs"
  defines "env \<equiv> device_env srv clk cert url_ok err dr stop"
  defines "rep \<equiv> fst (sim_report r iv c d)"
  defines "cmds \<equiv> pending_of st (SimDeviceID d)"
  assumes d: "ServerURL d = edge_url" "SimDeviceID d = CommonName cert" "valid_utf8 (SimDeviceID d)"
    and rep: "sim_payload_ok rep" and ok: "list_all command_ok cmds" "valid_utf8 (sha firmware_image)"
    and url: "url_ok (edge_url @ ''/api/v1/commands/ack'')"
  shows "\<exists>st' n'. sim_cycle env iv r c (d, (st, n)) =
      (Ok (), Suc c, after_commands cmds (after_offer (reported d)), (st', n')) \<and>
    repo_state st' = fold mem_step (cycle_ops (clk n 0) (clk n 3) (sim_telemetry rep) cmds) (repo_state st)"
proof -
  have head: "DeviceID (SimHeader rep) = SimDeviceID d" "FirmwareVersion (SimHeader rep) = SimFirmware d"
    by (simp_all add: rep_def sim_report_def Let_def)
  have same: "ServerURL (reported d) = edge_url" "SimDeviceID (reported d) = SimDeviceID d" "SimFirmware (reported d) = SimFirmware d"
    using d(1) by (simp_all add: reported_def)
  have rd: "sim_report r iv c d = (rep, reported d)"
    using sim_report_device[of r iv c d] by (cases "sim_report r iv c d") (simp add: rep_def)
  have cn: "DeviceID (SimHeader rep) = CommonName cert" using head(1) d(2) by simp
  obtain st1 resp where post: "edge_send srv clk cert ''POST'' ''application/json'' (json_Marshal (tree_sim_payload rep))
      (edge_url @ ''/api/v1/telemetry'') (st, n) =
        (Inr \<lparr>ReplyStatus = 200, ReplyBody = json_Encode (tree_response resp), ReplyError = None\<rparr>, st1, Suc n)"
    and resp: "response_ok resp" "Commands resp = cmds" "OTA resp = ota_offer (api srv) (sim_telemetry rep)"
    and st1: "repo_state st1 = fold mem_step
      (telemetry_ops (clk n 0) (sim_telemetry rep) (alerts_at (clk n 3) (sim_telemetry rep))) (repo_state st)"
    using send_telemetry[OF rep cn, of st] ok unfolding cmds_def d(2) srv_def by blast
  have enc: "payload_encodable (sim_telemetry rep)"
    using rep by (simp add: payload_encodable_def metrics_encodable_def sim_payload_ok_def sim_telemetry_def map_encodable_def)
  have react: "react env (json_Encode (tree_response resp)) (reported d, (st1, Suc n)) =
      execute_all env (map plain_command cmds) (after_offer (reported d), (st1, if SimFirmware d = ''1.1.0'' then Suc n else Suc (Suc n)))"
  proof -
    have r: "unmarshal_response env (json_Encode (tree_response resp)) = Ok (plain_response resp)"
      using unmarshal_written_response[OF resp(1)] by (simp add: env_def device_env_def)
    have fw: "FirmwareVersion (Header (sim_telemetry rep)) = SimFirmware d" by (simp add: sim_telemetry_def head)
    have ota: "snd (PerformOTA env \<lparr>Available = True, TargetVersion = ''1.1.0'',
        PackageURL = ''https://127.0.0.1:8443/api/v1/ota/download/1.1.0'', SHA256 = sha firmware_image,
        SizeBytes = sz, Mandatory = False\<rparr> (reported d, (st1, Suc n))) =
      (reported d\<lparr>SimFirmware := ''1.1.0'', SimBootCount := SimBootCount (reported d) + 1\<rparr>, (st1, Suc (Suc n)))" for sz
      using send_download[of order alloc oor sha err url mtls fs clk cert st1 "Suc n"]
      by (simp add: PerformOTA_def env_def device_env_def srv_def Let_def)
    show ?thesis
      unfolding react_def r using resp(2,3) ota same(3)
      by (simp add: plain_response_def ota_offer_def srv_def NewApiHandler_def fw after_offer_def zero_ota_def Let_def)
  qed
  let ?d2 = "after_offer (reported d)" and ?n2 = "if SimFirmware d = ''1.1.0'' then Suc n else Suc (Suc n)"
  have d2: "ServerURL ?d2 = edge_url" "SimDeviceID ?d2 = SimDeviceID d"
    using same by (simp_all add: after_offer_def)
  have plain: "list_all command_ok (map plain_command cmds)"
    using ok(1) by (auto simp: list_all_iff command_ok_def plain_command_def plain_map_def map_ok_def)
  obtain st2 where acks: "fold (ack_sent env ?d2) (map plain_command cmds) (st1, ?n2) = (st2, ?n2 + length (map plain_command cmds))"
    "repo_state st2 = fold mem_step (map (\<lambda>c. Acked (SimDeviceID ?d2) (CommandID c)) (map plain_command cmds)) (repo_state st1)"
    using send_acks[of ?d2 "map plain_command cmds" order alloc oor sha err url mtls fs clk cert url_ok dr stop st1 ?n2]
      d2 d(3) plain unfolding env_def srv_def by auto
  have "request_valid env (ServerURL ?d2 @ ''/api/v1/commands/ack'')" using url d2 by (simp add: env_def device_env_def)
  from execute_all_acks[OF this, of "map plain_command cmds" "(st1, ?n2)"] acks(1)
  have ex: "execute_all env (map plain_command cmds) (?d2, (st1, ?n2)) =
      (Ok (), after_commands cmds ?d2, (st2, ?n2 + length cmds))"
    by (simp add: after_commands_def filter_map comp_def plain_command_def)
  have cp: "client_post env (edge_url @ ''/api/v1/telemetry'') ''application/json'' (marshal_payload env rep) (st, n) =
      (Inr \<lparr>ReplyStatus = 200, ReplyBody = json_Encode (tree_response resp), ReplyError = None\<rparr>, st1, Suc n)"
    using post enc by (simp add: env_def device_env_def)
  have "sim_cycle env iv r c (d, (st, n)) = (Ok (), Suc c, after_commands cmds ?d2, (st2, ?n2 + length cmds))"
    unfolding sim_cycle_def using post_first[OF cp] rd react ex same(1) by (simp add: Let_def)
  moreover have "repo_state st2 = fold mem_step (cycle_ops (clk n 0) (clk n 3) (sim_telemetry rep) cmds) (repo_state st)"
    using acks(2) st1 d2(2) by (simp add: cycle_ops_def sim_telemetry_def head comp_def plain_command_def)
  ultimately show ?thesis by blast
qed

end
