(* ===== verification/Device_Runs.thy ===== *)
theory Device_Runs
  imports Device_Session
begin

text \<open>
  Runs of a simulated device against the server, as the operations that they cause on the
  repository: what a device reports, what it executes and acknowledges, and that the other
  devices are left alone.
\<close>

section \<open>Cycles as operations of the repository\<close>

lemma saves_alerts: "saves dev (map (\<lambda>a. Recorded (f a)) xs) = []"
  by (induction xs) simp_all

lemma saves_acks: "saves dev (map (\<lambda>c. Acked d (f c)) xs) = []"
  by (induction xs) simp_all

lemma saves_cycle:
  "saves dev (tr @ cycle_ops now anow p cmds) =
     saves dev tr @ (if payload_id p = dev then [(now, p)] else [])"
  by (simp add: saves_append cycle_ops_def telemetry_ops_def saves_alerts saves_acks)

lemma outstanding_records: "outstanding dev (tr @ map (\<lambda>a. Recorded (f a)) xs) = outstanding dev tr"
proof (induction xs rule: rev_induct)
  case (snoc x xs)
  then show ?case using outstanding_snoc(2)[of dev "tr @ map (\<lambda>a. Recorded (f a)) xs" "f x"] by simp
qed simp

lemma outstanding_acks:
  "outstanding dev (tr @ map (\<lambda>c. Acked d (CommandID c)) cs) =
     (if d = dev then filter (\<lambda>c. CommandID c \<notin> CommandID ` set cs) (outstanding dev tr) else outstanding dev tr)"
proof (induction cs rule: rev_induct)
  case (snoc c cs)
  then show ?case
    using outstanding_snoc(4)[of dev "tr @ map (\<lambda>c. Acked d (CommandID c)) cs" d "CommandID c"]
    by (auto intro: filter_cong)
qed simp

lemma outstanding_cycle:
  assumes "d = DeviceID (Header p)"
  shows "outstanding d (tr @ cycle_ops now anow p (outstanding d tr)) = []"
    and "dev \<noteq> d \<Longrightarrow> outstanding dev (tr @ cycle_ops now anow p cmds) = outstanding dev tr"
proof -
  have saved: "outstanding dev (tr @ telemetry_ops now p al) = outstanding dev tr" for dev al
    using outstanding_records[of dev "tr @ [Saved now p]" "alert_record (Header p)" al] outstanding_snoc(1)[of dev tr now p]
    by (simp add: telemetry_ops_def)
  show "outstanding d (tr @ cycle_ops now anow p (outstanding d tr)) = []"
    using outstanding_acks[of d "tr @ telemetry_ops now p (alerts_at anow p)" d "outstanding d tr"] saved assms
    by (simp add: cycle_ops_def)
  show "dev \<noteq> d \<Longrightarrow> outstanding dev (tr @ cycle_ops now anow p cmds) = outstanding dev tr"
    using outstanding_acks[of dev "tr @ telemetry_ops now p (alerts_at anow p)" d cmds] saved assms
    by (simp add: cycle_ops_def)
qed

section \<open>Runs\<close>

text \<open>What \<open>k\<close> cycles of a device add to the operations: \<open>k\<close> reports of that device, stored at times
  of the server's clock, and nothing of any other.\<close>

definition added :: "(nat \<Rightarrow> nat \<Rightarrow> time) \<Rightarrow> gostring \<Rightarrow> nat \<Rightarrow> repo_op list \<Rightarrow> repo_op list \<Rightarrow> bool" where
  "added clk dev k tr tr' \<longleftrightarrow>
     (\<exists>new. saves dev tr' = saves dev tr @ new \<and> length new = k \<and>
        (\<forall>(now, p) \<in> set new. (\<exists>j. now = clk j 0) \<and> (\<exists>rep. sim_payload_ok rep \<and> p = sim_telemetry rep)))"

definition untouched :: "gostring set \<Rightarrow> repo_op list \<Rightarrow> repo_op list \<Rightarrow> bool" where
  "untouched devs tr tr' \<longleftrightarrow>
     (\<forall>other. other \<notin> devs \<longrightarrow> saves other tr' = saves other tr \<and> outstanding other tr' = outstanding other tr)"

definition served :: "(nat \<Rightarrow> nat \<Rightarrow> time) \<Rightarrow> gostring \<Rightarrow> nat \<Rightarrow> repo_op list \<Rightarrow> repo_op list \<Rightarrow> bool" where
  "served clk dev k tr tr' \<longleftrightarrow> added clk dev k tr tr' \<and> untouched {dev} tr tr'"

lemma added_trans: "added clk dev j tr1 tr2 \<Longrightarrow> added clk dev k tr2 tr3 \<Longrightarrow> added clk dev (j + k) tr1 tr3"
  by (fastforce simp: added_def)

lemma served_trans: "served clk dev j tr1 tr2 \<Longrightarrow> served clk dev k tr2 tr3 \<Longrightarrow> served clk dev (j + k) tr1 tr3"
  using added_trans by (fastforce simp: served_def untouched_def)

text \<open>A device that is set up to talk to the server.\<close>

definition ready :: "certificate \<Rightarrow> simulated_device \<Rightarrow> bool" where
  "ready cert d \<longleftrightarrow> ServerURL d = edge_url \<and> SimDeviceID d = CommonName cert \<and> valid_utf8 (CommonName cert) \<and>
     valid_utf8 (SimFirmware d) \<and> device_ok d"

lemma ready_report:
  assumes "ready cert d" and "draws_ok r"
  shows "sim_payload_ok (fst (sim_report r iv c d))"
proof -
  have d: "device_ok d" "valid_utf8 (SimDeviceID d)" "valid_utf8 (SimFirmware d)" using assms(1) by (simp_all add: ready_def)
  show ?thesis
    using report_within[OF d(1) assms(2), of iv c] report_voltage[OF d(1), of r iv c] d(2,3)
    by (simp add: sim_payload_ok_def header_ok_def f64_within_def sim_report_def Let_def valid_ascii)
qed

lemma ready_after:
  assumes "ready cert d"
  shows "ready cert (after_commands cmds (after_offer (reported d)))"
proof -
  have b: "3299 \<le> BatteryMv d" "BatteryMv d \<le> 4100" using assms by (simp_all add: ready_def device_ok_def)
  from drained_bounds[OF b] b(2) have "3299 \<le> drained (BatteryMv d) \<and> drained (BatteryMv d) \<le> 4100" by auto
  with assms show ?thesis
    by (simp add: ready_def device_ok_def after_commands_def after_offer_def reported_def valid_ascii)
qed

definition reboots :: "device_command list \<Rightarrow> u32" where
  "reboots cmds = word_of_nat (length (filter (\<lambda>c. Action c = ''REBOOT'') cmds))"

definition last_firmware :: "gostring \<Rightarrow> repo_op list \<Rightarrow> gostring" where
  "last_firmware dev tr = FirmwareVersion (Header (snd (last (saves dev tr))))"

text \<open>What the update and the commands do to the counter of boots.\<close>

definition boots :: "simulated_device \<Rightarrow> device_command list \<Rightarrow> u32" where
  "boots d cmds = SimBootCount d + (if SimFirmware d = ''1.1.0'' then 0 else 1) + reboots cmds"

lemma cycle_trace:
  fixes order alloc oor sha err url mtls fs cert clk url_ok dr stop r iv c d st tr
  defines "srv \<equiv> json_server order alloc oor sha err url mtls fs"
  defines "env \<equiv> device_env srv clk cert url_ok err dr stop"
  defines "dev \<equiv> CommonName cert"
  assumes "ready cert d" and "draws_ok r" and tr: "repo_state st = mem_run tr"
    and "list_all command_ok (outstanding dev tr)" and "valid_utf8 (sha firmware_image)"
    and "url_ok (edge_url @ ''/api/v1/commands/ack'')"
  shows "\<exists>d' st' n' tr'. sim_cycle env iv r c (d, (st, n)) = (Ok (), Suc c, d', (st', n')) \<and>
    repo_state st' = mem_run tr' \<and> served clk dev 1 tr tr' \<and> outstanding dev tr' = [] \<and> ready cert d' \<and>
    SimFirmware d' = ''1.1.0'' \<and> NextSeqNo d' = NextSeqNo d + 1 \<and> last_firmware dev tr' = SimFirmware d \<and>
    SimBootCount d' = boots d (outstanding dev tr)"
proof -
  let ?rep = "fst (sim_report r iv c d)" and ?cmds = "outstanding dev tr"
  have d: "ServerURL d = edge_url" "SimDeviceID d = CommonName cert" "valid_utf8 (SimDeviceID d)"
    using assms(4) by (simp_all add: ready_def)
  have rep: "sim_payload_ok ?rep" by (rule ready_report[OF assms(4,5)])
  obtain st' n' where cyc: "sim_cycle env iv r c (d, (st, n)) =
      (Ok (), Suc c, after_commands ?cmds (after_offer (reported d)), (st', n'))"
    "repo_state st' = fold mem_step (cycle_ops (clk n 0) (clk n 3) (sim_telemetry ?rep) ?cmds) (mem_run tr)"
    using device_cycle[OF d rep, of st sha url_ok order alloc oor err url mtls fs clk dr stop n]
      assms(7-9) unfolding env_def srv_def tr run_commands d(2) dev_def by blast
  let ?tr = "tr @ cycle_ops (clk n 0) (clk n 3) (sim_telemetry ?rep) ?cmds"
  have id: "DeviceID (Header (sim_telemetry ?rep)) = dev" "FirmwareVersion (Header (sim_telemetry ?rep)) = SimFirmware d"
    using d(2) by (simp_all add: sim_telemetry_def sim_report_def Let_def dev_def)
  have sv: "served clk dev 1 tr ?tr"
    unfolding served_def added_def untouched_def saves_cycle using rep id outstanding_cycle(2)[of dev] by auto
  have out: "outstanding dev ?tr = []" by (rule outstanding_cycle(1)) (simp add: id)
  have fw: "last_firmware dev ?tr = SimFirmware d" by (simp add: last_firmware_def saves_cycle id)
  have after: "SimFirmware (after_commands ?cmds (after_offer (reported d))) = ''1.1.0''"
    "NextSeqNo (after_commands ?cmds (after_offer (reported d))) = NextSeqNo d + 1"
    "SimBootCount (after_commands ?cmds (after_offer (reported d))) = boots d ?cmds"
    by (simp_all add: after_commands_def after_offer_def reported_def boots_def reboots_def)
  have "repo_state st' = mem_run ?tr" by (simp add: cyc(2) mem_run_def)
  with cyc(1) sv out fw after ready_after[OF assms(4)] show ?thesis by blast
qed

lemma run_trace:
  fixes order alloc oor sha err url mtls fs cert clk url_ok dr stop iv
  defines "srv \<equiv> json_server order alloc oor sha err url mtls fs"
  defines "env \<equiv> device_env srv clk cert url_ok err dr stop"
  defines "dev \<equiv> CommonName cert"
  assumes "valid_utf8 (sha firmware_image)" and "url_ok (edge_url @ ''/api/v1/commands/ack'')"
    and "\<forall>i. \<not> stop i" and "\<forall>i. draws_ok (dr i)"
    and "ready cert d" and "repo_state st = mem_run tr" and "list_all command_ok (outstanding dev tr)" and "c < m"
  shows "\<exists>d' st' n' tr'. sim_loop env iv (int m) i c (d, (st, n)) = Some (Ok (), m, d', (st', n')) \<and>
    repo_state st' = mem_run tr' \<and> served clk dev (m - c) tr tr' \<and> outstanding dev tr' = [] \<and> ready cert d' \<and>
    SimFirmware d' = ''1.1.0'' \<and> NextSeqNo d' = NextSeqNo d + word_of_nat (m - c) \<and>
    last_firmware dev tr' = (if m = Suc c then SimFirmware d else ''1.1.0'') \<and>
    SimBootCount d' = boots d (outstanding dev tr)"
  using assms(8-11)
proof (induction "m - c" arbitrary: i c d st n tr)
  case 0
  then show ?case by simp
next
  case (Suc k)
  have run: "\<not> cancelled env j" "draws env j = dr j" for j using assms(6) by (simp_all add: env_def device_env_def)
  obtain d1 st1 n1 tr1 where cyc: "sim_cycle env iv (dr i) c (d, (st, n)) = (Ok (), Suc c, d1, (st1, n1))"
    and t1: "repo_state st1 = mem_run tr1" "served clk dev 1 tr tr1" "outstanding dev tr1 = []" "ready cert d1"
    "SimFirmware d1 = ''1.1.0''" "NextSeqNo d1 = NextSeqNo d + 1" "last_firmware dev tr1 = SimFirmware d"
    "SimBootCount d1 = boots d (outstanding dev tr)"
    using cycle_trace[where cert = cert and d = d and r = "dr i" and st = st and tr = tr and sha = sha and url_ok = url_ok
        and order = order and alloc = alloc and oor = oor and err = err and url = url and mtls = mtls and fs = fs
        and clk = clk and dr = dr and stop = stop and iv = iv and c = c and n = n, folded dev_def srv_def,
        folded env_def, OF Suc.prems(1) _ Suc.prems(2,3) assms(4,5)] assms(7)
    by blast
  show ?case
  proof (cases "Suc c = m")
    case True
    have "sim_loop env iv (int m) i c (d, (st, n)) = Some (Ok (), m, d1, (st1, n1))"
      using cyc True run by (subst sim_loop.simps) simp
    moreover have "m - c = 1" using True by simp
    ultimately show ?thesis using t1 True by (intro exI[of _ d1] exI[of _ st1] exI[of _ n1] exI[of _ tr1]) simp
  next
    case False
    then have less: "Suc c < m" "k = m - Suc c" using Suc by simp_all
    have o1: "list_all command_ok (outstanding dev tr1)" by (simp add: t1(3))
    from Suc.hyps(1)[OF less(2) t1(4,1) o1 less(1), of "i + 1" n1]
    obtain d2 st2 n2 tr2 where t2: "sim_loop env iv (int m) (i + 1) (Suc c) (d1, (st1, n1)) = Some (Ok (), m, d2, (st2, n2))"
      "repo_state st2 = mem_run tr2" "served clk dev (m - Suc c) tr1 tr2" "outstanding dev tr2 = []" "ready cert d2"
      "SimFirmware d2 = ''1.1.0''" "NextSeqNo d2 = NextSeqNo d1 + word_of_nat (m - Suc c)"
      "last_firmware dev tr2 = ''1.1.0''" "SimBootCount d2 = boots d1 []"
      using t1(3,5) by auto
    have "sim_loop env iv (int m) i c (d, (st, n)) = Some (Ok (), m, d2, (st2, n2))"
      using cyc False t2(1) less(1) run by (subst sim_loop.simps) simp
    moreover have n: "m - c = Suc (m - Suc c)" using less by simp
    moreover have "served clk dev (m - c) tr tr2" using served_trans[OF t1(2) t2(3)] n by simp
    moreover have "SimBootCount d2 = boots d (outstanding dev tr)" using t2(9) t1(5,8) by (simp add: boots_def reboots_def)
    ultimately show ?thesis
      using t1 t2 False by (intro exI[of _ d2] exI[of _ st2] exI[of _ n2] exI[of _ tr2]) (simp add: add.assoc)
  qed
qed

section \<open>Properties\<close>

text \<open>
  C1: The update over the air, end to end. A simulated device that is connected to the edge
  listener with its own certificate, whatever the server has handled before, completes its run of
  \<open>m\<close> cycles and is then on firmware 1.1.0: it installed the update once, and not at all when it
  was up to date. It executed every command that was pending for it, restarted once for each
  REBOOT, and nothing is pending for it any more. Exactly its \<open>m\<close> reports were added to its
  history, and the histories and commands of all other devices are as they were.
\<close>

theorem device_run_updates:
  fixes order alloc oor sha err url mtls fs cert clk url_ok dr stop iv
  defines "env \<equiv> device_env (json_server order alloc oor sha err url mtls fs) clk cert url_ok err dr stop"
  defines "dev \<equiv> CommonName cert"
  assumes "valid_utf8 (sha firmware_image)" and "url_ok (edge_url @ ''/api/v1/commands/ack'')"
    and "\<forall>i. \<not> stop i" and "\<forall>i. draws_ok (dr i)" and "ready cert d"
    and "repo_state st = mem_run tr" and "list_all command_ok (pending_of st dev)" and "0 < m"
  shows "\<exists>d' st' n' new. sim_Run env iv (int m) d (st, n) = Some (Ok (), m, d', (st', n')) \<and>
    SimFirmware d' = ''1.1.0'' \<and> SimBootCount d' = boots d (pending_of st dev) \<and> pending_of st' dev = [] \<and>
    slice_of (telemetries (repo_state st')) dev = slice_of (telemetries (repo_state st)) dev @ new \<and> length new = m \<and>
    (\<forall>other. other \<noteq> dev \<longrightarrow> pending_of st' other = pending_of st other \<and>
       slice_of (telemetries (repo_state st')) other = slice_of (telemetries (repo_state st)) other)"
proof -
  have cmds: "pending_of st dev = outstanding dev tr" by (simp add: assms(8) run_commands)
  obtain d' st' n' tr' where r: "sim_loop env iv (int m) 0 0 (d, (st, n)) = Some (Ok (), m, d', (st', n'))"
    "repo_state st' = mem_run tr'" "served clk dev m tr tr'" "outstanding dev tr' = []"
    "SimFirmware d' = ''1.1.0''" "SimBootCount d' = boots d (outstanding dev tr)"
    using run_trace[where cert = cert and d = d and st = st and tr = tr and sha = sha and url_ok = url_ok
        and order = order and alloc = alloc and oor = oor and err = err and url = url and mtls = mtls and fs = fs
        and clk = clk and dr = dr and stop = stop and iv = iv and c = 0 and m = m and n = n and i = 0,
        folded dev_def env_def, OF assms(3-8)] assms(9,10) cmds
    by auto
  from r(3) obtain new where "saves dev tr' = saves dev tr @ new" "length new = m"
    "\<And>other. other \<noteq> dev \<Longrightarrow> saves other tr' = saves other tr \<and> outstanding other tr' = outstanding other tr"
    by (auto simp: served_def added_def untouched_def)
  with r cmds show ?thesis
    by (intro exI[of _ d'] exI[of _ st'] exI[of _ n'] exI[of _ "map snd new"])
       (simp add: sim_Run_def assms(8) run_telemetries run_commands)
qed

definition demo_cert :: certificate where
  "demo_cert = \<lparr>CommonName = ''DEV-ESP32-001'', IssuerName = ''CA'', DNSNames = []\<rparr>"

definition demo_esp32 :: simulated_device where
  "demo_esp32 = (case NewSimulatedDevice (Ok ()) (Ok ()) 0 0 0 ''DEV-ESP32-001'' ''crt'' ''key'' edge_url of Ok d \<Rightarrow> d)"

lemma demo_ready: "ready demo_cert demo_esp32" "SimFirmware demo_esp32 = ''1.0.0''" "SimBootCount demo_esp32 = 1"
proof -
  have n: "NewSimulatedDevice (Ok ()) (Ok ()) 0 0 0 ''DEV-ESP32-001'' ''crt'' ''key'' edge_url = Ok demo_esp32"
    by (simp add: demo_esp32_def NewSimulatedDevice_def)
  note new_device[OF n demo_draws_ok(1) demo_draws_ok(1)]
  then show "ready demo_cert demo_esp32" "SimFirmware demo_esp32 = ''1.0.0''"
    by (simp_all add: ready_def demo_cert_def valid_ascii)
  show "SimBootCount demo_esp32 = 1" by (simp add: demo_esp32_def NewSimulatedDevice_def)
qed

theorem device_run_updates_witness:
  "\<exists>d' st' n' new. sim_Run (device_env (json_server rev 1024 (\<lambda>_. 0) id (\<lambda>_. EOF) [] True
        (\<lambda>_ _. http_Error 404 ''404 page not found'')) (\<lambda>n k. int n) demo_cert (\<lambda>_. True) (\<lambda>_. EOF) (\<lambda>_. demo_draws) (\<lambda>_. False))
      1 (int 3) demo_esp32
      (initial_state (mem_run [Queued ''DEV-ESP32-001'' \<lparr>CommandID = ''cmd-1'', Action = ''REBOOT'', Params = None\<rparr>]), 0) =
      Some (Ok (), 3, d', (st', n')) \<and>
    SimFirmware d' = ''1.1.0'' \<and> SimBootCount d' = 3 \<and> pending_of st' ''DEV-ESP32-001'' = [] \<and>
    slice_of (telemetries (repo_state st')) ''DEV-ESP32-001'' = new \<and> length new = 3"
proof -
  let ?cmd = "\<lparr>CommandID = ''cmd-1'', Action = ''REBOOT'', Params = None\<rparr>"
  let ?st = "initial_state (mem_run [Queued ''DEV-ESP32-001'' ?cmd])"
  have sha: "valid_utf8 (id firmware_image)" by (simp add: firmware_image_def valid_ascii)
  have draws: "\<forall>i. draws_ok demo_draws" using demo_draws_ok(2) by (simp add: demo_sim_env_def)
  have pend: "pending_of ?st ''DEV-ESP32-001'' = [?cmd]" by (simp add: initial_state_def run_commands)
  have ok: "list_all command_ok (pending_of ?st (CommonName demo_cert))"
    by (simp add: demo_cert_def pend command_ok_def map_ok_def valid_ascii)
  have hist: "slice_of (telemetries (repo_state ?st)) ''DEV-ESP32-001'' = []"
    by (simp add: initial_state_def run_telemetries)
  have tr: "repo_state ?st = mem_run [Queued ''DEV-ESP32-001'' ?cmd]" by (simp add: initial_state_def)
  have three: "0 < (3 :: nat)" "\<forall>i :: nat. \<not> False" by simp_all
  have b: "boots demo_esp32 [?cmd] = 3" by (simp add: boots_def demo_ready reboots_def)
  have cn: "CommonName demo_cert = ''DEV-ESP32-001''" by (simp add: demo_cert_def)
  from device_run_updates[where url_ok = "\<lambda>_. True" and stop = "\<lambda>_. False" and m = 3 and n = 0 and iv = 1 and
      sha = id and dr = "\<lambda>_. demo_draws" and cert = demo_cert and d = demo_esp32 and st = ?st and
      tr = "[Queued ''DEV-ESP32-001'' ?cmd]" and
      order = rev and alloc = 1024 and oor = "\<lambda>_. 0" and err = "\<lambda>_. EOF" and url = "[]" and mtls = True and
      fs = "\<lambda>_ _. http_Error 404 ''404 page not found''" and clk = "\<lambda>n k. int n", OF sha TrueI three(2) draws demo_ready(1) tr ok three(1)]
  show ?thesis unfolding cn pend hist b by auto
qed

end
