(* ===== verification/Json_Server.thy ===== *)
theory Json_Server
  imports Device_Runs
begin

text \<open>
  The server on JSON bodies: a report of the simulator is stored as it was sent, everything that
  JSON bodies can store is well-formed, and the history is read back from the answer.
\<close>

section \<open>A report of the simulator\<close>

lemma report_stored:
  assumes "sim_payload_ok rep" and "DeviceID (SimHeader rep) = CommonName cert"
  shows "\<exists>resp st'. edge_serve (mem_server order (json_env alloc oor sha err) url mtls fs) clk
      (device_request ''POST'' ''application/json'' (json_Marshal (tree_sim_payload rep)) cert
        (edge_url @ ''/api/v1/telemetry'')) st = Some (Ok resp, st') \<and>
    StatusCode resp = 200 \<and>
    slice_of (telemetries (repo_state st')) (CommonName cert) =
      slice_of (telemetries (repo_state st)) (CommonName cert) @ [sim_telemetry rep]"
proof -
  let ?env = "json_env alloc oor sha err"
  let ?req = "device_request ''POST'' ''application/json'' (json_Marshal (tree_sim_payload rep)) cert (edge_url @ ''/api/v1/telemetry'')"
  have dev: "DeviceID (Header (sim_telemetry rep)) = CommonName cert" using assms(2) by (simp add: sim_telemetry_def)
  from mem_telemetry[OF json_submits[OF assms], where order = order and url = url and clk = clk and st = st]
  obtain resp s' st' where h: "HandleTelemetry (mem_api order ?env url) ?env clk (cert_context cert) ?req st =
      Some (Ok (answer resp), st')" "repo_state st' = s'"
    "s' = (snd (mem_SaveTelemetry (clk 0) (sim_telemetry rep) (repo_state st)))\<lparr>events := events s'\<rparr>" by fastforce
  have "slice_of (telemetries s') (CommonName cert) =
      slice_of (telemetries (repo_state st)) (CommonName cert) @ [sim_telemetry rep]"
    by (subst h(3)) (simp add: save_tables dev)
  moreover have "edge_serve (mem_server order ?env url mtls fs) clk ?req st = Some (Ok (answer resp), st')"
    using edge_serve_cert[of ?req TelemetryEndpoint cert "mem_server order ?env url mtls fs" clk st] h(1) edge_telemetry_route
    by (simp add: serve_endpoint_def url_path_def)
  ultimately show ?thesis using h(2) by (simp add: json_response_def)
qed

section \<open>A report for the witnesses\<close>

definition demo_report :: sim_payload where
  "demo_report = fst (sim_report demo_draws 1 0 demo_esp32)"

definition demo_json_server :: "mem_repo server" where
  "demo_json_server = mem_server rev (json_env 1024 (\<lambda>_. 0) id (\<lambda>_. EOF)) [] True (\<lambda>_ _. http_Error 404 ''404 page not found'')"

definition demo_report_request :: http_request where
  "demo_report_request = device_request ''POST'' ''application/json'' (json_Marshal (tree_sim_payload demo_report)) demo_cert
     (edge_url @ ''/api/v1/telemetry'')"

lemma demo_report_ok: "sim_payload_ok demo_report" "DeviceID (SimHeader demo_report) = CommonName demo_cert"
proof -
  have "draws_ok demo_draws" using demo_draws_ok(2) by (simp add: demo_sim_env_def)
  with ready_report[OF demo_ready(1)] show "sim_payload_ok demo_report" by (simp add: demo_report_def)
  show "DeviceID (SimHeader demo_report) = CommonName demo_cert"
    using demo_ready(1) by (simp add: ready_def demo_report_def sim_report_def Let_def)
qed

section \<open>What a run on JSON bodies stores\<close>

definition json_request :: "http_request \<Rightarrow> bool" where
  "json_request req \<longleftrightarrow> \<not> strings_Contains (ContentType req) ''protobuf'' \<and> \<not> strings_Contains (ContentType req) ''octet-stream''"

lemma carries_json:
  assumes "carries (json_env alloc oor sha err) req p" and "json_request req"
  shows "payload_ok 2 p"
proof -
  obtain body where b: "decode_telemetry_body (json_env alloc oor sha err) req body = Some (Decoded p)"
    using assms(1) by (auto simp: carries_def)
  then have "json_Unmarshal err payload_member empty_payload body = Ok p"
    using assms(2)
    by (cases "json_Unmarshal err payload_member empty_payload body") (simp_all add: decode_telemetry_body_def json_request_def)
  then show ?thesis by (rule unmarshal_payload_ok)
qed

lemma payload_ok_encodable: "payload_ok n p \<Longrightarrow> metrics_encodable (Metrics p)"
  by (auto simp: payload_ok_def metrics_ok_def metrics_encodable_def intro: map_ok_encodable)

text \<open>
  C8: What JSON bodies can put into the server. In any run in which no request has a protobuf
  content type, every stored payload consists of well-formed UTF-8 strings, finite numbers and
  maps sorted by key that nest within the parser's limit, and the metrics of every device entry can
  be encoded.
\<close>

theorem json_run_typed:
  assumes "server_run (mem_server order (json_env alloc oor sha err) url mtls fs) (initial_state NewInMemoryRepository) reqs st"
    and "\<forall>(l, req) \<in> set reqs. json_request req"
  shows "list_all (payload_ok 2) (slice_of (telemetries (repo_state st)) dev) \<and>
    (case read_device dev (repo_state st) of Ok d \<Rightarrow> metrics_encodable (LastMetrics d) | _ \<Rightarrow> True)"
proof -
  obtain tr where tr: "repo_state st = mem_run tr" "backed mtls (json_env alloc oor sha err) reqs tr"
    using run_ops[OF assms(1)] by blast
  have ok: "payload_ok 2 p" if "(now, p) \<in> set (saves dev tr)" for now p
  proof -
    have "Saved now p \<in> set tr" using saved_in_trace[OF that] by blast
    with tr(2) obtain l req where "(l, req) \<in> set reqs" "carries (json_env alloc oor sha err) req p"
      by (fastforce simp: backed_def)
    with assms(2) carries_json show ?thesis by fastforce
  qed
  have hist: "list_all (payload_ok 2) (slice_of (telemetries (repo_state st)) dev)"
    using ok by (auto simp: tr(1) run_telemetries list_all_iff)
  have entry: "metrics_encodable (LastMetrics d)" if "read_device dev (repo_state st) = Ok d" for d
  proof -
    have ne: "saves dev tr \<noteq> []" using that by (auto simp: tr(1) run_device spec_device_def)
    obtain now p where np: "last (saves dev tr) = (now, p)" by (cases "last (saves dev tr)")
    then have "LastMetrics d = Metrics p" using that ne by (auto simp: tr(1) run_device spec_device_def Let_def)
    moreover have "(now, p) \<in> set (saves dev tr)" using last_in_set[OF ne] np by simp
    ultimately show ?thesis using ok payload_ok_encodable by metis
  qed
  from hist entry show ?thesis by (simp split: outcome.split)
qed

theorem json_run_typed_witness:
  "\<exists>st. server_run demo_json_server (initial_state NewInMemoryRepository) [(Edge, demo_report_request)] st \<and>
    slice_of (telemetries (repo_state st)) ''DEV-ESP32-001'' \<noteq> [] \<and>
    list_all (payload_ok 2) (slice_of (telemetries (repo_state st)) ''DEV-ESP32-001'')"
proof -
  obtain resp st' where h: "edge_serve demo_json_server (\<lambda>k. int k) demo_report_request (initial_state NewInMemoryRepository) =
      Some (Ok resp, st')" "slice_of (telemetries (repo_state st')) ''DEV-ESP32-001'' \<noteq> []"
    using report_stored[OF demo_report_ok, of rev 1024 "\<lambda>_. 0" id "\<lambda>_. EOF" "[]" True
      "\<lambda>_ _. http_Error 404 ''404 page not found''" "\<lambda>k. int k" "initial_state NewInMemoryRepository"]
    by (auto simp: demo_json_server_def demo_report_request_def demo_cert_def)
  have "server_run demo_json_server (initial_state NewInMemoryRepository) ([] @ [(Edge, demo_report_request)]) st'"
    by (rule server_run.request[OF server_run.start, where clk = "\<lambda>k. int k" and res = "Ok resp"]) (simp add: serve_def h(1))
  then have run: "server_run demo_json_server (initial_state NewInMemoryRepository) [(Edge, demo_report_request)] st'" by simp
  have "\<forall>(l, req) \<in> set [(Edge, demo_report_request)]. json_request req"
    using demo_not_binary by (simp add: json_request_def demo_report_request_def url_path_def)
  from json_run_typed[OF run[unfolded demo_json_server_def] this] run h(2) show ?thesis by blast
qed

text \<open>
  C10: The history over the wire, of whatever is stored. The history endpoint answers 200. When one
  of the newest 50 payloads of the device holds a number that is not finite, the body is empty,
  because the handler ignores the error of the encoder; otherwise it is the encoding of these
  payloads, oldest first. And when all of them are well-formed (finite numbers, UTF-8 strings, custom
  values nested within the limit of the parser), reading the text again gives the payloads, but for
  negative zeros and empty maps, which \<^verbatim>\<open>omitempty\<close> turns into zeros and nil.
\<close>

theorem history_over_the_wire:
  fixes st :: "mem_repo api_state" and dev :: gostring
  defines "ps \<equiv> newest 50 (slice_of (telemetries (repo_state st)) dev)"
  assumes "query_Get (Query req) ''device_id'' = dev" and "dev \<noteq> []"
  shows "\<exists>resp. HandleTelemetryHistory (mem_api order env url) clk ctx req st = Some (Ok resp, st) \<and>
    StatusCode resp = 200 \<and>
    RespBody resp = (if list_all payload_encodable ps then HistoryBody (Some ps) else NoBody) \<and>
    (list_all (payload_ok 3) ps \<longrightarrow>
       read_history (body_bytes (RespBody resp)) = Some (Some (map plain_payload ps)))"
proof -
  have enc: "list_all payload_encodable ps" if "list_all (payload_ok 3) ps"
    using that by (auto simp: list_all_iff payload_encodable_def intro: payload_ok_encodable)
  have "HandleTelemetryHistory (mem_api order env url) clk ctx req st =
      Some (Ok (json_response 200 (if list_all payload_encodable ps then HistoryBody (Some ps) else NoBody)), st)"
    using assms(2,3) by (simp add: HandleTelemetryHistory_def history_newest encoded_def Let_def ps_def)
  moreover have "read_history (json_Encode (tree_history (Some ps))) = Some (Some (map plain_payload ps))"
    if "list_all (payload_ok 3) ps"
    using read_written_history[of "Some ps"] that by simp
  ultimately show ?thesis
    using enc by (simp add: json_response_def body_bytes_def)
qed

theorem history_over_the_wire_witness:
  "\<exists>resp. HandleTelemetryHistory (mem_api rev demo_env []) (\<lambda>n. int n) background_context
      (demo_request\<lparr>Query := [(''device_id'', ''DEV-ESP32-001'')]\<rparr>)
      (initial_state (mem_run [Saved 0 (sim_telemetry demo_report)])) =
      Some (Ok resp, initial_state (mem_run [Saved 0 (sim_telemetry demo_report)])) \<and>
    read_history (body_bytes (RespBody resp)) = Some (Some [plain_payload (sim_telemetry demo_report)])"
proof -
  let ?st = "initial_state (mem_run [Saved 0 (sim_telemetry demo_report)])"
  have id: "payload_id (sim_telemetry demo_report) = ''DEV-ESP32-001''"
    using demo_report_ok(2) by (simp add: sim_telemetry_def demo_cert_def)
  have hist: "slice_of (telemetries (repo_state ?st)) ''DEV-ESP32-001'' = [sim_telemetry demo_report]"
    by (simp add: initial_state_def run_telemetries id)
  have "payload_ok 3 (sim_telemetry demo_report)"
    using demo_report_ok(1) by (simp add: payload_ok_def metrics_ok_def sim_telemetry_def sim_payload_ok_def map_ok_def)
  then have ok: "list_all (payload_ok 3) (newest 50 (slice_of (telemetries (repo_state ?st)) ''DEV-ESP32-001''))"
    by (simp add: hist newest_def)
  have "query_Get (Query (demo_request\<lparr>Query := [(''device_id'', ''DEV-ESP32-001'')]\<rparr>)) ''device_id'' = ''DEV-ESP32-001''"
    by (simp add: query_Get_def)
  from history_over_the_wire[OF this, where order = rev and env = demo_env and url = "[]" and clk = "\<lambda>n. int n"
      and ctx = background_context and st = ?st] ok
  show ?thesis by (auto simp: hist newest_def)
qed

text \<open>
  C9: What the simulator sends is what the server stores. The JSON of a report, posted with the
  device's certificate, is accepted and stored field by field, with nothing in the fields that
  the simulator does not know.
\<close>

theorem sim_report_stored:
  assumes "sim_payload_ok rep" and "DeviceID (SimHeader rep) = CommonName cert"
  shows "\<exists>resp st'. edge_serve (mem_server order (json_env alloc oor sha err) url mtls fs) clk
      (device_request ''POST'' ''application/json'' (json_Marshal (tree_sim_payload rep)) cert
        (edge_url @ ''/api/v1/telemetry'')) st = Some (Ok resp, st') \<and>
    StatusCode resp = 200 \<and>
    slice_of (telemetries (repo_state st')) (CommonName cert) =
      slice_of (telemetries (repo_state st)) (CommonName cert) @ [sim_telemetry rep]"
  using assms by (rule report_stored)

theorem sim_report_stored_witness:
  "\<exists>resp st'. edge_serve demo_json_server (\<lambda>k. int k) demo_report_request (initial_state NewInMemoryRepository) =
      Some (Ok resp, st') \<and> StatusCode resp = 200 \<and>
    slice_of (telemetries (repo_state st')) ''DEV-ESP32-001'' = [sim_telemetry demo_report]"
  using sim_report_stored[OF demo_report_ok, of rev 1024 "\<lambda>_. 0" id "\<lambda>_. EOF" "[]" True
      "\<lambda>_ _. http_Error 404 ''404 page not found''" "\<lambda>k. int k" "initial_state NewInMemoryRepository"]
  by (simp add: demo_json_server_def demo_report_request_def demo_cert_def initial_state_def NewInMemoryRepository_def)

end
