(* ===== verification/Fleet.thy ===== *)
theory Fleet
  imports Device_Runs
begin

text \<open>
  Several simulators at once against one server, as the end-to-end runner starts them. A step of
  the system is one cycle of one process, and the processes take their turns in any order: the
  requests of a cycle are not interleaved with those of another.
\<close>

section \<open>Processes\<close>

text \<open>The loop of \<^verbatim>\<open>Run\<close> between two cycles: its iteration, its cycles so far and its device.\<close>

datatype sim_process =
    Running nat nat simulated_device
  | Exited "unit outcome" nat simulated_device

definition proc_step ::
  "'w sim_env \<Rightarrow> int \<Rightarrow> int \<Rightarrow> nat \<Rightarrow> nat \<Rightarrow> simulated_device \<Rightarrow> 'w \<Rightarrow> sim_process \<times> 'w"
where
  "proc_step env defaultIntervalSec maxCycles i cycles d w =
     (if cancelled env (2 * i) then (Exited (Ok ()) cycles d, w)
      else case sim_cycle env defaultIntervalSec (draws env i) cycles (d, w) of
             (Panic, cycles', d', w') \<Rightarrow> (Exited Panic cycles' d', w')
           | (_, cycles', d', w') \<Rightarrow>
               (if 0 < maxCycles \<and> maxCycles \<le> int cycles' \<or> cancelled env (2 * i + 1)
                then Exited (Ok ()) cycles' d' else Running (i + 1) cycles' d', w'))"

text \<open>A process alone is the loop of the simulator.\<close>

lemma loop_step:
  "sim_loop env iv mc i c (d, w) =
     (case proc_step env iv mc i c d w of
        (Exited r c' d', w') \<Rightarrow> Some (r, c', (d', w'))
      | (Running i' c' d', w') \<Rightarrow> sim_loop env iv mc i' c' (d', w'))"
  by (subst sim_loop.simps) (auto simp: proc_step_def split: prod.splits outcome.splits)

inductive fleet_step ::
  "(nat \<Rightarrow> 'w sim_env) \<Rightarrow> int \<Rightarrow> int \<Rightarrow> sim_process list \<times> 'w \<Rightarrow> sim_process list \<times> 'w \<Rightarrow> bool"
  for envs iv mc
where
  turn: "k < length ps \<Longrightarrow> ps ! k = Running i c d \<Longrightarrow> proc_step (envs k) iv mc i c d w = (p, w') \<Longrightarrow>
    fleet_step envs iv mc (ps, w) (ps[k := p], w')"

inductive_cases fleet_stepE: "fleet_step envs iv mc (ps, w) psw"

definition exited :: "sim_process \<Rightarrow> bool" where
  "exited p = (case p of Running _ _ _ \<Rightarrow> False | Exited _ _ _ \<Rightarrow> True)"

definition cycles_of :: "sim_process \<Rightarrow> nat" where
  "cycles_of p = (case p of Running _ c _ \<Rightarrow> c | Exited _ c _ \<Rightarrow> c)"

text \<open>A system with a process that still runs can always take a step.\<close>

lemma fleet_progress: "\<not> list_all exited ps \<Longrightarrow> \<exists>psw. fleet_step envs iv mc (ps, w) psw"
proof -
  assume "\<not> list_all exited ps"
  then obtain k i c d where "k < length ps" "ps ! k = Running i c d"
    by (auto simp: list_all_length exited_def) (metis sim_process.exhaust sim_process.simps(6))
  moreover obtain p w' where "proc_step (envs k) iv mc i c d w = (p, w')" by fastforce
  ultimately show ?thesis by (blast intro: fleet_step.turn)
qed

definition fleet_envs ::
  "'s server \<Rightarrow> (nat \<Rightarrow> nat \<Rightarrow> time) \<Rightarrow> certificate list \<Rightarrow> (gostring \<Rightarrow> bool) \<Rightarrow> (u8 list \<Rightarrow> go_error) \<Rightarrow>
     (nat \<Rightarrow> nat \<Rightarrow> sim_draws) \<Rightarrow> nat \<Rightarrow> ('s api_state \<times> nat) sim_env"
where
  "fleet_envs srv clk certs url_ok err dr k = device_env srv clk (certs ! k) url_ok err (dr k) (\<lambda>_. False)"

section \<open>The invariant\<close>

definition cycled ::
  "(nat \<Rightarrow> nat \<Rightarrow> time) \<Rightarrow> gostring \<Rightarrow> nat \<Rightarrow> repo_op list \<Rightarrow> repo_op list \<Rightarrow> simulated_device \<Rightarrow> bool"
where
  "cycled clk dev c old tr d \<longleftrightarrow> added clk dev c old tr \<and>
     outstanding dev tr = (if c = 0 then outstanding dev old else []) \<and>
     (0 < c \<longrightarrow> SimFirmware d = ''1.1.0'') \<and> (1 < c \<longrightarrow> last_firmware dev tr = ''1.1.0'')"

definition proc_inv ::
  "(nat \<Rightarrow> nat \<Rightarrow> time) \<Rightarrow> nat \<Rightarrow> repo_op list \<Rightarrow> repo_op list \<Rightarrow> certificate \<Rightarrow> sim_process \<Rightarrow> bool"
where
  "proc_inv clk m old tr cert p =
     (case p of
        Running i c d \<Rightarrow> c < m \<and> ready cert d \<and> cycled clk (CommonName cert) c old tr d
      | Exited r c d \<Rightarrow> r = Ok () \<and> c = m \<and> cycled clk (CommonName cert) c old tr d)"

definition fleet_inv ::
  "(nat \<Rightarrow> nat \<Rightarrow> time) \<Rightarrow> nat \<Rightarrow> repo_op list \<Rightarrow> certificate list \<Rightarrow> sim_process list \<times> mem_repo api_state \<times> nat \<Rightarrow> bool"
where
  "fleet_inv clk m old certs = (\<lambda>(ps, st, n). \<exists>tr. repo_state st = mem_run tr \<and>
     untouched (CommonName ` set certs) old tr \<and> list_all2 (proc_inv clk m old tr) certs ps)"

lemma cycled_other:
  "untouched {dev} tr tr' \<Longrightarrow> other \<noteq> dev \<Longrightarrow> cycled clk other c old tr d \<Longrightarrow> cycled clk other c old tr' d"
  by (simp add: cycled_def added_def untouched_def last_firmware_def)

lemma proc_inv_other:
  "untouched {dev} tr tr' \<Longrightarrow> CommonName cert \<noteq> dev \<Longrightarrow> proc_inv clk m old tr cert p \<Longrightarrow> proc_inv clk m old tr' cert p"
  by (auto simp: proc_inv_def intro: cycled_other split: sim_process.splits)

lemma cycled_next:
  assumes "cycled clk dev c old tr d" and "served clk dev 1 tr tr'" and "outstanding dev tr' = []"
    and "SimFirmware d' = ''1.1.0''" and "last_firmware dev tr' = SimFirmware d"
  shows "cycled clk dev (Suc c) old tr' d'"
  using assms added_trans[of clk dev c old tr 1 tr'] by (simp add: cycled_def served_def)

lemma fleet_inv_step:
  fixes order alloc oor sha err url mtls fs clk certs url_ok dr
  defines "envs \<equiv> fleet_envs (json_server order alloc oor sha err url mtls fs) clk certs url_ok err dr"
  assumes sha: "valid_utf8 (sha firmware_image)" and url: "url_ok (edge_url @ ''/api/v1/commands/ack'')"
    and draws: "\<forall>k i. draws_ok (dr k i)" and names: "distinct (map CommonName certs)"
    and cmds: "\<forall>cert \<in> set certs. list_all command_ok (outstanding (CommonName cert) old)"
    and inv: "fleet_inv clk m old certs (ps, st, n)"
    and step: "fleet_step envs iv (int m) (ps, st, n) (ps', st', n')"
  shows "fleet_inv clk m old certs (ps', st', n') \<and>
    sum_list (map cycles_of ps') = Suc (sum_list (map cycles_of ps))"
proof -
  from step obtain k i c d p where k: "k < length ps" "ps ! k = Running i c d"
    "proc_step (envs k) iv (int m) i c d (st, n) = (p, st', n')" "ps' = ps[k := p]"
    by (auto elim: fleet_stepE)
  from inv obtain tr where tr: "repo_state st = mem_run tr" "untouched (CommonName ` set certs) old tr"
    "list_all2 (proc_inv clk m old tr) certs ps" by (auto simp: fleet_inv_def)
  let ?cert = "certs ! k" and ?dev = "CommonName (certs ! k)"
  have len: "length certs = length ps" using tr(3) by (rule list_all2_lengthD)
  have mem: "?cert \<in> set certs" using k(1) len by simp
  have "proc_inv clk m old tr ?cert (ps ! k)" using list_all2_nthD2[OF tr(3) k(1)] .
  then have pinv: "c < m" "ready ?cert d" "cycled clk ?dev c old tr d" by (simp_all add: k(2) proc_inv_def)
  have out: "list_all command_ok (outstanding ?dev tr)" using pinv(3) cmds mem by (simp add: cycled_def)
  have dr: "draws_ok (dr k i)" using draws by simp
  obtain d1 st1 n1 tr' where cyc: "sim_cycle (envs k) iv (dr k i) c (d, (st, n)) = (Ok (), Suc c, d1, (st1, n1))"
    and t1: "repo_state st1 = mem_run tr'" "served clk ?dev 1 tr tr'" "outstanding ?dev tr' = []" "ready ?cert d1"
      "SimFirmware d1 = ''1.1.0''" "last_firmware ?dev tr' = SimFirmware d"
    using cycle_trace[where stop = "\<lambda>_. False" and dr = "dr k" and clk = clk and n = n and iv = iv and c = c and
        order = order and alloc = alloc and oor = oor and err = err and url = url and mtls = mtls and fs = fs and
        sha = sha and url_ok = url_ok and cert = ?cert and d = d and r = "dr k i" and st = st and tr = tr,
        OF pinv(2) dr tr(1) out sha url]
    unfolding envs_def fleet_envs_def by blast
  have run: "\<not> cancelled (envs k) j" "draws (envs k) j = dr k j" for j
    by (simp_all add: envs_def fleet_envs_def device_env_def)
  have p: "p = (if int m \<le> int (Suc c) then Exited (Ok ()) (Suc c) d1 else Running (i + 1) (Suc c) d1)"
    and same: "st1 = st'" "n1 = n'"
    using k(3) pinv(1) cyc by (auto simp: proc_step_def run)
  note t = t1[unfolded same]
  have next': "cycled clk ?dev (Suc c) old tr' d1" by (rule cycled_next[OF pinv(3) t(2,3,5,6)])
  then have p_inv: "proc_inv clk m old tr' ?cert p" using pinv(1) t(4) by (auto simp: p proc_inv_def)
  have others: "untouched {?dev} tr tr'" using t(2) by (simp add: served_def)
  have "list_all2 (proc_inv clk m old tr') certs (ps[k := p])"
  proof (rule list_all2_all_nthI)
    fix j assume j: "j < length certs"
    show "proc_inv clk m old tr' (certs ! j) (ps[k := p] ! j)"
    proof (cases "j = k")
      case False
      then have "CommonName (certs ! j) \<noteq> ?dev" using names j k(1) len by (auto simp: distinct_conv_nth)
      then show ?thesis using proc_inv_other[OF others] list_all2_nthD[OF tr(3) j] False by simp
    qed (use p_inv j len in simp)
  qed (simp add: len)
  moreover have "untouched (CommonName ` set certs) old tr'"
    using tr(2) others mem by (auto simp: untouched_def)
  moreover have "sum_list (map cycles_of (ps[k := p])) = Suc (sum_list (map cycles_of ps))"
  proof -
    have "cycles_of p = Suc c" "cycles_of (ps ! k) = c" by (simp_all add: p k(2) cycles_of_def)
    moreover have "c \<le> sum_list (map cycles_of ps)"
      using member_le_sum_list[of "cycles_of (ps ! k)" "map cycles_of ps"] nth_mem[OF k(1)] \<open>cycles_of (ps ! k) = c\<close> by auto
    ultimately show ?thesis using k(1) by (simp add: map_update sum_list_update)
  qed
  ultimately show ?thesis using t(1) by (auto simp: fleet_inv_def k(4))
qed

section \<open>Runs\<close>

lemma fleet_inv_start:
  assumes "list_all2 ready certs ds" and "repo_state st = mem_run old" and "0 < m"
  shows "fleet_inv clk m old certs (map (Running 0 0) ds, st, n)"
proof -
  have "list_all2 (proc_inv clk m old old) certs (map (Running 0 0) ds)"
    using assms by (auto simp: list_all2_conv_all_nth proc_inv_def cycled_def added_def)
  then show ?thesis using assms(2) by (auto simp: fleet_inv_def untouched_def)
qed

lemma fleet_inv_run:
  fixes order alloc oor sha err url mtls fs clk certs url_ok dr
  defines "envs \<equiv> fleet_envs (json_server order alloc oor sha err url mtls fs) clk certs url_ok err dr"
  assumes "valid_utf8 (sha firmware_image)" and "url_ok (edge_url @ ''/api/v1/commands/ack'')"
    and "\<forall>k i. draws_ok (dr k i)" and "distinct (map CommonName certs)"
    and "\<forall>cert \<in> set certs. list_all command_ok (outstanding (CommonName cert) old)"
    and start: "list_all2 ready certs ds" "repo_state st = mem_run old" "0 < m"
    and run: "(fleet_step envs iv (int m) ^^ s) (map (Running 0 0) ds, st, n) psw"
  shows "fleet_inv clk m old certs psw \<and> sum_list (map cycles_of (fst psw)) = s"
  using run
proof (induction s arbitrary: psw)
  case 0
  moreover have "sum_list (map (cycles_of \<circ> Running 0 0) ds) = 0" by (simp add: comp_def cycles_of_def)
  ultimately show ?case using fleet_inv_start[OF start] by auto
next
  case (Suc s)
  then obtain psw1 where "(fleet_step envs iv (int m) ^^ s) (map (Running 0 0) ds, st, n) psw1"
    and step: "fleet_step envs iv (int m) psw1 psw" by auto
  with Suc.IH have ih: "fleet_inv clk m old certs psw1" "sum_list (map cycles_of (fst psw1)) = s" by simp_all
  obtain ps1 st1 n1 where before: "psw1 = (ps1, st1, n1)" by (cases psw1)
  obtain ps' st' n' where after: "psw = (ps', st', n')" by (cases psw)
  note eqs = before after
  note one = fleet_inv_step[where sha = sha and url_ok = url_ok and dr = dr and certs = certs and old = old and m = m and
      order = order and alloc = alloc and oor = oor and err = err and url = url and mtls = mtls and fs = fs and clk = clk
      and iv = iv, folded envs_def]
  from one[OF assms(2-6) ih(1)[unfolded eqs] step[unfolded eqs]] ih(2) show ?case by (simp add: eqs)
qed

lemma cycles_bound:
  assumes "list_all2 (proc_inv clk m old tr) certs ps"
  shows "sum_list (map cycles_of ps) \<le> m * length ps"
    and "sum_list (map cycles_of ps) = m * length ps \<longleftrightarrow> list_all exited ps"
proof -
  have "sum_list (map cycles_of ps) \<le> m * length ps \<and> (sum_list (map cycles_of ps) = m * length ps \<longleftrightarrow> list_all exited ps)"
    using assms
  proof (induction rule: list_all2_induct)
    case (Cons cert certs p ps)
    then have "cycles_of p \<le> m" "cycles_of p = m \<longleftrightarrow> exited p"
      by (auto simp: proc_inv_def cycles_of_def exited_def split: sim_process.splits)
    with Cons.IH show ?case by auto
  qed simp
  then show "sum_list (map cycles_of ps) \<le> m * length ps"
    "sum_list (map cycles_of ps) = m * length ps \<longleftrightarrow> list_all exited ps" by simp_all
qed

text \<open>There is a run of every length up to that bound.\<close>

lemma fleet_can_run:
  fixes order alloc oor sha err url mtls fs clk certs url_ok dr
  defines "envs \<equiv> fleet_envs (json_server order alloc oor sha err url mtls fs) clk certs url_ok err dr"
  assumes "valid_utf8 (sha firmware_image)" and "url_ok (edge_url @ ''/api/v1/commands/ack'')"
    and "\<forall>k i. draws_ok (dr k i)" and "distinct (map CommonName certs)"
    and "\<forall>cert \<in> set certs. list_all command_ok (outstanding (CommonName cert) old)"
    and start: "list_all2 ready certs ds" "repo_state st = mem_run old" "0 < m"
  shows "s \<le> m * length ds \<Longrightarrow> \<exists>psw. (fleet_step envs iv (int m) ^^ s) (map (Running 0 0) ds, st, n) psw"
proof (induction s)
  case (Suc s)
  then obtain ps st' n' where run: "(fleet_step envs iv (int m) ^^ s) (map (Running 0 0) ds, st, n) (ps, st', n')"
    by (metis Suc_leD prod.exhaust)
  note inv = fleet_inv_run[where sha = sha and url_ok = url_ok and dr = dr and certs = certs and old = old and m = m and
      order = order and alloc = alloc and oor = oor and err = err and url = url and mtls = mtls and fs = fs and clk = clk
      and iv = iv, folded envs_def, OF assms(2-6) start run]
  then obtain tr where tr: "list_all2 (proc_inv clk m old tr) certs ps" by (auto simp: fleet_inv_def)
  have "length ps = length ds" using list_all2_lengthD[OF tr] list_all2_lengthD[OF start(1)] by simp
  with cycles_bound(2)[OF tr] inv Suc.prems have "\<not> list_all exited ps" by auto
  with run show ?case using fleet_progress by (metis relpowp_Suc_I)
qed (intro exI, simp)

text \<open>When every process has ended, each device has made its reports, the last of them on the new
  firmware, and executed its commands.\<close>

lemma fleet_finished:
  fixes order alloc oor sha err url mtls fs clk certs url_ok dr
  defines "envs \<equiv> fleet_envs (json_server order alloc oor sha err url mtls fs) clk certs url_ok err dr"
  assumes "valid_utf8 (sha firmware_image)" and "url_ok (edge_url @ ''/api/v1/commands/ack'')"
    and "\<forall>k i. draws_ok (dr k i)" and "distinct (map CommonName certs)"
    and "\<forall>cert \<in> set certs. list_all command_ok (outstanding (CommonName cert) old)"
    and start: "list_all2 ready certs ds" "repo_state st = mem_run old" "1 < m"
    and run: "(fleet_step envs iv (int m) ^^ s) (map (Running 0 0) ds, st, n) (ps, st', n')" and ended: "list_all exited ps"
  shows "\<exists>tr. repo_state st' = mem_run tr \<and> untouched (CommonName ` set certs) old tr \<and>
    (\<forall>dev \<in> CommonName ` set certs. added clk dev m old tr \<and> last_firmware dev tr = ''1.1.0'' \<and> outstanding dev tr = [])"
proof -
  have "0 < m" using start(3) by simp
  from fleet_inv_run[where sha = sha and url_ok = url_ok and dr = dr and certs = certs and old = old and m = m and
      order = order and alloc = alloc and oor = oor and err = err and url = url and mtls = mtls and fs = fs and clk = clk
      and iv = iv, folded envs_def, OF assms(2-6) start(1,2) this run]
  obtain tr where tr: "repo_state st' = mem_run tr" "untouched (CommonName ` set certs) old tr"
    "list_all2 (proc_inv clk m old tr) certs ps" by (auto simp: fleet_inv_def)
  have "added clk (CommonName cert) m old tr \<and> last_firmware (CommonName cert) tr = ''1.1.0'' \<and> outstanding (CommonName cert) tr = []"
    if mem: "cert \<in> set certs" for cert
  proof -
    obtain k where k: "k < length certs" "cert = certs ! k" using mem by (auto simp: in_set_conv_nth)
    have "proc_inv clk m old tr cert (ps ! k)" using list_all2_nthD[OF tr(3) k(1)] k(2) by simp
    moreover have "exited (ps ! k)" using ended k(1) list_all2_lengthD[OF tr(3)] by (simp add: list_all_length)
    ultimately show ?thesis using start(3) by (auto simp: proc_inv_def exited_def cycled_def split: sim_process.splits)
  qed
  with tr(1,2) show ?thesis by blast
qed

section \<open>Properties\<close>

text \<open>What a process that has finished leaves behind for its device.\<close>

definition updated :: "nat \<Rightarrow> mem_repo api_state \<Rightarrow> mem_repo api_state \<Rightarrow> certificate \<Rightarrow> sim_process \<Rightarrow> bool" where
  "updated m st st' cert p =
     (case p of
        Exited (Ok _) c d \<Rightarrow> c = m \<and> SimFirmware d = ''1.1.0'' \<and> pending_of st' (CommonName cert) = [] \<and>
          length (slice_of (telemetries (repo_state st')) (CommonName cert)) =
            length (slice_of (telemetries (repo_state st)) (CommonName cert)) + m \<and>
          (case read_device (CommonName cert) (repo_state st') of
             Ok e \<Rightarrow> DevFirmware e = (if 1 < m then ''1.1.0'' else DevFirmware e)
           | _ \<Rightarrow> False)
      | _ \<Rightarrow> False)"

lemma updated_exited:
  assumes "proc_inv clk m old tr cert p" and "exited p" and "0 < m"
    and st: "repo_state st = mem_run old" "repo_state st' = mem_run tr"
  shows "updated m st st' cert p"
proof -
  obtain d where p: "p = Exited (Ok ()) m d" and c: "cycled clk (CommonName cert) m old tr d"
    using assms(1,2) by (auto simp: proc_inv_def exited_def split: sim_process.splits)
  obtain new where new: "saves (CommonName cert) tr = saves (CommonName cert) old @ new" "length new = m"
    using c by (auto simp: cycled_def added_def)
  then have "saves (CommonName cert) tr \<noteq> []" using assms(3) by auto
  with c new assms(3) show ?thesis
    by (auto simp: updated_def p cycled_def st run_commands run_telemetries run_device spec_device_def Let_def
        last_firmware_def case_prod_beta)
qed

text \<open>
  C2: The update of a fleet, in any order of the cycles. Any number of simulators with different
  names run against the server at once, whatever it has handled before, and each takes its \<open>m\<close>
  cycles in turns that are up to the scheduler. A system that has taken \<open>s\<close> steps has done \<open>s\<close>
  cycles, so every schedule ends after exactly \<open>m\<close> cycles per device; then every process has
  ended without an error on firmware 1.1.0, its commands are executed, its \<open>m\<close> reports are added
  to its history, and its entry shows the new firmware if there was more than one. No step ever
  touches the history or the commands of any other device.
\<close>

theorem fleet_updates:
  fixes order alloc oor sha err url mtls fs clk certs url_ok dr
  defines "envs \<equiv> fleet_envs (json_server order alloc oor sha err url mtls fs) clk certs url_ok err dr"
  assumes "valid_utf8 (sha firmware_image)" and "url_ok (edge_url @ ''/api/v1/commands/ack'')"
    and "\<forall>k i. draws_ok (dr k i)" and "distinct (map CommonName certs)"
    and "\<forall>cert \<in> set certs. list_all command_ok (pending_of st (CommonName cert))"
    and "list_all2 ready certs ds" and "repo_state st = mem_run old" and "0 < m"
    and "(fleet_step envs iv (int m) ^^ s) (map (Running 0 0) ds, st, n) (ps, st', n')"
  shows "s \<le> m * length ds \<and>
    (if s = m * length ds then list_all2 (updated m st st') certs ps else \<exists>psw. fleet_step envs iv (int m) (ps, st', n') psw) \<and>
    (\<forall>other. other \<notin> CommonName ` set certs \<longrightarrow> pending_of st' other = pending_of st other \<and>
       slice_of (telemetries (repo_state st')) other = slice_of (telemetries (repo_state st)) other)"
proof -
  have cmds: "\<forall>cert \<in> set certs. list_all command_ok (outstanding (CommonName cert) old)"
    using assms(6) by (simp add: assms(8) run_commands)
  have "fleet_inv clk m old certs (ps, st', n') \<and> sum_list (map cycles_of ps) = s"
    using fleet_inv_run[where sha = sha and url_ok = url_ok and dr = dr and certs = certs and old = old and m = m and
        order = order and alloc = alloc and oor = oor and err = err and url = url and mtls = mtls and fs = fs and clk = clk
        and iv = iv, folded envs_def, OF assms(2-5) cmds assms(7-10)] by simp
  then obtain tr where tr: "repo_state st' = mem_run tr" "untouched (CommonName ` set certs) old tr"
    "list_all2 (proc_inv clk m old tr) certs ps" "sum_list (map cycles_of ps) = s" by (auto simp: fleet_inv_def)
  have len: "length ps = length ds" using list_all2_lengthD[OF tr(3)] list_all2_lengthD[OF assms(7)] by simp
  have "list_all2 (updated m st st') certs ps" if "list_all exited ps"
    using tr(3) that updated_exited[OF _ _ assms(9,8) tr(1)]
    by (auto simp: list_all2_conv_all_nth list_all_length)
  moreover have "\<exists>psw. fleet_step envs iv (int m) (ps, st', n') psw" if "\<not> list_all exited ps"
    using fleet_progress[OF that] .
  ultimately show ?thesis
    using cycles_bound[OF tr(3)] tr len
    by (auto simp: untouched_def assms(8) run_commands run_telemetries simp del: split_paired_Ex)
qed

section \<open>Two devices\<close>

definition demo_cert2 :: certificate where
  "demo_cert2 = \<lparr>CommonName = ''DEV-STM32-002'', IssuerName = ''CA'', DNSNames = []\<rparr>"

definition demo_stm32 :: simulated_device where
  "demo_stm32 = (case NewSimulatedDevice (Ok ()) (Ok ()) 0 0 0 ''DEV-STM32-002'' ''crt'' ''key'' edge_url of Ok d \<Rightarrow> d)"

lemma demo_stm32_ready: "ready demo_cert2 demo_stm32"
proof -
  have "ready demo_cert (demo_esp32)" by (rule demo_ready)
  then show ?thesis
    by (simp add: ready_def device_ok_def demo_esp32_def demo_stm32_def demo_cert2_def demo_cert_def NewSimulatedDevice_def valid_ascii)
qed

theorem fleet_updates_witness:
  "\<exists>ps st' n'. (fleet_step (fleet_envs (json_server rev 1024 (\<lambda>_. 0) id (\<lambda>_. EOF) [] True
        (\<lambda>_ _. http_Error 404 ''404 page not found'')) (\<lambda>n k. int n) [demo_cert, demo_cert2] (\<lambda>_. True) (\<lambda>_. EOF)
        (\<lambda>_ _. demo_draws)) 1 (int 3) ^^ 6)
      (map (Running 0 0) [demo_esp32, demo_stm32], initial_state NewInMemoryRepository, 0) (ps, st', n') \<and>
    list_all2 (updated 3 (initial_state NewInMemoryRepository) st') [demo_cert, demo_cert2] ps"
proof -
  let ?st = "initial_state NewInMemoryRepository" and ?fs = "\<lambda>(_ :: endpoint) (_ :: http_request). http_Error 404 ''404 page not found''"
  let ?certs = "[demo_cert, demo_cert2]" and ?ds = "[demo_esp32, demo_stm32]"
  have sha: "valid_utf8 (id firmware_image)" by (simp add: firmware_image_def valid_ascii)
  have draws: "\<forall>(k :: nat) (i :: nat). draws_ok demo_draws" using demo_draws_ok(2) by (simp add: demo_sim_env_def)
  have names: "distinct (map CommonName ?certs)" by (simp add: demo_cert_def demo_cert2_def)
  have rdy: "list_all2 ready ?certs ?ds" by (simp add: demo_ready demo_stm32_ready)
  have none: "\<forall>cert \<in> set ?certs. list_all command_ok (outstanding (CommonName cert) [])"
    "\<forall>cert \<in> set ?certs. list_all command_ok (pending_of ?st (CommonName cert))"
    by (simp_all add: initial_state_def NewInMemoryRepository_def)
  have tr: "repo_state ?st = mem_run []" by (simp add: initial_state_def)
  have six: "0 < (3 :: nat)" "6 \<le> 3 * length ?ds" "6 = 3 * length ?ds" by simp_all
  let ?envs = "fleet_envs (json_server rev 1024 (\<lambda>_. 0) id (\<lambda>_. EOF) [] True ?fs) (\<lambda>n k. int n) ?certs (\<lambda>_. True) (\<lambda>_. EOF)
      (\<lambda>_ _. demo_draws)"
  obtain ps st' n' where run: "(fleet_step ?envs 1 (int 3) ^^ 6) (map (Running 0 0) ?ds, ?st, 0) (ps, st', n')"
    using fleet_can_run[where sha = id and url_ok = "\<lambda>_. True" and dr = "\<lambda>_ _. demo_draws" and certs = ?certs and old = "[]" and
        m = 3 and order = rev and alloc = 1024 and oor = "\<lambda>_. 0" and err = "\<lambda>_. EOF" and url = "[]" and mtls = True and
        fs = ?fs and clk = "\<lambda>n k. int n" and iv = 1 and s = 6 and n = 0, OF sha TrueI draws names none(1) rdy tr six(1,2)]
    by (metis prod.exhaust)
  from fleet_updates[where sha = id and url_ok = "\<lambda>_. True" and dr = "\<lambda>_ _. demo_draws" and certs = ?certs and old = "[]" and
      m = 3 and order = rev and alloc = 1024 and oor = "\<lambda>_. 0" and err = "\<lambda>_. EOF" and url = "[]" and mtls = True and
      fs = ?fs and clk = "\<lambda>n k. int n" and iv = 1 and s = 6 and n = 0, OF sha TrueI draws names none(2) rdy tr six(1) run]
  have "list_all2 (updated 3 ?st st') ?certs ps" by simp
  with run show ?thesis by blast
qed

end
