(* ===== verification/E2e_Runner.thy ===== *)
theory E2e_Runner
  imports Fleet Json_Server Start_Up
begin

text \<open>
  The end-to-end test runner (tools/test_runner/run_e2e.go): it starts the server, waits until it
  is healthy, runs two simulators at once, and then checks the device list, the history, the
  dashboard and the command API. Its processes and files are fields of an environment. Its log
  lines and sleeps are not modelled.
\<close>

section \<open>The state of a device as the runner reads it\<close>

record e2e_device =
  E2eDeviceID :: gostring
  E2eFirmware :: gostring
  E2eLastSeenAt :: gostring
  E2eLastSeqNo :: u32
  E2eStatus :: gostring
  E2eTotal :: u64

definition dec_u64 :: "json_tree \<Rightarrow> u64 \<Rightarrow> u64 option" where
  "dec_u64 t old = (case t of TNull \<Rightarrow> Some old | TNum n \<Rightarrow> map_option word_of_nat (ParseUint 64 n) | _ \<Rightarrow> None)"

definition e2e_member :: "gostring \<Rightarrow> json_tree \<Rightarrow> e2e_device \<Rightarrow> e2e_device option" where
  "e2e_member k t d =
     (if named ''device_id'' k then map_option (\<lambda>v. d\<lparr>E2eDeviceID := v\<rparr>) (dec_string t (E2eDeviceID d))
      else if named ''firmware_version'' k
        then map_option (\<lambda>v. d\<lparr>E2eFirmware := v\<rparr>) (dec_string t (E2eFirmware d))
      else if named ''last_seen_at'' k
        then map_option (\<lambda>v. d\<lparr>E2eLastSeenAt := v\<rparr>) (dec_string t (E2eLastSeenAt d))
      else if named ''last_seq_no'' k then map_option (\<lambda>v. d\<lparr>E2eLastSeqNo := v\<rparr>) (dec_u32 t (E2eLastSeqNo d))
      else if named ''status'' k then map_option (\<lambda>v. d\<lparr>E2eStatus := v\<rparr>) (dec_string t (E2eStatus d))
      else if named ''total_telemetries'' k then map_option (\<lambda>v. d\<lparr>E2eTotal := v\<rparr>) (dec_u64 t (E2eTotal d))
      else Some d)"

definition zero_e2e_device :: e2e_device where
  "zero_e2e_device = \<lparr>E2eDeviceID = [], E2eFirmware = [], E2eLastSeenAt = [], E2eLastSeqNo = 0, E2eStatus = [], E2eTotal = 0\<rparr>"

text \<open>\<^verbatim>\<open>json.Unmarshal\<close> into a nil slice.\<close>

definition unmarshal_slice ::
  "(u8 list \<Rightarrow> go_error) \<Rightarrow> (json_tree \<Rightarrow> 'a \<Rightarrow> 'a option) \<Rightarrow> 'a \<Rightarrow> u8 list \<Rightarrow> 'a list outcome"
where
  "unmarshal_slice err dec zero body =
     (case Option.bind (json_parse (bytes_to_string body)) (\<lambda>t. dec_array dec zero t []) of
        Some xs \<Rightarrow> Ok xs
      | None \<Rightarrow> Err (err body))"

section \<open>The runner\<close>

record 'w e2e_env =
  read_ca :: "gostring \<Rightarrow> unit outcome"
  load_key_pair :: "gostring \<Rightarrow> gostring \<Rightarrow> unit outcome"
  start_server :: "'w \<Rightarrow> unit outcome \<times> 'w"
  stop_server :: "'w \<Rightarrow> 'w"
  mtls_get :: "gostring \<Rightarrow> 'w \<Rightarrow> (go_error + http_reply) \<times> 'w"
  web_get :: "gostring \<Rightarrow> 'w \<Rightarrow> (go_error + http_reply) \<times> 'w"
  web_post :: "gostring \<Rightarrow> gostring \<Rightarrow> u8 list \<Rightarrow> 'w \<Rightarrow> (go_error + http_reply) \<times> 'w"
  run_simulators :: "sim_flags list \<Rightarrow> 'w \<Rightarrow> 'w"
  json_error :: "u8 list \<Rightarrow> go_error"

text \<open>Up to \<open>n\<close> health checks; an answer other than 200 counts as a failure.\<close>

fun await_healthy :: "'w e2e_env \<Rightarrow> nat \<Rightarrow> 'w \<Rightarrow> bool \<times> 'w" where
  "await_healthy env 0 w = (False, w)"
| "await_healthy env (Suc n) w =
     (case mtls_get env ''https://127.0.0.1:8443/healthz'' w of
        (Inr resp, w') \<Rightarrow> if ReplyStatus resp = 200 then (True, w') else await_healthy env n w'
      | (Inl _, w') \<Rightarrow> await_healthy env n w')"

text \<open>The simulators are started with these flags, the others at their defaults. That one fails is
  only logged.\<close>

definition e2e_flags :: "sim_flags list" where
  "e2e_flags =
     map (\<lambda>(id, cert, key). default_flags\<lparr>flag_id := id, flag_cert := cert, flag_key := key,
            flag_ca := ''../certs/out/ca.crt'', flag_cycles := 3, flag_interval := 1\<rparr>)
       [(''DEV-ESP32-001'', ''../certs/out/client_DEV-ESP32-001.crt'', ''../certs/out/client_DEV-ESP32-001.key''),
        (''DEV-STM32-002'', ''../certs/out/client_DEV-STM32-002.crt'', ''../certs/out/client_DEV-STM32-002.key'')]"

text \<open>A fatal message about an error, and one about a failed check.\<close>

definition fail :: "gostring \<Rightarrow> unit outcome" where
  "fail msg = Err (OtherError (''[FAIL] '' @ msg))"

text \<open>What follows an answered request; the errors of reading bodies are ignored.\<close>

definition answered ::
  "(go_error + http_reply) \<times> 'w \<Rightarrow> gostring \<Rightarrow> (http_reply \<Rightarrow> 'w \<Rightarrow> unit outcome \<times> 'w) \<Rightarrow> unit outcome \<times> 'w"
where
  "answered r msg k = (case r of (Inl e, w) \<Rightarrow> (Err (fatal msg e), w) | (Inr resp, w) \<Rightarrow> k resp w)"

definition outdated :: "e2e_device \<Rightarrow> bool" where
  "outdated d \<longleftrightarrow> E2eFirmware d \<noteq> ''1.1.0''"

definition check_devices :: "(u8 list \<Rightarrow> go_error) \<Rightarrow> u8 list \<Rightarrow> unit outcome" where
  "check_devices err body =
     (case unmarshal_slice err (dec_struct e2e_member) zero_e2e_device body of
        Err e \<Rightarrow> Err (fatal ''Failed to parse device list JSON'' e)
      | Panic \<Rightarrow> Panic
      | Ok devs \<Rightarrow>
          (case List.find outdated devs of
             Some d \<Rightarrow> fail (''Device '' @ E2eDeviceID d @ '' did not upgrade to firmware 1.1.0 (found: '' @ E2eFirmware d @ '')'')
           | None \<Rightarrow>
               if length devs < 2 then fail (''Expected at least 2 devices, found '' @ show_nat (length devs)) else Ok ()))"

definition check_history :: "(u8 list \<Rightarrow> go_error) \<Rightarrow> u8 list \<Rightarrow> unit outcome" where
  "check_history err body =
     (case unmarshal_slice err (\<lambda>t _. dec_any t) JNull body of
        Err e \<Rightarrow> Err (fatal ''Failed to parse history JSON'' e)
      | Panic \<Rightarrow> Panic
      | Ok records \<Rightarrow>
          if length records < 3
          then fail (''Expected at least 3 persisted telemetry records, got '' @ show_nat (length records)) else Ok ())"

definition e2e_command :: "u8 list" where
  "e2e_command = json_Marshal (tree_any (JObject
     [(''device_id'', JString ''DEV-ESP32-001''), (''action'', JString ''CONFIG_UPDATE''),
      (''params'', JObject [(''sleep_interval_sec'', JInt 10)])]))"

definition then_do :: "unit outcome \<Rightarrow> 'w \<Rightarrow> (unit \<Rightarrow> unit outcome \<times> 'w) \<Rightarrow> unit outcome \<times> 'w" where
  "then_do r w k = (case r of Ok _ \<Rightarrow> k () | Err e \<Rightarrow> (Err e, w) | Panic \<Rightarrow> (Panic, w))"

text \<open>Steps 3 to 6.\<close>

definition e2e_checks :: "'w e2e_env \<Rightarrow> 'w \<Rightarrow> unit outcome \<times> 'w" where
  "e2e_checks env w =
     answered (mtls_get env ''https://127.0.0.1:8443/api/v1/devices'' w) ''Failed to query /api/v1/devices'' (\<lambda>resp w.
     then_do (check_devices (json_error env) (ReplyBody resp)) w (\<lambda>_.
     answered (mtls_get env ''https://127.0.0.1:8443/api/v1/telemetry/history?device_id=DEV-ESP32-001'' w)
       ''Failed to query history API'' (\<lambda>resp w.
     then_do (check_history (json_error env) (ReplyBody resp)) w (\<lambda>_.
     answered (web_get env ''http://127.0.0.1:8080/'' w) ''Failed to access Web Dashboard'' (\<lambda>resp w.
     if ReplyStatus resp \<noteq> 200
     then (fail (''Web Dashboard returned status '' @ show_nat (ReplyStatus resp)), w)
     else
       answered (web_post env ''http://127.0.0.1:8080/api/v1/commands'' ''application/json'' e2e_command w)
         ''Failed to queue command via API'' (\<lambda>resp w.
       if ReplyStatus resp \<noteq> 200
       then (fail (''Command Queue API returned status '' @ show_nat (ReplyStatus resp)), w)
       else (Ok (), w)))))))"

text \<open>A fatal exit skips the deferred calls, so the server is only stopped after a success.\<close>

definition e2e_main :: "'w e2e_env \<Rightarrow> 'w \<Rightarrow> unit outcome \<times> 'w" where
  "e2e_main env w =
     (case read_ca env ''../certs/out/ca.crt'' of
        Err e \<Rightarrow> (Err (fatal ''Failed to read CA cert'' e), w)
      | Panic \<Rightarrow> (Panic, w)
      | Ok _ \<Rightarrow>
     (case load_key_pair env ''../certs/out/client_DEV-ESP32-001.crt'' ''../certs/out/client_DEV-ESP32-001.key'' of
        Err e \<Rightarrow> (Err (fatal ''Failed to load client cert'' e), w)
      | Panic \<Rightarrow> (Panic, w)
      | Ok _ \<Rightarrow>
     (case start_server env w of
        (Err e, w1) \<Rightarrow> (Err (fatal ''Failed to start server'' e), w1)
      | (Panic, w1) \<Rightarrow> (Panic, w1)
      | (Ok _, w1) \<Rightarrow>
     (case await_healthy env 20 w1 of
        (False, w2) \<Rightarrow> (Err (OtherError ''[FATAL] Server did not become healthy in time.''), w2)
      | (True, w2) \<Rightarrow>
          (case e2e_checks env (run_simulators env e2e_flags w2) of
             (Ok _, w3) \<Rightarrow> (Ok (), stop_server env w3)
           | r \<Rightarrow> r)))))"

end
