(* ===== verification/E2e_Properties.thy ===== *)
theory E2e_Properties
  imports E2e_Runner
begin

text \<open>
  The runner against the server: what it reads from the answers, and that it passes for every
  order in which the two simulators take their cycles.
\<close>

section \<open>Reading any value\<close>

lemma decimal_mag_finite:
  assumes "m \<le> 2 ^ 64"
  shows "decimal_mag m 0 < f64_inf_mag"
proof -
  define M :: nat where "M = 1086 * 2 ^ 52 + 2 ^ 52"
  have "mag_value 52 M = 2 ^ 52 * 2 ^ 1086"
    unfolding M_def by (rule mag_value_shift) (simp_all only: order_refl simp_thms power_Suc, simp)
  also have "\<dots> = 2 ^ 64 * 2 ^ 1074" by (simp only: power_add[symmetric]) simp
  finally have "m * 2 ^ 1074 \<le> mag_value 52 M * 1"
    using assms by (simp only: mult_1_right mult_le_mono1)
  then have "nearest_mag (m * 2 ^ 1074) 1 \<le> M" by (intro nearest_mag_le) simp_all
  also have "M < f64_inf_mag" by (simp add: M_def f64_inf_mag_def)
  finally show ?thesis by (simp only: decimal_mag_def order_refl if_True nat_zero_as_int[symmetric] nat_0 power_0 mult_1_right)
qed

lemma ParseFloat_int:
  assumes "\<bar>i\<bar> \<le> 2 ^ 64"
  shows "ParseFloat (int_number i) \<noteq> None"
proof -
  have "nat \<bar>i\<bar> \<le> 2 ^ 64" using assms by simp
  from decimal_mag_finite[OF this] show ?thesis
    by (simp add: ParseFloat_def int_number_def frac_digits_def number_exp_def)
qed

definition readable :: "json_tree \<Rightarrow> bool" where
  "readable t \<longleftrightarrow> dec_any t \<noteq> None"

lemma those_readable: "(\<forall>x \<in> set xs. x \<noteq> None) \<Longrightarrow> those xs \<noteq> None"
  by (induction xs) auto

lemma readable_simps [simp]:
  "readable TNull" "readable (TBool b)" "readable (TStr s)"
  "readable (TNum n) \<longleftrightarrow> ParseFloat n \<noteq> None"
  by (simp_all add: readable_def)

lemma readable_object: "(\<forall>kv \<in> set kvs. readable (snd kv)) \<Longrightarrow> readable (TObj kvs)"
  using those_readable[of "map (\<lambda>kv. map_option (Pair (fst kv)) (dec_any (snd kv))) kvs"] by (auto simp: readable_def)

lemma readable_numbers [simp]:
  "ParseFloat (int_number (uint (n :: u32))) \<noteq> None" "ParseFloat (int_number (sint (i :: i32))) \<noteq> None"
  "ParseFloat (int_number (sint (j :: i64))) \<noteq> None"
proof -
  show "ParseFloat (int_number (uint n)) \<noteq> None"
    using unsigned_less[where ?'a = int, of n] by (intro ParseFloat_int) simp
  show "ParseFloat (int_number (sint i)) \<noteq> None"
    using sint_greater_eq[of i] sint_less[of i] by (intro ParseFloat_int) simp
  show "ParseFloat (int_number (sint j)) \<noteq> None"
    using sint_greater_eq[of j] sint_less[of j] by (intro ParseFloat_int) simp
qed

lemma readable_value: "value_ok n v \<Longrightarrow> readable (tree_any v)"
  by (simp add: readable_def dec_tree_any)

lemma readable_map: "map_ok n m \<Longrightarrow> readable (tree_map m)"
  using readable_value[of n] by (auto simp: map_ok_def tree_map_def simp del: tree_any.simps split: option.splits)

lemma readable_metrics: "metrics_ok n m \<Longrightarrow> readable (tree_metrics m)"
  using readable_map[of n "CustomValues m"] unfolding tree_metrics_def
  by (intro readable_object) (auto simp: optional_def metrics_ok_def ParseFloat_float_number)

lemma readable_header: "readable (tree_header h)"
  unfolding tree_header_def by (intro readable_object) (auto simp: optional_def)

lemma readable_status: "readable (tree_status s)"
  unfolding tree_status_def by (intro readable_object) (auto simp: optional_def)

lemma readable_payload: "payload_ok n p \<Longrightarrow> readable (tree_payload p)"
  using readable_header readable_metrics[of n "Metrics p"] readable_status unfolding tree_payload_def
  by (intro readable_object) (auto simp: payload_ok_def split: option.splits)

lemma slice_read:
  assumes "tree_ok 0 (TArr ts)" and "map (\<lambda>t. dec t zero) ts = map Some xs"
  shows "unmarshal_slice err dec zero (json_Encode (TArr ts)) = Ok xs"
proof -
  have "map2 dec ts (replicate (length ts) zero) = map (\<lambda>t. dec t zero) ts" by (simp add: zip_replicate2 comp_def)
  with assms(2) have "those (map2 dec ts (replicate (length ts) zero)) = Some xs" by (simp only: those_eq)
  with assms(1) show ?thesis
    by (simp add: unmarshal_slice_def json_Encode_def json_parse_line dec_array_def del: tree_ok.simps)
qed

lemma read_any_history:
  assumes "list_all (payload_ok 3) ps"
  shows "\<exists>vs. unmarshal_slice err (\<lambda>t _. dec_any t) JNull (json_Encode (tree_history (Some ps))) = Ok vs \<and> length vs = length ps"
proof -
  have "tree_ok 0 (TArr (map tree_payload ps))"
    using assms by (auto simp: list_all_iff max_nesting_def numeral_3_eq_3 intro!: tree_payload_ok)
  moreover have "\<forall>t \<in> set (map tree_payload ps). readable t"
    using assms readable_payload by (auto simp: list_all_iff)
  then have "those (map dec_any (map tree_payload ps)) \<noteq> None" by (intro those_readable) (simp add: readable_def)
  then obtain vs where vs: "map dec_any (map tree_payload ps) = map Some vs" by (auto simp: those_eq)
  then have "length vs = length ps" by (metis length_map)
  ultimately show ?thesis using slice_read[of "map tree_payload ps" "\<lambda>t _. dec_any t" JNull vs err] vs
    by (simp add: tree_history_def tree_slice_def)
qed

section \<open>Reading the device list\<close>

lemma fold_device_names:
  "fold_name ''last_seen_at'' = ''LAST_SEEN_AT''" "fold_name ''last_seq_no'' = ''LAST_SEQ_NO''"
  "fold_name ''last_metrics'' = ''LAST_METRICS''" "fold_name ''last_status'' = ''LAST_STATUS''"
  "fold_name ''total_telemetries'' = ''TOTAL_TELEMETRIES''"
  "fold_name ''pending_commands_count'' = ''PENDING_COMMANDS_COUNT''"
  "fold_name ''current_interval_sec'' = ''CURRENT_INTERVAL_SEC''"
  by (simp_all add: fold_name_ascii upper_def char_of_eq_iff)

definition e2e_view :: "device_state \<Rightarrow> e2e_device" where
  "e2e_view d = \<lparr>E2eDeviceID = DevID d, E2eFirmware = DevFirmware d, E2eLastSeenAt = rfc3339 (LastSeenAt d),
     E2eLastSeqNo = LastSeqNo d, E2eStatus = DevStatus d, E2eTotal = TotalTelemetries d\<rparr>"

lemma dec_u64_total: "dec_u64 (TNum (int_number (uint n))) old = Some n"
proof -
  have "unat n < 2 ^ 64" using unsigned_less[where ?'a = nat, of n] by simp
  from ParseUint_nat[OF this] show ?thesis by (simp add: dec_u64_def)
qed

lemma read_e2e_device: "dec_struct e2e_member (tree_device d) zero_e2e_device = Some (e2e_view d)"
  by (simp add: tree_device_def dec_struct_fill e2e_member_def reading fold_device_names zero_e2e_device_def e2e_view_def
      dec_u64_total)

lemma digits_ascii: "c \<in> set (show_nat n) \<Longrightarrow> byte_of c < 0x80"
  using digits_show_nat[of n] by (auto simp: digits_def is_digit_def)

lemma padded_ascii: "c \<in> set (padded k n) \<Longrightarrow> byte_of c < 0x80"
  using digits_ascii by (auto simp: pad_zeros_def)

lemma rfc3339_utf8: "valid_utf8 (rfc3339 t)"
proof -
  have "byte_of c < 0x80" if "c \<in> set (rev (dropWhile (\<lambda>c. c = CHR ''0'') (rev (padded 9 n))))" for c n
    using that by (auto dest!: set_dropWhileD padded_ascii)
  then show ?thesis
    by (intro valid_ascii) (auto simp: rfc3339_def Let_def case_prod_beta dest: padded_ascii split: if_splits)
qed

definition entry_ok :: "device_state \<Rightarrow> bool" where
  "entry_ok d \<longleftrightarrow> valid_utf8 (DevID d) \<and> valid_utf8 (DevFirmware d) \<and> valid_utf8 (DevStatus d) \<and>
     metrics_ok 3 (LastMetrics d) \<and> (case LastStatus d of None \<Rightarrow> True | Some s \<Rightarrow> valid_utf8 (State s))"

lemma tree_device_ok: "entry_ok d \<Longrightarrow> tree_ok 1 (tree_device d)"
  using tree_metrics_ok[of 2 "LastMetrics d"] tree_status_ok[of 2]
  by (auto simp: tree_device_def entry_ok_def max_nesting_def valid_ascii number_ok_int rfc3339_utf8 numeral_2_eq_2 numeral_3_eq_3
      split: option.splits)

lemma read_devices:
  assumes "list_all entry_ok ds"
  shows "unmarshal_slice err (dec_struct e2e_member) zero_e2e_device (json_Encode (tree_devices (Some ds))) = Ok (map e2e_view ds)"
proof -
  have "tree_ok 0 (TArr (map tree_device ds))"
    using assms tree_device_ok by (auto simp: list_all_iff max_nesting_def)
  moreover have "map (\<lambda>t. dec_struct e2e_member t zero_e2e_device) (map tree_device ds) = map Some (map e2e_view ds)"
    by (simp add: read_e2e_device)
  ultimately show ?thesis unfolding tree_devices_def tree_slice_def option.case by (rule slice_read)
qed

section \<open>The answers of the server\<close>

definition web_url :: gostring where
  "web_url = ''http://127.0.0.1:8080''"

definition e2e_world ::
  "'s server \<Rightarrow> (nat \<Rightarrow> nat \<Rightarrow> time) \<Rightarrow> certificate \<Rightarrow> (u8 list \<Rightarrow> go_error) \<Rightarrow>
     (sim_flags list \<Rightarrow> 's api_state \<times> nat \<Rightarrow> 's api_state \<times> nat) \<Rightarrow> ('s api_state \<times> nat) e2e_env"
where
  "e2e_world srv clk cert err sims =
     \<lparr>read_ca = (\<lambda>_. Ok ()), load_key_pair = (\<lambda>_ _. Ok ()), start_server = Pair (Ok ()), stop_server = (\<lambda>w. w),
      mtls_get = edge_send srv clk cert ''GET'' [] [],
      web_get = http_send web_url (\<lambda>n. web_serve srv (clk n)) None ''GET'' [] [],
      web_post = (\<lambda>url ctype body. http_send web_url (\<lambda>n. web_serve srv (clk n)) None ''POST'' ctype body url),
      run_simulators = sims, json_error = err\<rparr>"

lemma get_health:
  "\<exists>r. edge_send srv clk cert ''GET'' [] [] ''https://127.0.0.1:8443/healthz'' (st, n) = (Inr r, st, Suc n) \<and> ReplyStatus r = 200"
proof -
  have "ServeMux edge_routes ''/healthz'' = Dispatch Health" by code_simp
  then show ?thesis
    by (simp add: edge_send_eq edge_url_def edge_serve_def url_path_def serve_endpoint_def HandleHealth_def reply_def json_response_def)
qed

lemma get_devices:
  fixes order env url mtls fs
  defines "srv \<equiv> mem_server order env url mtls fs"
  assumes "list_all device_encodable (elements (ListDevices (mem_ops order) (repo_state st)))"
  shows "edge_send srv clk cert ''GET'' [] [] ''https://127.0.0.1:8443/api/v1/devices'' (st, n) =
    (Inr \<lparr>ReplyStatus = 200, ReplyBody = json_Encode (tree_devices (Some (elements (ListDevices (mem_ops order) (repo_state st))))), ReplyError = None\<rparr>,
     st, Suc n)"
proof -
  let ?req = "device_request ''GET'' [] [] cert ''https://127.0.0.1:8443/api/v1/devices''"
  have req: "Path ?req = ''/api/v1/devices''" "PeerCertificates ?req = Some [cert]" by (simp_all add: url_path_def edge_url_def)
  have "prefix edge_url ''https://127.0.0.1:8443/api/v1/devices''" by (simp add: edge_url_def)
  with edge_serve_cert[of ?req DevicesEndpoint cert srv "clk n" st] req edge_routes_of_device(3) assms(2)
  show ?thesis
    by (simp add: edge_send_eq serve_endpoint_def srv_def HandleListDevices_def encoded_def reply_def json_response_def body_bytes_def
        mem_ops_def[of order, THEN arg_cong[of _ _ ListDevices]])
qed

lemma get_history:
  fixes order env url mtls fs st
  defines "srv \<equiv> mem_server order env url mtls fs"
    and "ps \<equiv> newest 50 (slice_of (telemetries (repo_state st)) ''DEV-ESP32-001'')"
  assumes "list_all payload_encodable ps"
  shows "edge_send srv clk cert ''GET'' [] [] ''https://127.0.0.1:8443/api/v1/telemetry/history?device_id=DEV-ESP32-001'' (st, n) =
    (Inr \<lparr>ReplyStatus = 200, ReplyBody = json_Encode (tree_history (Some ps)), ReplyError = None\<rparr>, st, Suc n)"
proof -
  let ?url = "''https://127.0.0.1:8443/api/v1/telemetry/history?device_id=DEV-ESP32-001''"
  let ?req = "device_request ''GET'' [] [] cert ?url"
  have "url_query ''/api/v1/telemetry/history?device_id=DEV-ESP32-001'' = [(''device_id'', ''DEV-ESP32-001'')]" by code_simp
  then have q: "query_Get (Query ?req) ''device_id'' = ''DEV-ESP32-001''"
    by (simp add: device_request_def client_request_def edge_url_def query_Get_def)
  have req: "Path ?req = ''/api/v1/telemetry/history''" "PeerCertificates ?req = Some [cert]" by (simp_all add: url_path_def edge_url_def)
  have "prefix edge_url ?url" by (simp add: edge_url_def)
  with edge_serve_cert[of ?req HistoryEndpoint cert srv "clk n" st] req q edge_routes_of_device(4) assms(3)
  show ?thesis
    by (simp add: edge_send_eq serve_endpoint_def srv_def ps_def HandleTelemetryHistory_def history_newest encoded_def reply_def
        json_response_def body_bytes_def)
qed

lemma get_dashboard:
  assumes "\<forall>req. Path req = ''/'' \<longrightarrow> StatusCode (fs (FileServer ''./web'') req) = 200"
  shows "\<exists>r. http_send web_url (\<lambda>n. web_serve (mem_server order env url mtls fs) (clk n)) None ''GET'' [] [] ''http://127.0.0.1:8080/'' (st, n) =
    (Inr r, st, Suc n) \<and> ReplyStatus r = 200"
proof -
  have "ServeMux web_routes ''/'' = Dispatch (FileServer ''./web'')" by code_simp
  with assms show ?thesis
    by (simp add: http_send_def web_url_def web_serve_def client_request_def url_path_def serve_endpoint_def mem_server_def reply_def)
qed

lemma e2e_command_tree:
  "tree_any (JObject [(''device_id'', JString ''DEV-ESP32-001''), (''action'', JString ''CONFIG_UPDATE''),
      (''params'', JObject [(''sleep_interval_sec'', JInt 10)])]) =
    TObj [(''action'', TStr ''CONFIG_UPDATE''), (''device_id'', TStr ''DEV-ESP32-001''),
      (''params'', TObj [(''sleep_interval_sec'', TNum (int_number 10))])]"
  by code_simp

lemma read_e2e_command:
  "\<exists>x. json_Decode err queue_member \<lparr>QueueDevice = [], QueueAction = [], QueueParams = None\<rparr> (Ok e2e_command) =
    Ok \<lparr>QueueDevice = ''DEV-ESP32-001'', QueueAction = ''CONFIG_UPDATE'', QueueParams = Some [(''sleep_interval_sec'', JNumber x)]\<rparr>"
proof -
  let ?params = "TObj [(''sleep_interval_sec'', TNum (int_number 10))]"
  let ?t = "TObj [(''action'', TStr ''CONFIG_UPDATE''), (''device_id'', TStr ''DEV-ESP32-001''), (''params'', ?params)]"
  have "ParseFloat (int_number 10) \<noteq> None" by (rule ParseFloat_int) simp
  then obtain x where x: "ParseFloat (int_number 10) = Some x" by blast
  have ok: "tree_ok 0 ?t" by (simp add: valid_ascii number_ok_int max_nesting_def)
  have m: "dec_map ?params None = Some (Some [(''sleep_interval_sec'', JNumber x)])" by (simp add: dec_map_def x)
  have "dec_struct queue_member ?t \<lparr>QueueDevice = [], QueueAction = [], QueueParams = None\<rparr> =
      Some \<lparr>QueueDevice = ''DEV-ESP32-001'', QueueAction = ''CONFIG_UPDATE'', QueueParams = Some [(''sleep_interval_sec'', JNumber x)]\<rparr>"
    by (simp add: dec_struct_fill queue_member_def reading m)
  with json_parse_first_text[OF ok] show ?thesis
    by (simp add: json_Decode_def e2e_command_def e2e_command_tree json_Marshal_def)
qed

lemma post_command:
  fixes order alloc oor sha err url mtls fs
  defines "srv \<equiv> json_server order alloc oor sha err url mtls fs"
  shows "\<exists>r st' cid x. http_send web_url (\<lambda>n. web_serve srv (clk n)) None ''POST'' ''application/json'' e2e_command
      ''http://127.0.0.1:8080/api/v1/commands'' (st, n) = (Inr r, st', Suc n) \<and> ReplyStatus r = 200 \<and>
    pending_of st' ''DEV-ESP32-001'' = pending_of st ''DEV-ESP32-001'' @
      [\<lparr>CommandID = cid, Action = ''CONFIG_UPDATE'', Params = Some [(''sleep_interval_sec'', JNumber x)]\<rparr>]"
proof -
  let ?env = "json_env alloc oor sha err"
  let ?req = "client_request ''POST'' ''application/json'' e2e_command None ''/api/v1/commands''"
  obtain x where x: "json_Decode err queue_member \<lparr>QueueDevice = [], QueueAction = [], QueueParams = None\<rparr> (Ok e2e_command) =
      Ok \<lparr>QueueDevice = ''DEV-ESP32-001'', QueueAction = ''CONFIG_UPDATE'', QueueParams = Some [(''sleep_interval_sec'', JNumber x)]\<rparr>"
    using read_e2e_command by blast
  then have "queues ?env ?req \<lparr>QueueDevice = ''DEV-ESP32-001'', QueueAction = ''CONFIG_UPDATE'',
      QueueParams = Some [(''sleep_interval_sec'', JNumber x)]\<rparr>"
    by (simp add: queues_def client_request_def)
  from mem_queue[OF this, where order = order and url = url and clk = "clk n" and ctx = background_context and st = st]
  obtain resp st' where h: "HandleQueueCommand (mem_api order ?env url) ?env (clk n) background_context ?req st = Some (Ok resp, st')"
    "StatusCode resp = 200"
    "pending_of st' ''DEV-ESP32-001'' = pending_of st ''DEV-ESP32-001'' @
      [\<lparr>CommandID = command_id (clk n 0), Action = ''CONFIG_UPDATE'', Params = Some [(''sleep_interval_sec'', JNumber x)]\<rparr>]"
    by (auto simp: pending_queue queued_command_def)
  have "ServeMux web_routes ''/api/v1/commands'' = Dispatch CommandsEndpoint" by code_simp
  with h show ?thesis
    by (simp add: http_send_def web_url_def web_serve_def client_request_def url_path_def serve_endpoint_def srv_def reply_def)
qed

section \<open>The devices after the run\<close>

lemma sim_stored_ok:
  assumes "sim_payload_ok rep"
  shows "payload_ok 3 (sim_telemetry rep)"
  using assms by (simp add: payload_ok_def metrics_ok_def sim_telemetry_def sim_payload_ok_def map_ok_def)

lemma entry_after_run:
  assumes "added clk dev m [] tr" and "0 < m" and "valid_utf8 dev" and "\<forall>j. time_encodable (clk j 0)"
  obtains d where "spec_device dev tr = Ok d" and "entry_ok d" and "device_encodable d" and "DevFirmware d = last_firmware dev tr"
proof -
  obtain now p where last: "last (saves dev tr) = (now, p)" by (cases "last (saves dev tr)")
  have ne: "saves dev tr \<noteq> []" using assms(1,2) by (auto simp: added_def)
  then have "(now, p) \<in> set (saves dev tr)" using last last_in_set by metis
  then obtain j rep where "now = clk j 0" "sim_payload_ok rep" "p = sim_telemetry rep" using assms(1) by (fastforce simp: added_def)
  then have p: "payload_ok 3 p" "time_encodable now" using sim_stored_ok assms(4) by simp_all
  then have "metrics_encodable (Metrics p)" using payload_ok_encodable by blast
  then show ?thesis
    using that ne last p assms(3)
    by (auto simp: spec_device_def entry_ok_def device_encodable_def payload_ok_def header_ok_def valid_ascii last_firmware_def
        split: option.splits)
qed

lemma fleet_devices:
  fixes order tr
  defines "devs \<equiv> elements (ListDevices (mem_ops order) (mem_run tr))"
  assumes order: "\<forall>ks. set (order ks) = set ks" and clock: "\<forall>j. time_encodable (clk j 0)"
    and names: "\<forall>dev \<in> names. valid_utf8 dev \<and> added clk dev m [] tr \<and> last_firmware dev tr = ''1.1.0''" "0 < m"
    and others: "untouched names [] tr"
  shows "list_all entry_ok devs" and "list_all device_encodable devs" and "list_all (\<lambda>d. DevFirmware d = ''1.1.0'') devs"
    and "finite names \<Longrightarrow> card names \<le> length devs"
proof -
  have eq: "map Ok devs = map (\<lambda>dev. spec_device dev tr) (order (seen_ids tr))"
    unfolding devs_def using memory_lists_devices[of order tr] order by blast
  have ids: "dev \<in> set (order (seen_ids tr)) \<longleftrightarrow> dev \<in> names" for dev
    using names others order by (auto simp: seen_ids_set added_def untouched_def)
  have each: "entry_ok d \<and> device_encodable d \<and> DevFirmware d = ''1.1.0''" if "d \<in> set devs" for d
  proof -
    have "Ok d \<in> set (map Ok devs)" using that by simp
    then obtain dev where dev: "dev \<in> set (order (seen_ids tr))" "Ok d = spec_device dev tr" unfolding eq by auto
    then have n: "added clk dev m [] tr" "valid_utf8 dev" "last_firmware dev tr = ''1.1.0''" using names(1) by (simp_all add: ids)
    obtain e where "spec_device dev tr = Ok e" "entry_ok e" "device_encodable e" "DevFirmware e = last_firmware dev tr"
      by (rule entry_after_run[OF n(1) names(2) n(2) clock])
    with dev(2) n(3) show ?thesis by simp
  qed
  then show "list_all entry_ok devs" "list_all device_encodable devs" "list_all (\<lambda>d. DevFirmware d = ''1.1.0'') devs"
    by (auto simp: list_all_iff)
  show "finite names \<Longrightarrow> card names \<le> length devs"
  proof -
    have "length devs = length (order (seen_ids tr))" using eq by (metis length_map)
    moreover have "set (order (seen_ids tr)) = names" using ids by blast
    ultimately show "card names \<le> length devs" using card_length by metis
  qed
qed

section \<open>Property\<close>

definition created :: "sim_flags \<Rightarrow> simulated_device \<Rightarrow> bool" where
  "created f d \<longleftrightarrow> (\<exists>r1 r2 r3. unit_float r1 \<and> unit_float r2 \<and> r3 < 300 \<and>
     NewSimulatedDevice (Ok ()) (Ok ()) r1 r2 r3 (flag_id f) (flag_cert f) (flag_key f) (flag_server f) = Ok d)"

lemma created_ready:
  assumes "created f d" and "CommonName cert = flag_id f" and "flag_server f = edge_url" and "valid_utf8 (flag_id f)"
  shows "ready cert d"
  using assms new_device by (auto simp: created_def ready_def valid_ascii)

lemma e2e_flags_fields:
  "map flag_id e2e_flags = [''DEV-ESP32-001'', ''DEV-STM32-002'']" "f \<in> set e2e_flags \<Longrightarrow> flag_server f = edge_url"
  by (auto simp: e2e_flags_def default_flags_def edge_url_def)

lemma created_fleet_ready:
  assumes "map CommonName certs = map flag_id e2e_flags" and "list_all2 created e2e_flags ds"
  shows "list_all2 ready certs ds"
proof (rule list_all2_all_nthI)
  have len: "length certs = length e2e_flags" using assms(1) by (metis length_map)
  then show "length certs = length ds" using list_all2_lengthD[OF assms(2)] by simp
  fix k assume k: "k < length certs"
  then have "CommonName (certs ! k) = flag_id (e2e_flags ! k)" using assms(1) len by (metis nth_map)
  moreover have "created (e2e_flags ! k) (ds ! k)" using list_all2_nthD[OF assms(2)] k len by simp
  moreover have "e2e_flags ! k \<in> set e2e_flags" using k len by simp
  moreover from this have "flag_id (e2e_flags ! k) \<in> set (map flag_id e2e_flags)" by simp
  then have "valid_utf8 (flag_id (e2e_flags ! k))" unfolding e2e_flags_fields by (auto simp: valid_ascii)
  ultimately show "ready (certs ! k) (ds ! k)" using created_ready e2e_flags_fields(2) by blast
qed

text \<open>Everything after the simulators.\<close>

lemma checks_pass:
  fixes order alloc oor sha err url mtls fs clk
  defines "srv \<equiv> json_server order alloc oor sha err url mtls fs"
  assumes order: "\<forall>ks. set (order ks) = set ks" and clock: "\<forall>j. time_encodable (clk j 0)"
    and page: "\<forall>req. Path req = ''/'' \<longrightarrow> StatusCode (fs (FileServer ''./web'') req) = 200"
    and st: "repo_state st = mem_run tr"
    and names: "\<forall>dev \<in> set (map flag_id e2e_flags). added clk dev 3 [] tr \<and> last_firmware dev tr = ''1.1.0''"
    and others: "untouched (set (map flag_id e2e_flags)) [] tr"
  shows "\<exists>st' n' cid x. e2e_checks (e2e_world srv clk cert err sims) (st, n) = (Ok (), st', n') \<and>
    pending_of st' ''DEV-ESP32-001'' = pending_of st ''DEV-ESP32-001'' @
      [\<lparr>CommandID = cid, Action = ''CONFIG_UPDATE'', Params = Some [(''sleep_interval_sec'', JNumber x)]\<rparr>]"
proof -
  let ?names = "set (map flag_id e2e_flags)" and ?devs = "elements (ListDevices (mem_ops order) (repo_state st))"
  have n: "\<forall>dev \<in> ?names. valid_utf8 dev \<and> added clk dev 3 [] tr \<and> last_firmware dev tr = ''1.1.0''"
    using names by (auto simp: e2e_flags_fields valid_ascii)
  have three: "0 < (3 :: nat)" by simp
  note devs = fleet_devices[OF order clock n three others, folded st]
  have two: "2 \<le> length ?devs" using devs(4) by (simp add: e2e_flags_fields)
  have dev_check: "check_devices err (json_Encode (tree_devices (Some ?devs))) = Ok ()"
  proof -
    have "List.find outdated (map e2e_view ?devs) = None"
      using devs(3) by (auto simp: find_None_iff outdated_def e2e_view_def list_all_iff)
    with two show ?thesis by (simp add: check_devices_def read_devices[OF devs(1)])
  qed
  let ?hist = "slice_of (telemetries (repo_state st)) ''DEV-ESP32-001''"
  have "added clk ''DEV-ESP32-001'' 3 [] tr" using names by (simp add: e2e_flags_fields)
  then have hist: "length ?hist = 3" "list_all (payload_ok 3) ?hist"
    by (auto simp: st run_telemetries added_def list_all_iff intro!: sim_stored_ok)
  then have new: "newest 50 ?hist = ?hist" by (simp add: newest_def)
  have enc: "list_all payload_encodable (newest 50 ?hist)"
    unfolding new using hist(2) by (auto simp: list_all_iff payload_encodable_def intro: payload_ok_encodable)
  have hist_check: "check_history err (json_Encode (tree_history (Some (newest 50 ?hist)))) = Ok ()"
    using read_any_history[OF hist(2), of err] hist(1) unfolding new by (auto simp: check_history_def)
  note steps = get_devices[OF devs(2), where env = "json_env alloc oor sha err" and url = url and mtls = mtls and fs = fs and
      clk = clk and cert = cert, folded srv_def]
    get_history[OF enc, where order = order and env = "json_env alloc oor sha err" and url = url and mtls = mtls and fs = fs and
      clk = clk and cert = cert, folded srv_def]
  obtain r1 where web: "http_send web_url (\<lambda>n. web_serve srv (clk n)) None ''GET'' [] [] ''http://127.0.0.1:8080/'' (st, Suc (Suc n)) =
      (Inr r1, st, Suc (Suc (Suc n)))" "ReplyStatus r1 = 200"
    using get_dashboard[where fs = fs, OF page] unfolding srv_def by blast
  obtain r2 st' cid x where post: "http_send web_url (\<lambda>n. web_serve srv (clk n)) None ''POST'' ''application/json'' e2e_command
      ''http://127.0.0.1:8080/api/v1/commands'' (st, Suc (Suc (Suc n))) = (Inr r2, st', Suc (Suc (Suc (Suc n))))"
      "ReplyStatus r2 = 200"
    "pending_of st' ''DEV-ESP32-001'' = pending_of st ''DEV-ESP32-001'' @
      [\<lparr>CommandID = cid, Action = ''CONFIG_UPDATE'', Params = Some [(''sleep_interval_sec'', JNumber x)]\<rparr>]"
    using post_command[of order alloc oor sha err url mtls fs clk st "Suc (Suc (Suc n))"] unfolding srv_def by blast
  have "e2e_checks (e2e_world srv clk cert err sims) (st, n) = (Ok (), st', Suc (Suc (Suc (Suc n))))"
    by (simp add: e2e_checks_def e2e_world_def answered_def then_do_def steps dev_check hist_check web post)
  with post(3) show ?thesis by blast
qed

text \<open>
  C3: The end-to-end test passes. On a fresh server with the in-memory repository, whatever
  readings the two simulators draw and in whatever order they take their cycles, the runner finds
  every device of the list on firmware 1.1.0, three records in the history and the dashboard, and
  queues its command, which is then the only one pending.
\<close>

theorem e2e_passes:
  fixes order alloc oor sha err url mtls fs clk certs url_ok dr sims
  defines "srv \<equiv> json_server order alloc oor sha err url mtls fs"
    and "st0 \<equiv> initial_state NewInMemoryRepository"
  assumes "valid_utf8 (sha firmware_image)" and "url_ok (edge_url @ ''/api/v1/commands/ack'')"
    and "\<forall>k i. draws_ok (dr k i)" and "\<forall>j. time_encodable (clk j 0)" and "\<forall>ks. set (order ks) = set ks"
    and "\<forall>req. Path req = ''/'' \<longrightarrow> StatusCode (fs (FileServer ''./web'') req) = 200"
    and "map CommonName certs = map flag_id e2e_flags" and "list_all2 created e2e_flags ds"
    and "(fleet_step (fleet_envs srv clk certs url_ok err dr) 1 3)\<^sup>*\<^sup>* (map (Running 0 0) ds, st0, 1) (ps, sims e2e_flags (st0, 1))"
    and "list_all exited ps"
  shows "\<exists>st' n' cid x. e2e_main (e2e_world srv clk (hd certs) err sims) (st0, 0) = (Ok (), st', n') \<and>
    pending_of st' ''DEV-ESP32-001'' =
      [\<lparr>CommandID = cid, Action = ''CONFIG_UPDATE'', Params = Some [(''sleep_interval_sec'', JNumber x)]\<rparr>]"
proof -
  let ?envs = "fleet_envs srv clk certs url_ok err dr"
  have names: "distinct (map CommonName certs)" by (simp add: assms(9) e2e_flags_fields)
  have st0: "repo_state st0 = mem_run []" by (simp add: st0_def initial_state_def)
  have cmds: "\<forall>cert \<in> set certs. list_all command_ok (outstanding (CommonName cert) [])" by simp
  have three: "0 < (3 :: nat)" "1 < (3 :: nat)" "int 3 = 3" by simp_all
  obtain st n where w: "sims e2e_flags (st0, 1) = (st, n)" by fastforce
  then obtain s where run: "(fleet_step ?envs 1 (int 3) ^^ s) (map (Running 0 0) ds, st0, 1) (ps, st, n)"
    using rtranclp_imp_relpowp[OF assms(11)] unfolding w three by blast
  obtain tr where tr: "repo_state st = mem_run tr" "untouched (CommonName ` set certs) [] tr"
    "\<forall>dev \<in> CommonName ` set certs. added clk dev 3 [] tr \<and> last_firmware dev tr = ''1.1.0'' \<and> outstanding dev tr = []"
    using fleet_finished[where sha = sha and url_ok = url_ok and dr = dr and certs = certs and old = "[]" and m = 3 and
      order = order and alloc = alloc and oor = oor and err = err and url = url and mtls = mtls and fs = fs and clk = clk
      and iv = 1, folded srv_def, OF assms(3-5) names cmds created_fleet_ready[OF assms(9,10)] st0 three(2) run assms(12)] by blast
  have ids: "CommonName ` set certs = set (map flag_id e2e_flags)" by (simp add: assms(9)[symmetric])
  have added: "\<forall>dev \<in> set (map flag_id e2e_flags). added clk dev 3 [] tr \<and> last_firmware dev tr = ''1.1.0''"
    and none: "pending_of st ''DEV-ESP32-001'' = []"
    using tr(3) unfolding ids by (simp_all add: e2e_flags_fields tr(1) run_commands)
  have un: "untouched (set (map flag_id e2e_flags)) [] tr" using tr(2) by (simp only: ids)
  from checks_pass[where order = order and clk = clk and fs = fs and st = st and tr = tr and alloc = alloc and oor = oor and
      sha = sha and err = err and url = url and mtls = mtls and cert = "hd certs" and sims = sims and n = n, folded srv_def,
      OF assms(7,6,8) tr(1) added un] none
  obtain st' n' cid x where c: "e2e_checks (e2e_world srv clk (hd certs) err sims) (st, n) = (Ok (), st', n')"
    "pending_of st' ''DEV-ESP32-001'' =
      [\<lparr>CommandID = cid, Action = ''CONFIG_UPDATE'', Params = Some [(''sleep_interval_sec'', JNumber x)]\<rparr>]" by auto
  let ?E = "e2e_world srv clk (hd certs) err sims"
  obtain r where "edge_send srv clk (hd certs) ''GET'' [] [] ''https://127.0.0.1:8443/healthz'' (st0, 0) = (Inr r, st0, Suc 0)"
    "ReplyStatus r = 200" using get_health by blast
  then have "await_healthy ?E (Suc 19) (st0, 0) = (True, st0, 1)"
    by (subst await_healthy.simps) (simp add: e2e_world_def)
  then have "e2e_main ?E (st0, 0) = (Ok (), st', n')"
    using c(1) w by (simp add: e2e_main_def e2e_world_def)
  with c(2) show ?thesis by blast
qed

text \<open>Two new devices, and a run of them.\<close>

definition new_sim :: "sim_flags \<Rightarrow> simulated_device" where
  "new_sim f = (case NewSimulatedDevice (Ok ()) (Ok ()) 0 0 0 (flag_id f) (flag_cert f) (flag_key f) (flag_server f) of Ok d \<Rightarrow> d)"

lemma new_sim_created: "created f (new_sim f)"
  unfolding created_def
  by (rule exI[of _ 0], rule exI[of _ 0], rule exI[of _ 0])
     (use demo_draws_ok(1) in \<open>simp add: new_sim_def NewSimulatedDevice_def\<close>)

theorem e2e_passes_witness:
  "\<exists>sims st' n' cid x. e2e_main (e2e_world (json_server rev 1024 (\<lambda>_. 0) id (\<lambda>_. EOF) [] True
        (\<lambda>_ _. \<lparr>StatusCode = 200, Headers = [], RespBody = NoBody\<rparr>)) (\<lambda>_ _. 0) demo_cert (\<lambda>_. EOF) sims)
      (initial_state NewInMemoryRepository, 0) = (Ok (), st', n') \<and>
    pending_of st' ''DEV-ESP32-001'' =
      [\<lparr>CommandID = cid, Action = ''CONFIG_UPDATE'', Params = Some [(''sleep_interval_sec'', JNumber x)]\<rparr>]"
proof -
  let ?st = "initial_state NewInMemoryRepository" and ?certs = "[demo_cert, demo_cert2]" and ?ds = "map new_sim e2e_flags"
  let ?fs = "\<lambda>(_ :: endpoint) (_ :: http_request). \<lparr>StatusCode = 200, Headers = [], RespBody = NoBody\<rparr>"
  let ?clk = "\<lambda>(_ :: nat) (_ :: nat). 0 :: int"
  let ?srv = "json_server rev 1024 (\<lambda>_. 0) id (\<lambda>_. EOF) [] True ?fs"
  let ?envs = "fleet_envs ?srv ?clk ?certs (\<lambda>_. True) (\<lambda>_. EOF) (\<lambda>_ _. demo_draws)"
  have sha: "valid_utf8 (id firmware_image)" by (simp add: firmware_image_def valid_ascii)
  have draws: "\<forall>(k :: nat) (i :: nat). draws_ok demo_draws" using demo_draws_ok(2) by (simp add: demo_sim_env_def)
  have names: "map CommonName ?certs = map flag_id e2e_flags" "distinct (map CommonName ?certs)"
    by (simp_all add: demo_cert_def demo_cert2_def e2e_flags_fields)
  have made: "list_all2 created e2e_flags ?ds" by (simp add: list_all2_conv_all_nth new_sim_created)
  have two: "length e2e_flags = 2" by (simp add: e2e_flags_def)
  have rdy: "list_all2 ready ?certs ?ds"
  proof -
    have "ready demo_cert (new_sim (e2e_flags ! 0))" "ready demo_cert2 (new_sim (e2e_flags ! 1))"
      by (rule created_ready[OF new_sim_created]; simp add: e2e_flags_def demo_cert_def demo_cert2_def default_flags_def edge_url_def valid_ascii)+
    then show ?thesis by (simp add: e2e_flags_def)
  qed
  have none: "\<forall>cert \<in> set ?certs. list_all command_ok (outstanding (CommonName cert) [])" by simp
  have tr: "repo_state ?st = mem_run []" by (simp add: initial_state_def)
  have six: "0 < (3 :: nat)" "6 \<le> 3 * length ?ds" "6 = 3 * length ?ds" by (simp_all add: two)
  obtain ps st' n' where run: "(fleet_step ?envs 1 (int 3) ^^ 6) (map (Running 0 0) ?ds, ?st, 1) (ps, st', n')"
    using fleet_can_run[where sha = id and url_ok = "\<lambda>_. True" and dr = "\<lambda>_ _. demo_draws" and certs = ?certs and old = "[]" and
        m = 3 and order = rev and alloc = 1024 and oor = "\<lambda>_. 0" and err = "\<lambda>_. EOF" and url = "[]" and mtls = True and
        fs = ?fs and clk = ?clk and iv = 1 and s = 6 and n = 1, OF sha TrueI draws names(2) none rdy tr six(1,2)]
    by (metis prod.exhaust)
  have "list_all exited ps"
  proof -
    from fleet_inv_run[where sha = id and url_ok = "\<lambda>_. True" and dr = "\<lambda>_ _. demo_draws" and certs = ?certs and old = "[]" and
        m = 3 and order = rev and alloc = 1024 and oor = "\<lambda>_. 0" and err = "\<lambda>_. EOF" and url = "[]" and mtls = True and
        fs = ?fs and clk = ?clk and iv = 1 and s = 6 and n = 1, OF sha TrueI draws names(2) none rdy tr six(1) run]
    obtain tr where "list_all2 (proc_inv ?clk 3 [] tr) ?certs ps" "sum_list (map cycles_of ps) = 6" by (auto simp: fleet_inv_def)
    with cycles_bound(2) list_all2_lengthD show ?thesis by fastforce
  qed
  moreover have "(fleet_step ?envs 1 3)\<^sup>*\<^sup>* (map (Running 0 0) ?ds, ?st, 1) (ps, st', n')"
    using relpowp_imp_rtranclp[OF run] by simp
  moreover have "time_encodable 0" by (simp add: time_encodable_def)
  ultimately show ?thesis
    using e2e_passes[where sha = id and url_ok = "\<lambda>_. True" and dr = "\<lambda>_ _. demo_draws" and certs = ?certs and order = rev and
        alloc = 1024 and oor = "\<lambda>_. 0" and err = "\<lambda>_. EOF" and url = "[]" and mtls = True and fs = ?fs and clk = ?clk and
        ds = ?ds and ps = ps and sims = "\<lambda>_ _. (st', n')", OF sha TrueI draws _ _ _ names(1) made]
    by simp blast
qed

end
