(* ===== verification/Concurrent.thy ===== *)
theory Concurrent
  imports Server
begin

text \<open>
  Requests that are handled at the same time. Each runs in a goroutine of its own, and what they
  share is behind locks: the repository, whose methods hold its lock, and the map of sleep
  settings, which has its own. A goroutine is modelled by the point it has reached, and a step
  goes on to the next point with at most one access to shared state; everything else it does is
  local to the request.
\<close>

section \<open>The points of a handler\<close>

text \<open>A handler that makes a single access is one step, \<open>Alone\<close>. \<open>HandleTelemetry\<close> saves, records its
  alerts, reads the sleep setting, polls the commands and writes a setting for each of them;
  \<open>HandleQueueCommand\<close> writes a setting and then queues.\<close>

datatype 's thread =
    Alone "'s api_state \<Rightarrow> 's api_state handled"
  | Saving telemetry_payload
  | Recording telemetry_payload "alert_event list" nat
  | ReadingSleep telemetry_payload
  | Polling telemetry_payload u32
  | Configuring telemetry_payload "device_command list" "device_command list" u32
  | SettingSleep queue_request
  | Queueing queue_request
  | Finished "http_response outcome"
  | Hung

definition telemetry_result ::
  "'s api_handler \<Rightarrow> (nat \<Rightarrow> time) \<Rightarrow> telemetry_payload \<Rightarrow> device_command list \<Rightarrow> u32 \<Rightarrow> api_response"
where
  "telemetry_result h clk p cmds sec = \<lparr>RespStatus = ''OK'', RespMessage = ''Telemetry accepted'',
     ServerTime = unix_seconds (clk 2), SleepIntervalSec = (if BatteryLevelPct (Metrics p) < 20 then 300 else sec),
     OTA = ota_offer h p, Commands = cmds\<rparr>"

definition queue_result :: "(nat \<Rightarrow> time) \<Rightarrow> queue_request \<Rightarrow> unit outcome \<Rightarrow> http_response outcome" where
  "queue_result clk q queued =
     (case queued of
        Panic \<Rightarrow> Panic
      | Err e \<Rightarrow> Ok (writeError (clk 2) 500 ''ERROR'' (''Failed to queue command: '' @ error_text e))
      | Ok _ \<Rightarrow> Ok (json_response 200 (FieldsBody
          [(''action'', QueueAction q), (''command_id'', command_id (clk 0)),
           (''device_id'', QueueDevice q), (''status'', ''QUEUED'')])))"

fun thread_step ::
  "'s api_handler \<Rightarrow> go_env \<Rightarrow> (nat \<Rightarrow> time) \<Rightarrow> 's thread \<times> 's api_state \<Rightarrow> 's thread \<times> 's api_state"
where
  "thread_step h env clk (Alone f, st) =
     (case f st of None \<Rightarrow> (Hung, st) | Some (r, st') \<Rightarrow> (Finished r, st'))"
| "thread_step h env clk (Saving p, st) =
     (let (saved, s1) = SaveTelemetry (repo h) (clk 0) p (repo_state st)
      in (case saved of
            Panic \<Rightarrow> Finished Panic
          | Err e \<Rightarrow> Finished (Ok (writeError (clk 1) 500 ''STORAGE_ERROR'' ''Internal storage error''))
          | Ok _ \<Rightarrow> Recording p (evaluate_rules (thresholds (ruleEngine h)) (unix_seconds (clk 3)) p) 4,
          st\<lparr>repo_state := s1\<rparr>))"
| "thread_step h env clk (Recording p [] n, st) = (ReadingSleep p, st)"
| "thread_step h env clk (Recording p (alt # alts) n, st) =
     (let (r, s1) = (case engine_repo (ruleEngine h) of
                       None \<Rightarrow> (Ok (), repo_state st)
                     | Some ops \<Rightarrow> SaveEvent ops (clk n) (alert_record (Header p) alt) (repo_state st))
      in case r of
           Panic \<Rightarrow> (Finished Panic, st\<lparr>repo_state := s1\<rparr>)
         | _ \<Rightarrow> (Recording p alts (Suc n), st\<lparr>repo_state := s1,
                  webhook_calls := SendAlertAsync (webhookURL (ruleEngine h)) alt (webhook_calls st)\<rparr>))"
| "thread_step h env clk (ReadingSleep p, st) =
     (Polling p (sleep_setting (deviceSleepConfigs st) (DeviceID (Header p))), st)"
| "thread_step h env clk (Polling p sec, st) =
     (let (pending, s') = GetPendingCommands (repo h) (clk 1) (DeviceID (Header p)) (repo_state st);
          cmds = (case pending of Ok cmds \<Rightarrow> cmds | _ \<Rightarrow> [])
      in (case pending of Panic \<Rightarrow> Finished Panic | _ \<Rightarrow> Configuring p cmds cmds sec, st\<lparr>repo_state := s'\<rparr>))"
| "thread_step h env clk (Configuring p cmds [] sec, st) =
     (let resp = telemetry_result h clk p cmds sec
      in (Finished (Ok (json_response 200 (encoded (response_encodable resp) (ResponseBody resp)))), st))"
| "thread_step h env clk (Configuring p cmds (cmd # left) sec, st) =
     (case config_interval env (Action cmd) (Params cmd) of
        Some v \<Rightarrow> (Configuring p cmds left v,
          st\<lparr>deviceSleepConfigs := (deviceSleepConfigs st)(DeviceID (Header p) \<mapsto> v)\<rparr>)
      | None \<Rightarrow> (Configuring p cmds left sec, st))"
| "thread_step h env clk (SettingSleep q, st) =
     (Queueing q, case config_interval env (QueueAction q) (QueueParams q) of
        Some v \<Rightarrow> st\<lparr>deviceSleepConfigs := (deviceSleepConfigs st)(QueueDevice q \<mapsto> v)\<rparr>
      | None \<Rightarrow> st)"
| "thread_step h env clk (Queueing q, st) =
     (let cmd = \<lparr>CommandID = command_id (clk 0), Action = QueueAction q, Params = QueueParams q\<rparr>;
          (queued, s') = QueueCommand (repo h) (clk 1) (QueueDevice q) cmd (repo_state st)
      in (Finished (queue_result clk q queued), st\<lparr>repo_state := s'\<rparr>))"
| "thread_step h env clk (Finished r, st) = (Finished r, st)"
| "thread_step h env clk (Hung, st) = (Hung, st)"

section \<open>Where a request starts\<close>

definition start_telemetry :: "go_env \<Rightarrow> (nat \<Rightarrow> time) \<Rightarrow> request_context \<Rightarrow> http_request \<Rightarrow> 's thread" where
  "start_telemetry env clk ctx req =
     (if Method req \<noteq> ''POST'' then Finished (Ok (http_Error 405 ''Method Not Allowed''))
      else
        case Body req of
          Panic \<Rightarrow> Finished Panic
        | Err e \<Rightarrow> Finished (Ok (writeError (clk 0) 400 ''INVALID_PAYLOAD'' ''Failed to read request body''))
        | Ok body \<Rightarrow>
            (case decode_telemetry_body env req body of
               None \<Rightarrow> Hung
             | Some Crashed \<Rightarrow> Finished Panic
             | Some (Rejected msg) \<Rightarrow> Finished (Ok (writeError (clk 0) 400 ''INVALID_PAYLOAD'' msg))
             | Some (Decoded p) \<Rightarrow>
                 if fst (GetAuthenticatedDeviceID ctx) \<noteq> [] \<and> DeviceID (Header p) \<noteq> fst (GetAuthenticatedDeviceID ctx)
                 then Finished (Ok (writeError (clk 0) 403 ''UNAUTHORIZED''
                        ''Device ID in payload does not match client certificate''))
                 else Saving p))"

definition start_queue :: "go_env \<Rightarrow> (nat \<Rightarrow> time) \<Rightarrow> http_request \<Rightarrow> 's thread" where
  "start_queue env clk req =
     (if Method req \<noteq> ''POST'' then Finished (Ok (writeError (clk 0) 405 ''METHOD_NOT_ALLOWED'' ''Only POST allowed''))
      else
        case decode_queue_request env (Body req) of
          Panic \<Rightarrow> Finished Panic
        | Err e \<Rightarrow> Finished (Ok (writeError (clk 0) 400 ''INVALID_PARAM'' ''Invalid command payload''))
        | Ok q \<Rightarrow>
            if QueueDevice q = [] \<or> QueueAction q = []
            then Finished (Ok (writeError (clk 0) 400 ''INVALID_PARAM'' ''Invalid command payload''))
            else SettingSleep q)"

definition start_endpoint ::
  "'s server \<Rightarrow> (nat \<Rightarrow> time) \<Rightarrow> endpoint \<Rightarrow> request_context \<Rightarrow> http_request \<Rightarrow> 's thread"
where
  "start_endpoint srv clk ep ctx req =
     (if ep = TelemetryEndpoint then start_telemetry (machine srv) clk ctx req
      else if ep = CommandsEndpoint then start_queue (machine srv) clk req
      else Alone (serve_endpoint srv clk ep ctx req))"

text \<open>The multiplexer and the middleware touch no shared state.\<close>

definition start_request :: "'s server \<Rightarrow> listener \<Rightarrow> (nat \<Rightarrow> time) \<Rightarrow> http_request \<Rightarrow> 's thread" where
  "start_request srv l clk req =
     (case ServeMux (case l of Edge \<Rightarrow> edge_routes | Dashboard \<Rightarrow> web_routes) (Path req) of
        Redirect url \<Rightarrow> Finished (Ok (redirect_response url))
      | NotFound \<Rightarrow> Finished (Ok (http_Error 404 ''404 page not found''))
      | Dispatch ep \<Rightarrow>
          if l = Dashboard \<or> ep = Health then start_endpoint srv clk ep background_context req
          else (case peer_certificate req of
                  Some c \<Rightarrow> start_endpoint srv clk ep
                    (background_context\<lparr>DeviceIDKey := Some (CommonName c), CertKey := Some c\<rparr>) req
                | None \<Rightarrow>
                    if requireMTLS srv
                    then Finished (Ok (json_response 401 (ResponseBody (zero_response\<lparr>RespStatus := ''UNAUTHORIZED'',
                           RespMessage := ''mTLS client certificate required''\<rparr>))))
                    else start_endpoint srv clk ep (background_context\<lparr>DeviceIDKey := Some ''DEV-ESP32-001''\<rparr>) req))"

section \<open>A request on its own\<close>

definition leads_to :: "('a \<Rightarrow> 'a) \<Rightarrow> 'a \<Rightarrow> 'a \<Rightarrow> bool" where
  "leads_to f x y \<longleftrightarrow> (\<exists>k. (f ^^ k) x = y)"

lemma leads_refl: "leads_to f x x"
  unfolding leads_to_def by (rule exI[of _ 0]) simp

lemma leads_step: "leads_to f (f x) y \<Longrightarrow> leads_to f x y"
  unfolding leads_to_def by (metis funpow_simps_right(2) comp_apply)

lemma leads_trans: "leads_to f x y \<Longrightarrow> leads_to f y z \<Longrightarrow> leads_to f x z"
  unfolding leads_to_def by (metis funpow_add comp_apply)

text \<open>What a thread that runs alone has done when it ends, as the value of a handler.\<close>

definition ends_as :: "'s thread \<Rightarrow> 's api_state \<Rightarrow> 's api_state handled \<Rightarrow> bool" where
  "ends_as t st h = (case h of None \<Rightarrow> t = Hung | Some (r, st') \<Rightarrow> t = Finished r \<and> st = st')"

definition runs_as ::
  "'s server \<Rightarrow> (nat \<Rightarrow> time) \<Rightarrow> 's thread \<Rightarrow> 's api_state \<Rightarrow> 's api_state handled \<Rightarrow> bool"
where
  "runs_as srv clk t st h \<longleftrightarrow>
     (\<exists>t' st'. leads_to (thread_step (api srv) (machine srv) clk) (t, st) (t', st') \<and> ends_as t' st' h)"

lemma runs_now: "runs_as srv clk (Finished r) st (Some (r, st))" "runs_as srv clk Hung st None"
  unfolding runs_as_def ends_as_def by (intro exI conjI, rule leads_refl, simp)+

lemma runs_step:
  "runs_as srv clk (fst (thread_step (api srv) (machine srv) clk (t, st))) (snd (thread_step (api srv) (machine srv) clk (t, st))) h \<Longrightarrow>
    runs_as srv clk t st h"
  unfolding runs_as_def using leads_step[of "thread_step (api srv) (machine srv) clk" "(t, st)"] by (metis prod.collapse)

lemma alone_runs: "runs_as srv clk (Alone f) st (f st)"
  by (rule runs_step) (simp add: runs_now split: option.split)

lemma configuring_runs:
  "runs_as srv clk (Configuring p cmds left sec) st
     (let (sec', configs) = apply_commands (machine srv) (DeviceID (Header p)) left (sec, deviceSleepConfigs st);
          resp = telemetry_result (api srv) clk p cmds sec'
      in Some (Ok (json_response 200 (encoded (response_encodable resp) (ResponseBody resp))),
               st\<lparr>deviceSleepConfigs := configs\<rparr>))"
proof (induction left arbitrary: sec st)
  case Nil
  then show ?case by (rule runs_step) (simp add: Let_def runs_now)
next
  case (Cons cmd left)
  show ?case
  proof (cases "config_interval (machine srv) (Action cmd) (Params cmd)")
    case None
    with Cons.IH[of sec st] show ?thesis by (intro runs_step[where t = "Configuring p cmds (cmd # left) sec"]) simp
  next
    case (Some v)
    with Cons.IH[of v "st\<lparr>deviceSleepConfigs := (deviceSleepConfigs st)(DeviceID (Header p) \<mapsto> v)\<rparr>"]
    show ?thesis by (intro runs_step[where t = "Configuring p cmds (cmd # left) sec"]) (simp del: fun_upd_apply)
  qed
qed

lemma polling_runs:
  "runs_as srv clk (Polling p (sleep_setting (deviceSleepConfigs st) (DeviceID (Header p)))) st
     (respond_telemetry (api srv) (machine srv) (\<lambda>n. clk (n + 1)) p st)"
proof -
  obtain pending s' where g: "GetPendingCommands (repo (api srv)) (clk 1) (DeviceID (Header p)) (repo_state st) = (pending, s')"
    by fastforce
  let ?sec = "sleep_setting (deviceSleepConfigs st) (DeviceID (Header p))" and ?st = "st\<lparr>repo_state := s'\<rparr>"
  let ?cmds = "case pending of Ok cmds \<Rightarrow> cmds | _ \<Rightarrow> []"
  have two: "clk (Suc (Suc 0)) = clk 2" by (simp add: numeral_2_eq_2)
  show ?thesis
  proof (rule runs_step, cases pending)
    case Panic
    then show "runs_as srv clk (fst (thread_step (api srv) (machine srv) clk (Polling p ?sec, st)))
        (snd (thread_step (api srv) (machine srv) clk (Polling p ?sec, st)))
        (respond_telemetry (api srv) (machine srv) (\<lambda>n. clk (n + 1)) p st)"
      using g by (simp add: respond_telemetry_def runs_now)
  qed (use configuring_runs[of srv clk p ?cmds ?cmds ?sec ?st] g in
      \<open>simp_all add: respond_telemetry_def Let_def case_prod_beta telemetry_result_def two cong: if_cong\<close>)
qed

lemma dispatch_append:
  "dispatch_alerts e clk h alts (s, xs @ ys) =
     (case dispatch_alerts e clk h alts (s, ys) of (r, s', zs) \<Rightarrow> (r, s', xs @ zs))"
  by (induction alts arbitrary: clk s ys) (auto simp: SendAlertAsync_def Let_def split: prod.split outcome.split option.split)

lemma recording_runs:
  "runs_as srv clk (Recording p alts n) st
     (let (r, s', calls) = dispatch_alerts (ruleEngine (api srv)) (\<lambda>k. clk (n + k)) (Header p) alts (repo_state st, webhook_calls st);
          st' = st\<lparr>repo_state := s', webhook_calls := calls\<rparr>
      in case r of
           Panic \<Rightarrow> Some (Panic, st')
         | _ \<Rightarrow> respond_telemetry (api srv) (machine srv) (\<lambda>n. clk (n + 1)) p st')"
proof (induction alts arbitrary: n st)
  case Nil
  have "runs_as srv clk (ReadingSleep p) st (respond_telemetry (api srv) (machine srv) (\<lambda>n. clk (n + 1)) p st)"
    using polling_runs by (intro runs_step[where t = "ReadingSleep p"]) simp
  then show ?case by (intro runs_step[where t = "Recording p [] n"]) simp
next
  case (Cons alt alts)
  let ?e = "ruleEngine (api srv)"
  obtain r s1 where w: "(case engine_repo ?e of None \<Rightarrow> (Ok (), repo_state st)
      | Some ops \<Rightarrow> SaveEvent ops (clk n) (alert_record (Header p) alt) (repo_state st)) = (r, s1)" by fastforce
  let ?st = "st\<lparr>repo_state := s1, webhook_calls := SendAlertAsync (webhookURL ?e) alt (webhook_calls st)\<rparr>"
  have clk: "(\<lambda>k. clk (n + k)) \<circ> Suc = (\<lambda>k. clk (Suc n + k))" by auto
  have go: "dispatch_alerts ?e (\<lambda>k. clk (n + k)) (Header p) (alt # alts) (repo_state st, webhook_calls st) =
      (if r = Panic then (Panic, s1, webhook_calls st)
       else dispatch_alerts ?e (\<lambda>k. clk (Suc n + k)) (Header p) alts (repo_state ?st, webhook_calls ?st))"
    using w by (cases "engine_repo ?e"; cases r) (simp_all add: clk)
  show ?case
  proof (cases "r = Panic")
    case True
    then show ?thesis using w go by (intro runs_step[where t = "Recording p (alt # alts) n"]) (simp add: runs_now)
  next
    case False
    then have "thread_step (api srv) (machine srv) clk (Recording p (alt # alts) n, st) = (Recording p alts (Suc n), ?st)"
      using w by (cases r) simp_all
    with Cons.IH[of "Suc n" ?st] go False show ?thesis
      by (intro runs_step[where t = "Recording p (alt # alts) n"]) simp
  qed
qed

lemma saving_runs: "runs_as srv clk (Saving p) st (accept_telemetry (api srv) (machine srv) clk p st)"
proof -
  let ?e = "ruleEngine (api srv)" and ?h = "api srv"
  obtain saved s1 where save: "SaveTelemetry (repo ?h) (clk 0) p (repo_state st) = (saved, s1)" by fastforce
  let ?st = "st\<lparr>repo_state := s1\<rparr>" and ?alerts = "evaluate_rules (thresholds ?e) (unix_seconds (clk 3)) p"
  show ?thesis
  proof (cases saved)
    case (Ok u)
    obtain r s2 started where d: "dispatch_alerts ?e (\<lambda>k. clk (4 + k)) (Header p) ?alerts (s1, []) = (r, s2, started)"
      by (cases "dispatch_alerts ?e (\<lambda>k. clk (4 + k)) (Header p) ?alerts (s1, [])")
    have clk: "(\<lambda>n. clk (n + 3)) \<circ> Suc = (\<lambda>k. clk (4 + k))" by (auto simp: comp_def numeral_eq_Suc)
    have "EvaluateAndAlert ?e (\<lambda>n. clk (n + 3)) p s1 = (bind_outcome r (\<lambda>_. Ok ?alerts), s2, started)"
      using d by (simp add: EvaluateAndAlert_def clk)
    then have acc: "accept_telemetry ?h (machine srv) clk p st =
        (if r = Panic then Some (Panic, ?st\<lparr>repo_state := s2, webhook_calls := webhook_calls st @ started\<rparr>)
         else respond_telemetry ?h (machine srv) (\<lambda>n. clk (n + 1)) p
           (?st\<lparr>repo_state := s2, webhook_calls := webhook_calls st @ started\<rparr>))"
      using save Ok by (cases r) (simp_all add: accept_telemetry_def Let_def)
    have "dispatch_alerts ?e (\<lambda>k. clk (4 + k)) (Header p) ?alerts (repo_state ?st, webhook_calls ?st) =
        (r, s2, webhook_calls st @ started)"
      using dispatch_append[of ?e _ "Header p" ?alerts s1 "webhook_calls st" "[]"] d by simp
    with recording_runs[of srv clk p ?alerts 4 ?st] acc
    have "runs_as srv clk (Recording p ?alerts 4) ?st (accept_telemetry ?h (machine srv) clk p st)"
      by (cases r) simp_all
    then show ?thesis using save Ok by (intro runs_step[where t = "Saving p"]) simp
  qed (use save in \<open>intro runs_step[where t = "Saving p"], simp add: accept_telemetry_def runs_now\<close>)+
qed

lemma telemetry_runs:
  "runs_as srv clk (start_telemetry (machine srv) clk ctx req) st (HandleTelemetry (api srv) (machine srv) clk ctx req st)"
  by (auto simp: start_telemetry_def HandleTelemetry_def runs_now saving_runs Let_def
      split: outcome.splits option.splits decoded_body.splits)

lemma queue_runs:
  "runs_as srv clk (start_queue (machine srv) clk req) st (HandleQueueCommand (api srv) (machine srv) clk ctx req st)"
proof (cases "\<exists>q. Method req = ''POST'' \<and> decode_queue_request (machine srv) (Body req) = Ok q \<and> QueueDevice q \<noteq> [] \<and> QueueAction q \<noteq> []")
  case True
  then obtain q where q: "Method req = ''POST''" "decode_queue_request (machine srv) (Body req) = Ok q"
    "QueueDevice q \<noteq> []" "QueueAction q \<noteq> []" by blast
  let ?st = "case config_interval (machine srv) (QueueAction q) (QueueParams q) of
      Some v \<Rightarrow> st\<lparr>deviceSleepConfigs := (deviceSleepConfigs st)(QueueDevice q \<mapsto> v)\<rparr> | None \<Rightarrow> st"
  let ?cmd = "\<lparr>CommandID = command_id (clk 0), Action = QueueAction q, Params = QueueParams q\<rparr>"
  obtain queued s' where call: "QueueCommand (repo (api srv)) (clk 1) (QueueDevice q) ?cmd (repo_state ?st) = (queued, s')" by fastforce
  have "HandleQueueCommand (api srv) (machine srv) clk ctx req st = Some (queue_result clk q queued, ?st\<lparr>repo_state := s'\<rparr>)"
    using q call by (cases queued) (simp_all add: HandleQueueCommand_def queue_result_def Let_def)
  moreover have "runs_as srv clk (Queueing q) ?st (Some (queue_result clk q queued, ?st\<lparr>repo_state := s'\<rparr>))"
    by (rule runs_step) (use call in \<open>simp add: runs_now\<close>)
  then have "runs_as srv clk (SettingSleep q) st (Some (queue_result clk q queued, ?st\<lparr>repo_state := s'\<rparr>))"
    by (intro runs_step[where t = "SettingSleep q"]) simp
  ultimately show ?thesis using q by (simp add: start_queue_def)
qed (auto simp: start_queue_def HandleQueueCommand_def runs_now split: outcome.splits)

lemma endpoint_runs:
  "runs_as srv clk (start_endpoint srv clk ep ctx req) st (serve_endpoint srv clk ep ctx req st)"
proof -
  consider (telemetry) "ep = TelemetryEndpoint" | (queue) "ep = CommandsEndpoint"
    | (other) "ep \<noteq> TelemetryEndpoint" "ep \<noteq> CommandsEndpoint" by blast
  then show ?thesis
  proof cases
    case telemetry
    then show ?thesis by (simp add: start_endpoint_def serve_endpoint_def telemetry_runs)
  next
    case queue
    then show ?thesis by (simp add: start_endpoint_def serve_endpoint_def queue_runs)
  qed (simp add: start_endpoint_def alone_runs)
qed

lemma request_runs: "runs_as srv clk (start_request srv l clk req) st (serve srv l clk req st)"
  by (cases l)
     (simp_all add: start_request_def serve_def edge_serve_def web_serve_def middleware_cases runs_now endpoint_runs
       split: mux_result.split option.split)

section \<open>Requests at the same time\<close>

text \<open>The goroutines of the server, each with the readings of the clock that it will make. A request
  arrives, or one of the goroutines takes a step.\<close>

inductive conc_run ::
  "'s server \<Rightarrow> 's api_state \<Rightarrow> (listener \<times> http_request) list \<Rightarrow> ((nat \<Rightarrow> time) \<times> 's thread) list \<Rightarrow> 's api_state \<Rightarrow> bool"
  for srv :: "'s server" and st0 :: "'s api_state"
where
  start: "conc_run srv st0 [] [] st0"
| arrive: "conc_run srv st0 reqs pool st \<Longrightarrow>
    conc_run srv st0 (reqs @ [(l, req)]) (pool @ [(clk, start_request srv l clk req)]) st"
| step: "conc_run srv st0 reqs pool st \<Longrightarrow> k < length pool \<Longrightarrow> pool ! k = (clk, t) \<Longrightarrow>
    thread_step (api srv) (machine srv) clk (t, st) = (t', st') \<Longrightarrow>
    conc_run srv st0 reqs (pool[k := (clk, t')]) st'"

text \<open>Handling the requests one after the other is one of these runs.\<close>

lemma conc_steps:
  assumes "conc_run srv st0 reqs (pool @ [(clk, t)]) st"
    and "leads_to (thread_step (api srv) (machine srv) clk) (t, st) (t', st')"
  shows "conc_run srv st0 reqs (pool @ [(clk, t')]) st'"
proof -
  obtain n where "(thread_step (api srv) (machine srv) clk ^^ n) (t, st) = (t', st')" using assms(2) by (auto simp: leads_to_def)
  then show ?thesis
  proof (induction n arbitrary: t' st')
    case (Suc n)
    obtain t1 st1 where one: "(thread_step (api srv) (machine srv) clk ^^ n) (t, st) = (t1, st1)" by fastforce
    with Suc.prems have last: "thread_step (api srv) (machine srv) clk (t1, st1) = (t', st')" by simp
    from conc_run.step[OF Suc.IH[OF one] _ _ last, of "length pool"] show ?case by simp
  qed (use assms(1) in simp)
qed

lemma sequential_run:
  assumes "server_run srv st0 reqs st"
  shows "\<exists>pool. conc_run srv st0 reqs pool st \<and> (\<forall>(clk, t) \<in> set pool. \<exists>r. t = Finished r)"
  using assms
proof (induction rule: server_run.induct)
  case start
  show ?case by (intro exI[of _ "[]"]) (simp add: conc_run.start)
next
  case (request reqs st l clk req res st')
  then obtain pool where pool: "conc_run srv st0 reqs pool st" "\<forall>(clk, t) \<in> set pool. \<exists>r. t = Finished r" by blast
  from request_runs[of srv clk l req st] request.hyps(2)
  have "leads_to (thread_step (api srv) (machine srv) clk) (start_request srv l clk req, st) (Finished res, st')"
    by (auto simp: runs_as_def ends_as_def)
  from conc_steps[OF conc_run.arrive[OF pool(1)] this] pool(2) show ?case by fastforce
qed

end
