(* ===== verification/Concurrent_Properties.thy ===== *)
theory Concurrent_Properties
  imports Concurrent
begin

text \<open>
  What holds however the requests are interleaved: the in-memory repository is always what some
  sequence of operations leaves, every answer to a report is consistent with one moment of that
  sequence, and no request can keep another from ending.
\<close>

section \<open>The invariant\<close>

text \<open>The answer to an accepted report carries an update offer; no other answer does.\<close>

definition accepted :: "http_response \<Rightarrow> api_response option" where
  "accepted resp = (case RespBody resp of ResponseBody r \<Rightarrow> if OTA r = None then None else Some r | _ \<Rightarrow> None)"

definition stored :: "repo_op list \<Rightarrow> telemetry_payload \<Rightarrow> bool" where
  "stored tr p \<longleftrightarrow> (\<exists>now. Saved now p \<in> set tr)"

text \<open>At some moment after the payload was stored, these were the commands of its device.\<close>

definition polled :: "repo_op list \<Rightarrow> telemetry_payload \<Rightarrow> device_command list \<Rightarrow> bool" where
  "polled tr p cmds \<longleftrightarrow> (\<exists>tr1 tr2. tr = tr1 @ tr2 \<and> stored tr1 p \<and> cmds = outstanding (DeviceID (Header p)) tr1)"

definition quiet :: "(mem_repo api_state \<Rightarrow> mem_repo api_state handled) \<Rightarrow> bool" where
  "quiet f \<longleftrightarrow> (\<forall>st res st'. f st = Some (res, st') \<longrightarrow>
     (\<exists>ops. repo_state st' = fold mem_step ops (repo_state st) \<and> no_saves ops) \<and>
     (case res of Ok resp \<Rightarrow> accepted resp = None | _ \<Rightarrow> True))"

definition thread_inv ::
  "mem_repo api_handler \<Rightarrow> bool \<Rightarrow> go_env \<Rightarrow> (listener \<times> http_request) list \<Rightarrow> repo_op list \<Rightarrow> mem_repo thread \<Rightarrow> bool"
where
  "thread_inv h mtls env reqs tr t =
     (case t of
        Alone f \<Rightarrow> quiet f
      | Saving p \<Rightarrow> \<exists>(l, req) \<in> set reqs. vouches mtls l req (DeviceID (Header p)) \<and> carries env req p
      | Recording p _ _ \<Rightarrow> stored tr p
      | ReadingSleep p \<Rightarrow> stored tr p
      | Polling p _ \<Rightarrow> stored tr p
      | Configuring p cmds _ _ \<Rightarrow> polled tr p cmds
      | Finished (Ok resp) \<Rightarrow>
          (case accepted resp of None \<Rightarrow> True | Some r \<Rightarrow> \<exists>p. polled tr p (Commands r) \<and> OTA r = ota_offer h p)
      | _ \<Rightarrow> True)"

lemma stored_append: "stored tr p \<Longrightarrow> stored (tr @ ops) p"
  by (auto simp: stored_def)

lemma polled_append: "polled tr p cmds \<Longrightarrow> polled (tr @ ops) p cmds"
  unfolding polled_def by (metis append.assoc)

lemma thread_inv_append: "thread_inv h mtls env reqs tr t \<Longrightarrow> thread_inv h mtls env (reqs @ rest) (tr @ ops) t"
  using stored_append polled_append
  by (fastforce simp: thread_inv_def split: thread.splits outcome.splits option.splits)

lemma accepted_simps [simp]:
  "accepted (writeError now code status msg) = None" "accepted (http_Error code' msg') = None"
  "accepted (redirect_response url) = None" "accepted (json_response code (encoded e (DevicesBody ds))) = None"
  "accepted (json_response code (encoded e (HistoryBody ps))) = None" "accepted (json_response code (FieldsBody kvs)) = None"
  "accepted (json_response code (TextBody txt)) = None"
  "accepted (json_response code (ResponseBody r)) = (if OTA r = None then None else Some r)"
  by (simp_all add: accepted_def writeError_def json_response_def http_Error_def redirect_response_def encoded_def zero_response_def)

lemma endpoint_quiet:
  assumes "ep \<noteq> TelemetryEndpoint" and "\<forall>ep req. accepted (fs ep req) = None"
  shows "quiet (serve_endpoint (mem_server order env url mtls fs) clk ep ctx req)"
proof -
  have "accepted resp = None" if "serve_endpoint (mem_server order env url mtls fs) clk ep ctx req st = Some (Ok resp, st')" for resp st st'
    using that assms
    by (cases ep)
       (auto simp: serve_endpoint_def HandleHealth_def HandleEvents_def HandleListDevices_def HandleOtaDownload_def
          HandleTelemetryHistory_def HandleQueueCommand_def HandleAckCommand_def mem_server_def accepted_def[of "\<lparr>StatusCode = _, Headers = _, RespBody = _\<rparr>"]
          zero_response_def Let_def case_prod_beta split: if_splits outcome.splits option.splits)
  then show ?thesis
    using endpoint_effect[of order env url mtls fs clk ep ctx req] assms(1)
    by (fastforce simp: quiet_def split: outcome.split)
qed

lemma start_telemetry_saving:
  "start_telemetry env clk ctx req = Saving p \<Longrightarrow>
    carries env req p \<and> (authenticated_id ctx = [] \<or> DeviceID (Header p) = authenticated_id ctx)"
  by (auto simp: start_telemetry_def carries_def authenticated_id_def
      split: if_splits outcome.splits option.splits decoded_body.splits)

lemma start_telemetry_other:
  "(\<forall>p. start_telemetry env clk ctx req \<noteq> Saving p) \<Longrightarrow> thread_inv h mtls env' reqs tr (start_telemetry env clk ctx req)"
  by (auto simp: start_telemetry_def thread_inv_def split: if_splits outcome.splits option.splits decoded_body.splits)

lemma start_telemetry_inv:
  assumes "(l, req) \<in> set reqs"
    and "\<And>dev. authenticated_id ctx = [] \<or> dev = authenticated_id ctx \<Longrightarrow> vouches mtls l req dev"
  shows "thread_inv h mtls env reqs tr (start_telemetry env clk ctx req)"
proof (cases "\<exists>p. start_telemetry env clk ctx req = (Saving p :: mem_repo thread)")
  case True
  then obtain p where p: "start_telemetry env clk ctx req = (Saving p :: mem_repo thread)" by blast
  with start_telemetry_saving[OF p] assms show ?thesis
    unfolding p by (simp add: thread_inv_def) blast
qed (simp add: start_telemetry_other)

lemma start_queue_inv: "thread_inv h mtls env reqs tr (start_queue env clk req)"
  by (auto simp: start_queue_def thread_inv_def split: outcome.splits)

lemma start_endpoint_inv:
  fixes order env url mtls fs
  defines "srv \<equiv> mem_server order env url mtls fs"
  assumes "\<forall>ep req. accepted (fs ep req) = None" and "(l, req) \<in> set reqs"
    and "\<And>dev. ep = TelemetryEndpoint \<Longrightarrow> authenticated_id ctx = [] \<or> dev = authenticated_id ctx \<Longrightarrow> vouches mtls l req dev"
  shows "thread_inv h mtls env reqs tr (start_endpoint srv clk ep ctx req)"
proof (cases "ep = TelemetryEndpoint \<or> ep = CommandsEndpoint")
  case True
  have "machine srv = env" by (simp add: srv_def mem_server_def)
  with True assms(3,4) show ?thesis
    by (auto simp: start_endpoint_def intro: start_telemetry_inv start_queue_inv)
next
  case False
  with endpoint_quiet[of ep fs] assms(2) show ?thesis by (simp add: start_endpoint_def thread_inv_def srv_def)
qed

lemma start_inv:
  fixes order env url mtls fs
  defines "srv \<equiv> mem_server order env url mtls fs"
  assumes fs: "\<forall>ep req. accepted (fs ep req) = None" and req: "(l, req) \<in> set reqs"
  shows "thread_inv h mtls env reqs tr (start_request srv l clk req)"
proof -
  let ?routes = "case l of Edge \<Rightarrow> edge_routes | Dashboard \<Rightarrow> web_routes"
  have done': "accepted resp = None \<Longrightarrow> thread_inv h mtls env reqs tr (Finished (Ok resp))" for resp
    by (simp add: thread_inv_def)
  show ?thesis
  proof (cases "ServeMux ?routes (Path req)")
    case (Dispatch ep)
    have ids: "authenticated_id (background_context\<lparr>DeviceIDKey := Some dev\<rparr>) = dev"
      "authenticated_id (background_context\<lparr>DeviceIDKey := Some dev, CertKey := Some c\<rparr>) = dev" for dev c
      by (simp_all add: authenticated_id_def GetAuthenticatedDeviceID_def)
    consider (plain) "l = Dashboard \<or> ep = Health" | (cert) c where "l = Edge" "ep \<noteq> Health" "peer_certificate req = Some c"
      | (bypass) "l = Edge" "ep \<noteq> Health" "peer_certificate req = None" "\<not> mtls"
      | (refused) "l = Edge" "ep \<noteq> Health" "peer_certificate req = None" mtls
      by (cases l; cases "peer_certificate req") auto
    then show ?thesis
    proof cases
      case plain
      then have "ep \<noteq> TelemetryEndpoint" using Dispatch web_has_no_telemetry by (cases l) auto
      then have "thread_inv h mtls env reqs tr (start_endpoint srv clk ep background_context req)"
        unfolding srv_def by (intro start_endpoint_inv[OF fs req]) simp
      with plain Dispatch show ?thesis by (simp add: start_request_def)
    next
      case (cert c)
      then have "vouches mtls l req dev" if "CommonName c = [] \<or> dev = CommonName c" for dev
        using that by (auto simp: vouches_def)
      then have "thread_inv h mtls env reqs tr (start_endpoint srv clk ep
          (background_context\<lparr>DeviceIDKey := Some (CommonName c), CertKey := Some c\<rparr>) req)"
        unfolding srv_def by (intro start_endpoint_inv[OF fs req]) (simp add: ids)
      with cert Dispatch show ?thesis by (simp add: start_request_def)
    next
      case bypass
      then have "vouches mtls l req ''DEV-ESP32-001''" by (simp add: vouches_def)
      then have "thread_inv h mtls env reqs tr (start_endpoint srv clk ep
          (background_context\<lparr>DeviceIDKey := Some ''DEV-ESP32-001''\<rparr>) req)"
        unfolding srv_def by (intro start_endpoint_inv[OF fs req]) (auto simp: ids)
      moreover have "\<not> requireMTLS srv" using bypass by (simp add: srv_def mem_server_def)
      ultimately show ?thesis using bypass Dispatch by (simp add: start_request_def)
    next
      case refused
      moreover from this have "requireMTLS srv" by (simp add: srv_def mem_server_def)
      ultimately show ?thesis using Dispatch by (simp add: start_request_def thread_inv_def zero_response_def)
    qed
  qed (simp_all add: start_request_def done')
qed

lemma mem_run_append: "mem_run (tr @ ops) = fold mem_step ops (mem_run tr)"
  by (simp add: mem_run_def)

lemma step_inv:
  fixes order env url
  defines "h \<equiv> mem_api order env url"
  assumes st: "repo_state st = mem_run tr" and inv: "thread_inv h mtls env reqs tr t"
    and step: "thread_step h env clk (t, st) = (t', st')"
  shows "\<exists>ops. repo_state st' = mem_run (tr @ ops) \<and> thread_inv h mtls env reqs (tr @ ops) t' \<and>
    (\<forall>now p. Saved now p \<in> set ops \<longrightarrow> t = Saving p)"
proof -
  have stay: "?thesis" if "repo_state st' = repo_state st" "thread_inv h mtls env reqs tr t'"
    using that st by (intro exI[of _ "[]"]) simp
  have one: "?thesis" if "repo_state st' = mem_step x (repo_state st)" "thread_inv h mtls env reqs (tr @ [x]) t'"
      "\<forall>now p. x = Saved now p \<longrightarrow> t = Saving p" for x
    using that st by (intro exI[of _ "[x]"]) (auto simp: mem_run_append)
  show ?thesis
  proof (cases t)
    case (Alone f)
    then have q: "quiet f" using inv by (simp add: thread_inv_def)
    show ?thesis
    proof (cases "f st")
      case None
      with step Alone show ?thesis by (intro stay) (simp_all add: thread_inv_def)
    next
      case (Some rs)
      then obtain r where r: "f st = Some (r, st')" "t' = Finished r" using step Alone by (cases rs) simp
      with q obtain ops where "repo_state st' = fold mem_step ops (repo_state st)" "no_saves ops"
        "case r of Ok resp \<Rightarrow> accepted resp = None | _ \<Rightarrow> True" unfolding quiet_def by blast
      with r(2) st show ?thesis
        by (intro exI[of _ ops]) (auto simp: mem_run_append thread_inv_def split: outcome.splits)
    qed
  next
    case (Saving p)
    have "stored (tr @ [Saved (clk 0) p]) p" by (auto simp: stored_def)
    with step Saving show ?thesis
      by (intro one[of "Saved (clk 0) p"]) (auto simp: h_def thread_inv_def Let_def case_prod_beta split: outcome.splits)
  next
    case (Recording p alts n)
    then have "stored tr p" using inv by (simp add: thread_inv_def)
    then have p: "stored (tr @ [x]) p" for x by (rule stored_append)
    show ?thesis
    proof (cases alts)
      case Nil
      with step Recording inv show ?thesis by (intro stay) (auto simp: thread_inv_def)
    next
      case (Cons alt rest)
      with step Recording p show ?thesis
        by (intro one[of "Recorded (alert_record (Header p) alt)"])
           (auto simp: h_def thread_inv_def NewRuleEngine_def mem_SaveEvent_def)
    qed
  next
    case (ReadingSleep p)
    with step inv show ?thesis by (intro stay) (auto simp: thread_inv_def)
  next
    case (Polling p sec)
    then have "stored tr p" using inv by (simp add: thread_inv_def)
    then have "polled tr p (outstanding (DeviceID (Header p)) tr)"
      unfolding polled_def by (intro exI[of _ tr] exI[of _ "[]"]) simp
    moreover have "GetPendingCommands (repo h) now dev (repo_state st) = (Ok (outstanding dev tr), repo_state st)" for now dev
      by (simp add: h_def st pending_slice run_commands)
    ultimately show ?thesis using step Polling by (intro stay) (auto simp: thread_inv_def Let_def)
  next
    case (Configuring p cmds left sec)
    then have pol: "polled tr p cmds" using inv by (simp add: thread_inv_def)
    show ?thesis
    proof (cases left)
      case Nil
      let ?r = "telemetry_result h clk p cmds sec"
      have "t' = Finished (Ok (answer ?r))" "st' = st" using step Configuring Nil by (simp_all add: Let_def)
      moreover have "accepted (answer ?r) = None \<or> accepted (answer ?r) = Some ?r"
        by (simp add: accepted_def json_response_def encoded_def)
      moreover have "Commands ?r = cmds" "OTA ?r = ota_offer h p" by (simp_all add: telemetry_result_def)
      ultimately show ?thesis using pol by (intro stay) (auto simp: thread_inv_def)
    next
      case (Cons cmd rest)
      with step Configuring pol show ?thesis by (intro stay) (auto simp: thread_inv_def split: option.splits)
    qed
  next
    case (SettingSleep q)
    with step show ?thesis by (intro stay) (auto simp: thread_inv_def split: option.splits)
  next
    case (Queueing q)
    with step show ?thesis
      by (intro one[of "Queued (QueueDevice q) \<lparr>CommandID = command_id (clk 0), Action = QueueAction q, Params = QueueParams q\<rparr>"])
         (auto simp: h_def thread_inv_def queue_result_def mem_QueueCommand_def Let_def)
  next
    case (Finished r)
    with step inv show ?thesis by (intro stay) (auto simp: thread_inv_def)
  next
    case Hung
    with step inv show ?thesis by (intro stay) (auto simp: thread_inv_def)
  qed
qed

section \<open>Runs\<close>

definition run_inv ::
  "mem_repo api_handler \<Rightarrow> bool \<Rightarrow> go_env \<Rightarrow> (listener \<times> http_request) list \<Rightarrow> ((nat \<Rightarrow> time) \<times> mem_repo thread) list \<Rightarrow>
     mem_repo api_state \<Rightarrow> repo_op list \<Rightarrow> bool"
where
  "run_inv h mtls env reqs pool st tr \<longleftrightarrow> repo_state st = mem_run tr \<and> backed mtls env reqs tr \<and>
     (\<forall>(clk, t) \<in> set pool. thread_inv h mtls env reqs tr t)"

lemma backed_append: "backed mtls env reqs tr \<Longrightarrow> backed mtls env (reqs @ rest) tr"
  by (fastforce simp: backed_def)

lemma conc_run_inv:
  fixes order env url mtls fs
  defines "srv \<equiv> mem_server order env url mtls fs"
  assumes fs: "\<forall>ep req. accepted (fs ep req) = None"
    and run: "conc_run srv (initial_state NewInMemoryRepository) reqs pool st"
  shows "\<exists>tr. run_inv (api srv) mtls env reqs pool st tr"
  using run
proof (induction rule: conc_run.induct)
  case start
  show ?case by (intro exI[of _ "[]"]) (simp add: run_inv_def initial_state_def backed_def)
next
  case (arrive reqs pool st l req clk)
  then obtain tr where tr: "run_inv (api srv) mtls env reqs pool st tr" by blast
  have "thread_inv (api srv) mtls env (reqs @ [(l, req)]) tr (start_request srv l clk req)"
    unfolding srv_def by (rule start_inv[OF fs]) simp
  moreover have "thread_inv (api srv) mtls env (reqs @ [(l, req)]) tr t" if "(clk, t) \<in> set pool" for clk t
    using tr that thread_inv_append[where ops = "[]"] by (fastforce simp: run_inv_def)
  ultimately show ?case using tr backed_append by (intro exI[of _ tr]) (auto simp: run_inv_def)
next
  case (step reqs pool st k clk t t' st')
  then obtain tr where tr: "run_inv (api srv) mtls env reqs pool st tr" by blast
  have mem: "(clk, t) \<in> set pool" using step.hyps(2,3) nth_mem by metis
  then have inv: "thread_inv (api srv) mtls env reqs tr t" using tr by (auto simp: run_inv_def)
  obtain ops where ops: "repo_state st' = mem_run (tr @ ops)" "thread_inv (api srv) mtls env reqs (tr @ ops) t'"
    "\<forall>now p. Saved now p \<in> set ops \<longrightarrow> t = Saving p"
    using step_inv[where st = st and tr = tr and order = order and env = env and url = url and mtls = mtls and reqs = reqs
        and t = t and clk = clk and t' = t' and st' = st'] tr inv step.hyps(4)
    by (auto simp: run_inv_def srv_def mem_server_def)
  have "\<exists>(l, req) \<in> set reqs. vouches mtls l req (DeviceID (Header p)) \<and> carries env req p" if "Saved now p \<in> set ops" for now p
    using ops(3) that inv by (auto simp: thread_inv_def)
  then have "backed mtls env reqs (tr @ ops)" using tr by (auto simp: run_inv_def backed_def)
  moreover have "thread_inv (api srv) mtls env reqs (tr @ ops) u" if "(c, u) \<in> set (pool[k := (clk, t')])" for c u
    using that ops(2) tr thread_inv_append[where rest = "[]"] set_update_subset_insert[of pool k "(clk, t')"]
    by (fastforce simp: run_inv_def)
  ultimately show ?case using ops(1) by (intro exI[of _ "tr @ ops"]) (auto simp: run_inv_def)
qed

section \<open>Own steps\<close>

text \<open>How far a goroutine is from its end: the points that follow, and the loop it is in.\<close>

definition distance :: "'s thread \<Rightarrow> nat \<times> nat" where
  "distance t =
     (case t of
        Saving _ \<Rightarrow> (6, 0)
      | Recording _ alts _ \<Rightarrow> (5, length alts)
      | ReadingSleep _ \<Rightarrow> (4, 0)
      | Polling _ _ \<Rightarrow> (3, 0)
      | Configuring _ _ left _ \<Rightarrow> (2, length left)
      | SettingSleep _ \<Rightarrow> (2, 0)
      | Queueing _ \<Rightarrow> (1, 0)
      | Alone _ \<Rightarrow> (1, 0)
      | Finished _ \<Rightarrow> (0, 0)
      | Hung \<Rightarrow> (0, 0))"

lemma distance_decreases:
  assumes "thread_step h env clk (t, st) = (t', st')" and "\<And>r. t \<noteq> Finished r" and "t \<noteq> Hung"
  shows "(distance t', distance t) \<in> less_than <*lex*> less_than"
proof (cases t)
  case (Recording p alts n)
  with assms show ?thesis by (cases alts) (auto simp: distance_def Let_def split: prod.splits outcome.splits)
next
  case (Configuring p cmds left sec)
  with assms show ?thesis by (cases left) (auto simp: distance_def Let_def split: option.splits)
qed (use assms in \<open>auto simp: distance_def Let_def split: prod.splits outcome.splits option.splits\<close>)

text \<open>An endless sequence of own steps, whatever happens to the state between them, stands still.\<close>

lemma own_steps_end:
  assumes "\<And>i. \<exists>st st'. thread_step h env clk (t i, st) = (t (Suc i), st')"
  shows "\<exists>i. t i = Hung \<or> (\<exists>r. t i = Finished r)"
proof (rule ccontr)
  assume run: "\<not> ?thesis"
  then have "\<forall>i. (distance (t (Suc i)), distance (t i)) \<in> less_than <*lex*> less_than"
    using assms distance_decreases by metis
  then have "\<exists>f. \<forall>i. (f (Suc i), f i) \<in> less_than <*lex*> less_than" by (rule exI[of _ "\<lambda>i. distance (t i)"])
  moreover have "wf (less_than <*lex*> less_than)" by (intro wf_lex_prod wf_less_than)
  ultimately show False unfolding wf_iff_no_infinite_down_chain by contradiction
qed

text \<open>Only an endless decoder makes a goroutine hang.\<close>

fun never_hangs :: "'s thread \<Rightarrow> bool" where
  "never_hangs (Alone f) \<longleftrightarrow> (\<forall>st. f st \<noteq> None)"
| "never_hangs Hung \<longleftrightarrow> False"
| "never_hangs _ \<longleftrightarrow> True"

lemma step_never_hangs: "never_hangs t \<Longrightarrow> thread_step h env clk (t, st) = (t', st') \<Longrightarrow> never_hangs t'"
proof (cases t)
  case (Alone f)
  assume "never_hangs t"
  with Alone obtain r st1 where "f st = Some (r, st1)" by fastforce
  with Alone show "thread_step h env clk (t, st) = (t', st') \<Longrightarrow> never_hangs t'" by auto
next
  case (Recording p alts n)
  then show "thread_step h env clk (t, st) = (t', st') \<Longrightarrow> never_hangs t'"
    by (cases alts) (auto simp: Let_def split: prod.splits outcome.splits)
next
  case (Configuring p cmds left sec)
  then show "thread_step h env clk (t, st) = (t', st') \<Longrightarrow> never_hangs t'"
    by (cases left) (auto simp: Let_def split: option.splits)
qed (auto simp: Let_def split: prod.splits outcome.splits option.splits)

lemma start_never_hangs:
  assumes "\<And>body. Body req = Ok body \<Longrightarrow> DecodeTelemetryProtobuf (max_alloc (machine srv)) body \<noteq> None"
  shows "never_hangs (start_request srv l clk req)"
proof -
  have e: "never_hangs (start_endpoint srv clk ep ctx req)" for ep ctx
    using assms endpoint_returns[OF assms]
    by (auto simp: start_endpoint_def start_telemetry_def start_queue_def decode_telemetry_body_def
        split: outcome.splits option.splits decoded_body.splits)
  then show ?thesis by (auto simp: start_request_def split: mux_result.splits option.splits)
qed

section \<open>Properties\<close>

text \<open>
  C4: Refinement under concurrency. However the steps of the requests are interleaved, the
  repository is at every moment in the state that some sequence of repository operations gives:
  its entries, histories and pending commands are those of the specification, and every telemetry
  of the sequence was the content of a request on the edge listener and vouched for there. Every
  accepted report that has been answered is stored, and the commands in the answer were exactly
  those pending for its device at one moment after that.
\<close>

theorem conc_run_refines:
  assumes "conc_run (mem_server order env url mtls fs) (initial_state NewInMemoryRepository) reqs pool st"
    and "\<forall>ep req. accepted (fs ep req) = None"
  shows "\<exists>tr. (\<forall>dev. read_device dev (repo_state st) = spec_device dev tr \<and> pending_of st dev = outstanding dev tr \<and>
      slice_of (telemetries (repo_state st)) dev = map snd (saves dev tr)) \<and>
    mem_inv (repo_state st) \<and> backed mtls env reqs tr \<and>
    (\<forall>(clk, t) \<in> set pool. case t of
       Finished (Ok resp) \<Rightarrow>
         (case accepted resp of
            None \<Rightarrow> True
          | Some r \<Rightarrow> \<exists>p. polled tr p (Commands r) \<and> OTA r = ota_offer (mem_api order env url) p)
     | _ \<Rightarrow> True)"
proof -
  obtain tr where tr: "run_inv (mem_api order env url) mtls env reqs pool st tr"
    using conc_run_inv[OF assms(2,1)] by (auto simp: mem_server_def)
  then have "repo_state st = mem_run tr" "backed mtls env reqs tr" by (simp_all add: run_inv_def)
  moreover have "\<forall>(clk, t) \<in> set pool. case t of
       Finished (Ok resp) \<Rightarrow>
         (case accepted resp of
            None \<Rightarrow> True
          | Some r \<Rightarrow> \<exists>p. polled tr p (Commands r) \<and> OTA r = ota_offer (mem_api order env url) p)
     | _ \<Rightarrow> True"
    using tr by (fastforce simp: run_inv_def thread_inv_def split: thread.split outcome.split)
  ultimately show ?thesis
    by (intro exI[of _ tr]) (simp add: run_device run_commands run_telemetries mem_run_inv)
qed

lemma demo_concurrent:
  "\<exists>pool st. conc_run demo_server (initial_state NewInMemoryRepository) [(Edge, demo_request)] pool st \<and>
    slice_of (telemetries (repo_state st)) ''D'' = [demo_payload]"
  using demo_run sequential_run by metis

theorem conc_run_refines_witness:
  "\<exists>st tr pool. conc_run demo_server (initial_state NewInMemoryRepository) [(Edge, demo_request)] pool st \<and>
    read_device ''D'' (repo_state st) = spec_device ''D'' tr \<and> map snd (saves ''D'' tr) = [demo_payload]"
proof -
  obtain pool st where st: "conc_run demo_server (initial_state NewInMemoryRepository) [(Edge, demo_request)] pool st"
    "slice_of (telemetries (repo_state st)) ''D'' = [demo_payload]" using demo_concurrent by blast
  have "\<forall>(ep :: endpoint) (req :: http_request). accepted (http_Error 404 ''404 page not found'') = None" by simp
  from conc_run_refines[OF st(1)[unfolded demo_server_def] this] obtain tr where
    "\<forall>dev. read_device dev (repo_state st) = spec_device dev tr \<and> pending_of st dev = outstanding dev tr \<and>
      slice_of (telemetries (repo_state st)) dev = map snd (saves dev tr)" by (elim exE conjE)
  then have "read_device ''D'' (repo_state st) = spec_device ''D'' tr" "map snd (saves ''D'' tr) = [demo_payload]"
    using st(2) by simp_all
  with st(1) show ?thesis by (intro exI[of _ st] exI[of _ tr] exI[of _ pool] conjI)
qed

text \<open>
  C5: Authenticity under concurrency. With mTLS required, and as long as no client certificate has
  an empty common name, every payload in a device's history was sent on the edge listener with a
  certificate issued to that very device, however the requests were interleaved.
\<close>

theorem stored_telemetry_authentic:
  assumes "conc_run (mem_server order env url True fs) (initial_state NewInMemoryRepository) reqs pool st"
    and "\<forall>ep req. accepted (fs ep req) = None"
    and "\<forall>(l, req) \<in> set reqs. \<forall>c. peer_certificate req = Some c \<longrightarrow> CommonName c \<noteq> []"
    and "t \<in> set (slice_of (telemetries (repo_state st)) dev)"
  shows "\<exists>req c. (Edge, req) \<in> set reqs \<and> carries env req t \<and>
    peer_certificate req = Some c \<and> CommonName c = dev \<and> DeviceID (Header t) = dev"
proof -
  obtain tr where tr: "repo_state st = mem_run tr" "backed True env reqs tr"
    using conc_run_inv[OF assms(2,1)] by (auto simp: run_inv_def)
  with assms(4) obtain now where "(now, t) \<in> set (saves dev tr)" by (auto simp: run_telemetries)
  from saved_in_trace[OF this] have s: "Saved now t \<in> set tr" "DeviceID (Header t) = dev" by auto
  with tr(2) obtain l req where r: "(l, req) \<in> set reqs" "vouches True l req dev" "carries env req t"
    by (fastforce simp: backed_def)
  then obtain c where c: "peer_certificate req = Some c" "l = Edge" "CommonName c = dev \<or> CommonName c = []"
    by (auto simp: vouches_def split: option.splits)
  with assms(3) r(1) have "CommonName c \<noteq> []" by fastforce
  with r c s show ?thesis by blast
qed

theorem stored_telemetry_authentic_witness:
  "\<exists>req c. (Edge, req) \<in> set [(Edge, demo_request)] \<and> carries demo_env req demo_payload \<and>
    peer_certificate req = Some c \<and> CommonName c = ''D''"
proof -
  obtain pool st where st: "conc_run demo_server (initial_state NewInMemoryRepository) [(Edge, demo_request)] pool st"
    "slice_of (telemetries (repo_state st)) ''D'' = [demo_payload]" using demo_concurrent by blast
  have fs: "\<forall>(ep :: endpoint) (req :: http_request). accepted (http_Error 404 ''404 page not found'') = None" by simp
  have cn: "\<forall>(l, req) \<in> set [(Edge, demo_request)]. \<forall>c. peer_certificate req = Some c \<longrightarrow> CommonName c \<noteq> []"
    by (simp add: demo_request_def peer_certificate_def)
  have "demo_payload \<in> set (slice_of (telemetries (repo_state st)) ''D'')" using st(2) by simp
  from stored_telemetry_authentic[OF st(1)[unfolded demo_server_def] fs cn this] show ?thesis by blast
qed

text \<open>
  C26: Progress. On either listener and with any repository, a request whose body is shorter than
  \<open>2 ^ 63\<close> bytes and has no varint of \<open>2 ^ 63\<close> or more after its first byte ends, with an answer
  or an abort, after finitely many steps of its own, whatever the other requests do to the state
  between them.
\<close>

theorem request_ends:
  assumes "\<And>body. Body req = Ok body \<Longrightarrow> length body < 2 ^ 63 \<and> varints_below (2 ^ 63) body"
    and "t 0 = start_request srv l clk req"
    and "\<And>i. \<exists>st st'. thread_step (api srv) (machine srv) clk (t i, st) = (t (Suc i), st')"
  shows "\<exists>i r. t i = Finished r"
proof -
  have "DecodeTelemetryProtobuf (max_alloc (machine srv)) body \<noteq> None" if "Body req = Ok body" for body
    using assms(1)[OF that] decode_loop_returns[of "new_reader body" "max_alloc (machine srv)" zero_payload]
    by (auto simp: DecodeTelemetryProtobuf_def)
  then have "never_hangs (t 0)" unfolding assms(2) by (rule start_never_hangs)
  then have "never_hangs (t i)" for i
  proof (induction i)
    case (Suc i)
    then show ?case using assms(3)[of i] step_never_hangs by blast
  qed
  moreover obtain i where "t i = Hung \<or> (\<exists>r. t i = Finished r)" using own_steps_end assms(3) by blast
  ultimately show ?thesis by (metis never_hangs.simps(2))
qed

text \<open>A small protobuf report, a header with the device id only, while others change the state at will.\<close>

definition tiny_body :: "u8 list" where
  "tiny_body = [0x0A, 0x03, 0x0A, 0x01, 0x44]"

definition tiny_request :: http_request where
  "tiny_request = demo_request\<lparr>ContentType := ''application/x-protobuf'', Body := Ok tiny_body\<rparr>"

lemma tiny_decoded: "DecodeTelemetryProtobuf (2 ^ 47) tiny_body = Some (Ok (zero_payload\<lparr>Header := zero_header\<lparr>DeviceID := ''D''\<rparr>\<rparr>))"
proof -
  have bytes: "encode_string_field 1 (Some ''D'') = [0x0A, 0x01, 0x44]"
    by (simp add: encode_string_field_def encode_tag_def encode_varint.simps string_to_bytes_def)
  have body: "tiny_body = root_part 1 (encode_string_field 1 (Some ''D'')) @ []"
    by (simp add: bytes tiny_body_def root_part_def encode_tag_def encode_varint.simps)
  have "parse_header (2 ^ 47) (encode_string_field 1 (Some ''D'')) zero_header = Some (Ok (zero_header\<lparr>DeviceID := ''D''\<rparr>))"
    using loop_string_field[of "header_field (2 ^ 47)" 1 zero_header "2 ^ 47" "\<lambda>s. zero_header\<lparr>DeviceID := s\<rparr>" "''D''" "[]" "[]"]
    by (simp add: parse_header_def new_reader_at header_field_def tag_of_def)
  moreover have "Header zero_payload = zero_header" by (simp add: zero_payload_def)
  ultimately show ?thesis
    using decode_loop_part[of "encode_string_field 1 (Some ''D'')" "2 ^ 47" 1 zero_payload "\<lambda>d. parse_header (2 ^ 47) d zero_header"
        "\<lambda>h. zero_payload\<lparr>Header := h\<rparr>" "zero_header\<lparr>DeviceID := ''D''\<rparr>" "[]" "[]"]
    by (simp add: DecodeTelemetryProtobuf_def body new_reader_at bytes root_field_def tag_of_def)
qed

theorem request_ends_witness:
  "start_request demo_server Edge (\<lambda>n. int n) tiny_request =
     Saving (zero_payload\<lparr>Header := zero_header\<lparr>DeviceID := ''D''\<rparr>\<rparr>) \<and>
   (\<forall>others. \<exists>i r. rec_nat (start_request demo_server Edge (\<lambda>n. int n) tiny_request)
      (\<lambda>i t. fst (thread_step (api demo_server) (machine demo_server) (\<lambda>n. int n) (t, others i))) i = Finished r)"
proof
  let ?p = "zero_payload\<lparr>Header := zero_header\<lparr>DeviceID := ''D''\<rparr>\<rparr>"
  have sub: "submits demo_env (demo_context ''D'') tiny_request ?p"
    unfolding tiny_request_def by (rule demo_protobuf_submits[OF tiny_decoded]) simp
  have m: "machine demo_server = demo_env" "max_alloc demo_env = 2 ^ 47" by (simp_all add: demo_server_def mem_server_def demo_env_def)
  have fields: "Method tiny_request = ''POST''" "ContentType tiny_request = ''application/x-protobuf''" "Body tiny_request = Ok tiny_body"
    "ServeMux edge_routes (Path tiny_request) = Dispatch TelemetryEndpoint"
    "peer_certificate tiny_request = Some \<lparr>CommonName = ''D'', IssuerName = [], DNSNames = []\<rparr>"
    using edge_telemetry_route by (simp_all add: tiny_request_def demo_request_def peer_certificate_def)
  have "strings_Contains ''application/x-protobuf'' ''protobuf''" by (simp add: strings_Contains_def sublist_code)
  with tiny_decoded show "start_request demo_server Edge (\<lambda>n. int n) tiny_request = Saving ?p"
    by (simp add: start_request_def start_endpoint_def start_telemetry_def m fields decode_telemetry_body_def
        GetAuthenticatedDeviceID_def)
  have body: "length b < 2 ^ 63 \<and> varints_below (2 ^ 63) b" if "Body tiny_request = Ok b" for b
    using that short_varints_below[of tiny_body] by (auto simp: tiny_request_def tiny_body_def)
  show "\<forall>others. \<exists>i r. rec_nat (start_request demo_server Edge (\<lambda>n. int n) tiny_request)
      (\<lambda>i t. fst (thread_step (api demo_server) (machine demo_server) (\<lambda>n. int n) (t, others i))) i = Finished r"
  proof
    fix others
    let ?t = "rec_nat (start_request demo_server Edge (\<lambda>n. int n) tiny_request)
      (\<lambda>i t. fst (thread_step (api demo_server) (machine demo_server) (\<lambda>n. int n) (t, others i)))"
    have step: "\<exists>st st'. thread_step (api demo_server) (machine demo_server) (\<lambda>n. int n) (?t i, st) = (?t (Suc i), st')" for i
      by (rule exI[of _ "others i"]) (simp add: prod_eq_iff)
    show "\<exists>i r. ?t i = Finished r" by (rule request_ends[where t = ?t and req = tiny_request and srv = demo_server and l = Edge and clk = "\<lambda>n. int n", OF body _ step]) simp_all
  qed
qed

end
