(* ===== verification/Sql_Concurrent.thy ===== *)
theory Sql_Concurrent
  imports Sql_Properties
begin

text \<open>
  Calls of the SQL repository at the same time. Every statement is atomic, and so is the
  transaction of a save, but \<^verbatim>\<open>GetPendingCommands\<close> is a SELECT and then an UPDATE for each command
  that it read, with nothing that holds them together: other calls can come in between.
\<close>

section \<open>The statements of a call\<close>

text \<open>\<open>Single\<close> is a call of one statement or one transaction, \<open>Over\<close> such a call with its result.\<close>

datatype sql_call =
    Single sql_op
  | Over sql_op "unit outcome"
  | Selecting gostring
  | Marking gostring time "device_command list" "gostring list"
  | Polled gostring "device_command list outcome"

primrec sql_exec :: "sql_reals \<Rightarrow> db_faults \<Rightarrow> sql_op \<Rightarrow> sql_db \<Rightarrow> unit outcome \<times> sql_db" where
  "sql_exec reals faults (SqlSave now t) db = sql_SaveTelemetry faults reals now t db"
| "sql_exec reals faults (SqlEvent now e) db = sql_SaveEvent faults now e db"
| "sql_exec reals faults (SqlQueue now dev c) db = sql_QueueCommand faults now dev c db"
| "sql_exec reals faults (SqlAck now dev cid res) db = sql_AckCommand faults now dev cid res db"
| "sql_exec reals faults (SqlPoll now dev) db =
     (let (r, db') = sql_GetPendingCommands faults now dev db in (bind_outcome r (\<lambda>_. Ok ()), db'))"

text \<open>The next statement of a call; \<open>now\<close> is the reading of the clock after the SELECT.\<close>

fun call_step :: "sql_reals \<Rightarrow> db_faults \<Rightarrow> time \<Rightarrow> sql_call \<times> sql_db \<Rightarrow> sql_call \<times> sql_db" where
  "call_step reals faults now (Single x, db) = (let (r, db') = sql_exec reals faults x db in (Over x r, db'))"
| "call_step reals faults now (Selecting dev, db) =
     (case faults QueryPending of
        Some e \<Rightarrow> (Polled dev (Err e), db)
      | None \<Rightarrow>
          let cmds = map scan_command (read_rows faults QueryPending 0
                (sort_key cr_created_at (filter (pending_row dev) (commands_table db))))
          in (Marking dev now cmds (map CommandID cmds), db))"
| "call_step reals faults now (Marking dev t cmds [], db) = (Polled dev (Ok cmds), db)"
| "call_step reals faults now (Marking dev t cmds (cid # cids), db) =
     (Marking dev t cmds cids, snd (exec faults (MarkSent cid) (mark_sent t cid) db))"
| "call_step reals faults now (call, db) = (call, db)"

text \<open>A poll whose statements nothing interrupts is the method as a whole.\<close>

lemma marking_alone:
  "(call_step reals faults now ^^ Suc (length cids)) (Marking dev t cmds cids, db) =
     (Polled dev (Ok cmds), fold (\<lambda>cid db. snd (exec faults (MarkSent cid) (mark_sent t cid) db)) cids db)"
  by (induction cids arbitrary: db) (simp_all add: funpow_Suc_right del: funpow.simps)

lemma poll_alone:
  "\<exists>n. (call_step reals faults now ^^ n) (Selecting dev, db) =
     (let (r, db') = sql_GetPendingCommands faults now dev db in (Polled dev r, db'))"
proof (cases "faults QueryPending")
  case None
  let ?cmds = "map scan_command (read_rows faults QueryPending 0
      (sort_key cr_created_at (filter (pending_row dev) (commands_table db))))"
  have "(call_step reals faults now ^^ Suc (Suc (length (map CommandID ?cmds)))) (Selecting dev, db) =
      (call_step reals faults now ^^ Suc (length (map CommandID ?cmds))) (Marking dev now ?cmds (map CommandID ?cmds), db)"
    using None by (subst funpow_Suc_right) simp
  then have "\<exists>n. (call_step reals faults now ^^ n) (Selecting dev, db) = (Polled dev (Ok ?cmds),
      fold (\<lambda>cid db. snd (exec faults (MarkSent cid) (mark_sent now cid) db)) (map CommandID ?cmds) db)"
    unfolding marking_alone by (rule exI)
  then show ?thesis using None by (simp add: sql_GetPendingCommands_def Let_def)
next
  case (Some e)
  then show ?thesis by (intro exI[of _ 1]) (simp add: sql_GetPendingCommands_def)
qed

section \<open>Interleavings\<close>

definition begins :: "sql_call \<Rightarrow> bool" where
  "begins call = (case call of
     Single x \<Rightarrow> (case x of SqlPoll now dev \<Rightarrow> False | _ \<Rightarrow> True)
   | Selecting dev \<Rightarrow> True
   | _ \<Rightarrow> False)"

text \<open>A call comes in, or one of the calls executes a statement, at any time and with any failure.\<close>

inductive sql_conc_step :: "sql_reals \<Rightarrow> sql_call list \<times> sql_db \<Rightarrow> sql_call list \<times> sql_db \<Rightarrow> bool" for reals where
  enter: "begins call \<Longrightarrow> sql_conc_step reals (pool, db) (pool @ [call], db)"
| statement: "k < length pool \<Longrightarrow> call_step reals faults now (pool ! k, db) = (call, db') \<Longrightarrow>
    sql_conc_step reals (pool, db) (pool[k := call], db')"

inductive_cases sql_conc_stepE: "sql_conc_step reals (pool, db) (pool', db')"

abbreviation sql_conc_steps :: "sql_reals \<Rightarrow> sql_call list \<times> sql_db \<Rightarrow> sql_call list \<times> sql_db \<Rightarrow> bool" where
  "sql_conc_steps reals \<equiv> (sql_conc_step reals)\<^sup>*\<^sup>*"

text \<open>What a call has read for its answer, and what has been done with success.\<close>

fun selected :: "sql_call \<Rightarrow> (gostring \<times> device_command) set" where
  "selected (Marking dev t cmds cids) = Pair dev ` set cmds"
| "selected (Polled dev (Ok cmds)) = Pair dev ` set cmds"
| "selected _ = {}"

fun completed :: "sql_call \<Rightarrow> sql_op set" where
  "completed (Over x (Ok u)) = {x}"
| "completed _ = {}"

definition all_selected :: "sql_call list \<Rightarrow> (gostring \<times> device_command) set" where
  "all_selected pool = \<Union> (selected ` set pool)"

definition all_completed :: "sql_call list \<Rightarrow> sql_op set" where
  "all_completed pool = \<Union> (completed ` set pool)"

lemma union_update:
  assumes "k < length xs" and "f (xs ! k) \<subseteq> f x"
  shows "\<Union> (f ` set (xs[k := x])) = \<Union> (f ` set xs) \<union> f x"
proof -
  have "set xs = insert (xs ! k) (set (take k xs) \<union> set (drop (Suc k) xs))"
    using assms(1) by (metis id_take_nth_drop list.simps(15) set_append Un_insert_right)
  moreover have "set (xs[k := x]) = insert x (set (take k xs) \<union> set (drop (Suc k) xs))"
    using assms(1) by (simp add: upd_conv_take_nth_drop)
  ultimately show ?thesis using assms(2) by auto
qed

lemma step_grows:
  assumes "call_step reals faults now (call, db) = (call', db')"
  shows "selected call \<subseteq> selected call'" "completed call \<subseteq> completed call'"
proof -
  have "selected call \<subseteq> selected call' \<and> completed call \<subseteq> completed call'"
  proof (cases call)
    case (Marking dev t cmds cids)
    with assms show ?thesis by (cases cids) auto
  qed (use assms in auto)
  then show "selected call \<subseteq> selected call'" "completed call \<subseteq> completed call'" by blast+
qed

lemma pool_update:
  assumes "k < length pool" and "call_step reals faults now (pool ! k, db) = (call, db')"
  shows "all_selected (pool[k := call]) = all_selected pool \<union> selected call"
    "all_completed (pool[k := call]) = all_completed pool \<union> completed call"
  using step_grows[OF assms(2)] unfolding all_selected_def all_completed_def by (intro union_update assms(1); simp)+

section \<open>The commands table\<close>

text \<open>The row that the insertion of a command made, whatever happened to its status.\<close>

definition row_for :: "gostring \<Rightarrow> device_command \<Rightarrow> command_row \<Rightarrow> bool" where
  "row_for dev c row \<longleftrightarrow> cr_device_id row = dev \<and> cr_command_id row = CommandID c \<and> cr_action row = Action c \<and>
     cr_params_json row = marshal_map (Params c)"

definition accounted :: "(gostring \<times> device_command) set \<Rightarrow> sql_op set \<Rightarrow> command_row \<Rightarrow> bool" where
  "accounted S Q row \<longleftrightarrow> cr_status row = ''PENDING'' \<or> (cr_device_id row, scan_command row) \<in> S \<or>
     (\<exists>now res. SqlAck now (cr_device_id row) (cr_command_id row) res \<in> Q)"

definition commands_inv :: "(gostring \<times> device_command) set \<Rightarrow> sql_op set \<Rightarrow> command_row list \<Rightarrow> bool" where
  "commands_inv S Q rows \<longleftrightarrow> distinct (map cr_command_id rows) \<and>
     (\<forall>row \<in> set rows. (\<exists>now c. SqlQueue now (cr_device_id row) c \<in> Q \<and> row_for (cr_device_id row) c row) \<and>
        accounted S Q row) \<and>
     (\<forall>now dev c. SqlQueue now dev c \<in> Q \<longrightarrow> (\<exists>row \<in> set rows. row_for dev c row)) \<and>
     (\<forall>(dev, c) \<in> S. \<exists>row \<in> set rows. cr_device_id row = dev \<and> scan_command row = c)"

lemma commands_inv_Nil: "commands_inv {} {} []"
  by (simp add: commands_inv_def)

text \<open>An update of statuses keeps the invariant when it accounts for the rows that it changes.\<close>

definition same_command :: "command_row \<Rightarrow> command_row \<Rightarrow> bool" where
  "same_command row row' \<longleftrightarrow> cr_device_id row' = cr_device_id row \<and> cr_command_id row' = cr_command_id row \<and>
     cr_action row' = cr_action row \<and> cr_params_json row' = cr_params_json row"

lemma same_command_facts:
  assumes "same_command row row'"
  shows "row_for dev c row' = row_for dev c row" "scan_command row' = scan_command row" "cr_device_id row' = cr_device_id row"
    "cr_command_id row' = cr_command_id row"
  using assms by (simp_all add: same_command_def row_for_def scan_command_def)

lemma commands_invD:
  assumes "commands_inv S Q rows"
  shows "distinct (map cr_command_id rows)"
    and "row \<in> set rows \<Longrightarrow> \<exists>now c. SqlQueue now (cr_device_id row) c \<in> Q \<and> row_for (cr_device_id row) c row"
    and "row \<in> set rows \<Longrightarrow> accounted S Q row"
    and "SqlQueue now dev c \<in> Q \<Longrightarrow> \<exists>row \<in> set rows. row_for dev c row"
    and "(dev, c) \<in> S \<Longrightarrow> \<exists>row \<in> set rows. cr_device_id row = dev \<and> scan_command row = c"
  using assms unfolding commands_inv_def by (blast, blast, blast, blast, fastforce)

lemma commands_invI:
  assumes "distinct (map cr_command_id rows)"
    and "\<And>row. row \<in> set rows \<Longrightarrow> \<exists>now c. SqlQueue now (cr_device_id row) c \<in> Q \<and> row_for (cr_device_id row) c row"
    and "\<And>row. row \<in> set rows \<Longrightarrow> accounted S Q row"
    and "\<And>now dev c. SqlQueue now dev c \<in> Q \<Longrightarrow> \<exists>row \<in> set rows. row_for dev c row"
    and "\<And>dev c. (dev, c) \<in> S \<Longrightarrow> \<exists>row \<in> set rows. cr_device_id row = dev \<and> scan_command row = c"
  shows "commands_inv S Q rows"
  using assms unfolding commands_inv_def by blast

lemma accounted_mono: "accounted S Q row \<Longrightarrow> S \<subseteq> S' \<Longrightarrow> Q \<subseteq> Q' \<Longrightarrow> accounted S' Q' row"
  by (auto simp: accounted_def)

lemma commands_inv_map:
  assumes inv: "commands_inv S Q rows"
    and f: "\<And>row. row \<in> set rows \<Longrightarrow> same_command row (f row)"
    and Q: "Q \<subseteq> Q'" "\<And>now dev c. SqlQueue now dev c \<in> Q' \<Longrightarrow> SqlQueue now dev c \<in> Q"
    and acc: "\<And>row. row \<in> set rows \<Longrightarrow> accounted S Q' row \<Longrightarrow> accounted S Q' (f row)"
  shows "commands_inv S Q' (map f rows)"
proof (rule commands_invI)
  note facts = same_command_facts[OF f]
  have "map cr_command_id (map f rows) = map cr_command_id rows" using f by (simp add: same_command_def)
  with commands_invD(1)[OF inv] show "distinct (map cr_command_id (map f rows))" by (simp only:)
  fix now dev c
  show "SqlQueue now dev c \<in> Q' \<Longrightarrow> \<exists>row \<in> set (map f rows). row_for dev c row"
    using commands_invD(4)[OF inv] Q(2) facts(1) by fastforce
  show "(dev, c) \<in> S \<Longrightarrow> \<exists>row \<in> set (map f rows). cr_device_id row = dev \<and> scan_command row = c"
    using commands_invD(5)[OF inv] facts(2,3) by fastforce
next
  note facts = same_command_facts[OF f]
  fix row' assume "row' \<in> set (map f rows)"
  then obtain row where row: "row \<in> set rows" "row' = f row" by auto
  show "\<exists>now c. SqlQueue now (cr_device_id row') c \<in> Q' \<and> row_for (cr_device_id row') c row'"
    using commands_invD(2)[OF inv row(1)] facts(1,3)[OF row(1)] Q(1) unfolding row(2) by (simp, blast)
  show "accounted S Q' row'"
    unfolding row(2) by (rule acc[OF row(1) accounted_mono[OF commands_invD(3)[OF inv row(1)] subset_refl Q(1)]])
qed

text \<open>More reads and completed calls of other kinds do no harm.\<close>

lemma commands_inv_more:
  assumes "commands_inv S Q rows"
    and "\<And>dev c. (dev, c) \<in> S' \<Longrightarrow> \<exists>row \<in> set rows. cr_device_id row = dev \<and> scan_command row = c"
    and "\<And>now dev c. SqlQueue now dev c \<notin> Q'"
  shows "commands_inv (S \<union> S') (Q \<union> Q') rows"
  using commands_invD[OF assms(1)] assms(2,3) accounted_mono[of S Q _ "S \<union> S'" "Q \<union> Q'"]
  by (intro commands_invI) (simp_all, blast+)

lemma commands_inv_insert:
  assumes inv: "commands_inv S Q rows" and new: "CommandID c \<notin> cr_command_id ` set rows"
  shows "commands_inv S (insert (SqlQueue now dev c) Q) (rows @ [new_command_row now dev c])"
proof (rule commands_invI)
  have r: "row_for dev c (new_command_row now dev c)" "cr_device_id (new_command_row now dev c) = dev"
    "cr_status (new_command_row now dev c) = ''PENDING''" "cr_command_id (new_command_row now dev c) = CommandID c"
    by (simp_all add: row_for_def new_command_row_def)
  show "distinct (map cr_command_id (rows @ [new_command_row now dev c]))"
    using commands_invD(1)[OF inv] new r(4) by simp
  fix row assume "row \<in> set (rows @ [new_command_row now dev c])"
  then consider "row \<in> set rows" | "row = new_command_row now dev c" by auto
  then show "\<exists>t c'. SqlQueue t (cr_device_id row) c' \<in> insert (SqlQueue now dev c) Q \<and> row_for (cr_device_id row) c' row"
    "accounted S (insert (SqlQueue now dev c) Q) row"
    using commands_invD(2)[OF inv] accounted_mono[OF commands_invD(3)[OF inv], of row S "insert (SqlQueue now dev c) Q"] r
    by (cases; fastforce simp: accounted_def)+
next
  have "row_for dev c (new_command_row now dev c)" by (simp add: row_for_def new_command_row_def)
  then show "\<exists>row \<in> set (rows @ [new_command_row now dev c]). row_for d x row"
    if "SqlQueue t d x \<in> insert (SqlQueue now dev c) Q" for t d x
    using commands_invD(4)[OF inv] that by auto
  show "\<exists>row \<in> set (rows @ [new_command_row now dev c]). cr_device_id row = d \<and> scan_command row = x"
    if "(d, x) \<in> S" for d x
    using commands_invD(5)[OF inv that] by auto
qed

section \<open>The invariant of an interleaving\<close>

definition pool_ok :: "sql_call list \<Rightarrow> bool" where
  "pool_ok pool \<longleftrightarrow> (\<forall>call \<in> set pool. case call of
     Marking dev t cmds cids \<Rightarrow> set cids \<subseteq> CommandID ` set cmds
   | Single x \<Rightarrow> \<forall>now dev. x \<noteq> SqlPoll now dev
   | _ \<Rightarrow> True)"

definition interleaved_inv :: "sql_call list \<Rightarrow> sql_db \<Rightarrow> bool" where
  "interleaved_inv pool db \<longleftrightarrow> sql_inv db \<and> pool_ok pool \<and>
     commands_inv (all_selected pool) (all_completed pool) (commands_table db)"

lemma pool_ok_append: "pool_ok (pool @ [call]) \<longleftrightarrow> pool_ok pool \<and> pool_ok [call]"
  by (auto simp: pool_ok_def)

lemma pool_ok_update: "pool_ok pool \<Longrightarrow> pool_ok [call] \<Longrightarrow> pool_ok (pool[k := call])"
  using set_update_subset_insert[of pool k call] by (auto simp: pool_ok_def)

lemma begins_empty: "begins call \<Longrightarrow> selected call = {} \<and> completed call = {} \<and> pool_ok [call]"
  by (cases call) (auto simp: begins_def pool_ok_def split: sql_op.splits)

lemma sql_exec_step: "snd (sql_exec reals faults x db) = sql_step reals faults x db"
  by (cases x) (simp_all add: case_prod_beta)

lemma single_commands:
  assumes inv: "commands_inv S Q (commands_table db)" and x: "\<forall>now dev. x \<noteq> SqlPoll now dev"
    and step: "sql_exec reals faults x db = (r, db')"
  shows "commands_inv S (Q \<union> completed (Over x r)) (commands_table db')"
proof (cases x)
  case (SqlSave now t)
  have "commands_table db' = commands_table db"
    using step sql_save_cases[of faults reals now t db] by (auto simp: SqlSave saved_tables)
  moreover have "SqlQueue n d c \<notin> completed (Over x r)" for n d c by (cases r) (simp_all add: SqlSave)
  ultimately show ?thesis using commands_inv_more[OF inv, of "{}" "completed (Over x r)"] by simp
next
  case (SqlEvent now e)
  have "commands_table db' = commands_table db"
    using step by (auto simp: SqlEvent sql_SaveEvent_def exec_def split: option.splits)
  moreover have "SqlQueue n d c \<notin> completed (Over x r)" for n d c by (cases r) (simp_all add: SqlEvent)
  ultimately show ?thesis using commands_inv_more[OF inv, of "{}" "completed (Over x r)"] by simp
next
  case (SqlQueue now dev c)
  from queue_effect_table[of c db faults now dev] step[unfolded SqlQueue] inv
  show ?thesis by (auto simp: SqlQueue intro: commands_inv_insert)
next
  case (SqlPoll now dev)
  with x show ?thesis by blast
next
  case (SqlAck now dev cid res)
  let ?f = "\<lambda>c. if cr_device_id c = dev \<and> cr_command_id c = cid
      then c\<lparr>cr_status := ''ACKED'', cr_acked_at := Some now\<rparr> else c"
  from ack_effect_table[of faults now dev cid res db] show ?thesis
  proof (elim disjE exE)
    assume "sql_AckCommand faults now dev cid res db = (Ok (), db\<lparr>commands_table := map ?f (commands_table db)\<rparr>)"
    with step have eq: "r = Ok ()" "commands_table db' = map ?f (commands_table db)" by (auto simp: SqlAck)
    show ?thesis
      unfolding eq(2)
      by (rule commands_inv_map[OF inv]) (auto simp: eq(1) SqlAck same_command_def accounted_def)
  qed (use step inv SqlAck in auto)
qed

lemma mark_accounts:
  assumes inv: "commands_inv S Q (commands_table db)" and cid: "cid \<in> CommandID ` set cmds"
    and sel: "Pair dev ` set cmds \<subseteq> S"
  shows "commands_inv S Q (commands_table (mark_sent now cid db))"
proof -
  let ?f = "\<lambda>c. if cr_command_id c = cid then c\<lparr>cr_status := ''SENT'', cr_sent_at := Some now\<rparr> else c"
  obtain c where c: "c \<in> set cmds" "CommandID c = cid" using cid by blast
  with sel commands_invD(5)[OF inv, of dev c] obtain row where
    row: "row \<in> set (commands_table db)" "cr_device_id row = dev" "scan_command row = c" by blast
  then have id: "cr_command_id row = cid" using c(2) by (auto simp: scan_command_def)
  have only: "row' = row" if "row' \<in> set (commands_table db)" "cr_command_id row' = cid" for row'
    using commands_invD(1)[OF inv] that row(1) id by (simp add: distinct_map inj_on_def)
  have "accounted S Q (?f row')" if "row' \<in> set (commands_table db)" "accounted S Q row'" for row'
  proof (cases "cr_command_id row' = cid")
    case True
    with only that(1) row sel c(1) have "(cr_device_id row', scan_command row') \<in> S" by auto
    moreover have "same_command row' (?f row')" by (simp add: same_command_def)
    ultimately show ?thesis by (simp only: accounted_def same_command_facts) simp
  qed (use that in simp)
  then have "commands_inv S Q (map ?f (commands_table db))"
    by (intro commands_inv_map[OF inv]) (simp_all add: same_command_def)
  then show ?thesis by (simp add: mark_sent_def)
qed

lemma interleaved_step:
  assumes "sql_conc_step reals (pool, db) (pool', db')" and inv: "interleaved_inv pool db"
  shows "interleaved_inv pool' db'"
  using assms(1)
proof (rule sql_conc_stepE)
  fix call assume "pool' = pool @ [call]" "db' = db" "begins call"
  then show ?thesis
    using inv begins_empty[of call] by (simp add: interleaved_inv_def pool_ok_append all_selected_def all_completed_def)
next
  fix k faults now call
  assume pool': "pool' = pool[k := call]" and len: "k < length pool"
    and step: "call_step reals faults now (pool ! k, db) = (call, db')"
  note upd = pool_update[OF len step]
  let ?S = "all_selected pool" and ?Q = "all_completed pool"
  have sel: "selected (pool ! k) \<subseteq> ?S" "completed (pool ! k) \<subseteq> ?Q" using nth_mem[OF len] by (auto simp: all_selected_def all_completed_def)
  have base: "sql_inv db" "pool_ok pool" "commands_inv ?S ?Q (commands_table db)" using inv by (simp_all add: interleaved_inv_def)
  have k: "pool_ok [pool ! k]" using base(2) len by (auto simp: pool_ok_def)
  have keep: ?thesis if "sql_inv db'" "pool_ok [call]"
      "commands_inv (?S \<union> selected call) (?Q \<union> completed call) (commands_table db')"
    using base(2) that by (simp add: interleaved_inv_def pool' upd pool_ok_update)
  have same: ?thesis if "db' = db" "selected call \<subseteq> ?S" "completed call \<subseteq> ?Q" "pool_ok [call]"
    using base that by (intro keep) (simp_all add: Un_absorb2)
  show ?thesis
  proof (cases "pool ! k")
    case (Single x)
    then obtain r where r: "sql_exec reals faults x db = (r, db')" "call = Over x r"
      using step by (auto split: prod.splits)
    have x: "\<forall>now dev. x \<noteq> SqlPoll now dev" using k Single by (simp add: pool_ok_def)
    from single_commands[OF base(3) x r(1)] show ?thesis
      using sql_step_inv[OF base(1), of reals faults x] sql_exec_step[of reals faults x db] r
      by (intro keep) (simp_all add: pool_ok_def)
  next
    case (Over x r)
    with step sel k show ?thesis by (intro same) auto
  next
    case (Selecting dev)
    show ?thesis
    proof (cases "faults QueryPending")
      case None
      let ?cmds = "map scan_command (read_rows faults QueryPending 0
      (sort_key cr_created_at (filter (pending_row dev) (commands_table db))))"
      have call: "call = Marking dev now ?cmds (map CommandID ?cmds)" "db' = db"
        using step Selecting None by (auto simp: Let_def)
      have "\<exists>row \<in> set (commands_table db). cr_device_id row = d \<and> scan_command row = c" if "(d, c) \<in> selected call" for d c
        using that read_rows_subset[of faults QueryPending 0] by (fastforce simp: call(1) pending_row_def)
      then have "commands_inv (?S \<union> selected call) (?Q \<union> completed call) (commands_table db)"
        by (rule commands_inv_more[OF base(3)]) (simp_all add: call(1))
      then show ?thesis using base(1) call(2) by (intro keep) (auto simp: call(1) pool_ok_def)
    qed (use step Selecting in \<open>intro same, auto simp: pool_ok_def\<close>)
  next
    case (Marking dev t cmds cids)
    show ?thesis
    proof (cases cids)
      case Nil
      with step Marking sel show ?thesis by (intro same) (auto simp: pool_ok_def)
    next
      case (Cons cid rest)
      have call: "call = Marking dev t cmds rest" "db' = snd (exec faults (MarkSent cid) (mark_sent t cid) db)"
        using step Marking Cons by simp_all
      have sub: "set rest \<subseteq> CommandID ` set cmds" "cid \<in> CommandID ` set cmds" using k Marking Cons by (simp_all add: pool_ok_def)
      have S: "Pair dev ` set cmds \<subseteq> ?S" using sel(1) Marking by simp
      then have more: "?S \<union> selected call = ?S" "?Q \<union> completed call = ?Q" by (auto simp: call(1))
      have "db' = mark_sent t cid db \<or> db' = db" unfolding call(2) by (simp add: exec_def split: option.split)
      moreover have "sql_inv (mark_sent t cid db)" using sql_inv_mark[OF base(1), of t "{cid}"] by (simp add: mark_all_def mark_sent_def)
      moreover note mark_accounts[OF base(3) sub(2) S, of t]
      ultimately have "sql_inv db'" "commands_inv ?S ?Q (commands_table db')" using base by auto
      moreover have "pool_ok [call]" using sub(1) by (simp add: call(1) pool_ok_def)
      ultimately show ?thesis by (intro keep) (simp_all only: more)
    qed
  next
    case (Polled dev r)
    with step sel k show ?thesis by (intro same) auto
  qed
qed

lemma interleaved_run: "sql_conc_steps reals ([], empty_db) (pool, db) \<Longrightarrow> interleaved_inv pool db"
proof (induction "(pool, db)" arbitrary: pool db rule: rtranclp_induct)
  case base
  have "all_selected [] = {}" "all_completed [] = {}" "commands_table empty_db = []"
    by (simp_all add: all_selected_def all_completed_def empty_db_def)
  then show ?case by (simp add: interleaved_inv_def sql_inv_empty commands_inv_Nil pool_ok_def)
next
  case (step y)
  then show ?case by (cases y) (auto intro: interleaved_step)
qed

lemma scan_row_for: "row_for dev c row \<Longrightarrow> map_ok 1 (Params c) \<Longrightarrow> scan_command row = c"
proof -
  assume row: "row_for dev c row" and ok: "map_ok 1 (Params c)"
  from ok have zero: "map_ok 0 (Params c)" by (rule map_ok_outer)
  have "unmarshal_map [] = None" by (simp add: unmarshal_map_def json_parse_def)
  with marshal_roundtrip[OF zero] have "(if marshal_map (Params c) = [] then None else unmarshal_map (marshal_map (Params c))) = Params c"
    by (auto split: if_splits)
  then have "scan_command row = \<lparr>CommandID = CommandID c, Action = Action c, Params = Params c\<rparr>"
    using row by (simp only: row_for_def scan_command_def)
  then show ?thesis by simp
qed

text \<open>A command that is settled stays so in every interleaving.\<close>

lemma settled_conc:
  assumes "sql_conc_steps reals (pool, db) (pool', db')" and "interleaved_inv pool db" and "settled cid db"
  shows "settled cid db'"
  using assms
proof (induction "(pool', db')" arbitrary: pool' db' rule: rtranclp_induct)
  case (step y)
  obtain pool1 db1 where y: "y = (pool1, db1)" by fastforce
  have settled: "settled cid db1" using step y by simp
  from step(2)[unfolded y] show ?case
  proof (rule sql_conc_stepE)
    fix k faults now call
    assume "call_step reals faults now (pool1 ! k, db1) = (call, db')"
    then have "db' = db1 \<or> (\<exists>x. db' = sql_step reals faults x db1) \<or> (\<exists>t c. db' = mark_sent t c db1)"
      by (cases "(reals, faults, now, pool1 ! k, db1)" rule: call_step.cases)
         (use sql_exec_step[of reals faults _ db1] in \<open>auto simp: Let_def exec_def split: prod.splits option.splits, metis snd_conv\<close>)
    moreover have "settled cid (mark_sent t c db1)" for t c
      using settled by (rule settled_map[where f = "\<lambda>r. if cr_command_id r = c then r\<lparr>cr_status := ''SENT'', cr_sent_at := Some t\<rparr> else r"])
        (simp_all add: mark_sent_def)
    ultimately show ?thesis using settled settled_step by auto
  qed (use settled in simp)
qed simp

lemma mark_settles:
  assumes "cid \<in> cr_command_id ` set (commands_table db)"
  shows "settled cid (mark_sent t cid db)"
proof -
  have ids: "cr_command_id ` set (commands_table (mark_sent t cid db)) = cr_command_id ` set (commands_table db)"
    by (simp add: mark_sent_def image_image if_distrib cong: if_cong del: if_image_distrib)
  from assms have "\<exists>c \<in> set (commands_table (mark_sent t cid db)). cr_command_id c = cid"
    unfolding ids[symmetric] by blast
  moreover have "\<forall>c \<in> set (commands_table (mark_sent t cid db)). cr_command_id c = cid \<longrightarrow> cr_status c \<noteq> ''PENDING''"
    by (simp add: mark_sent_def del: if_image_distrib)
  ultimately show ?thesis by (simp add: settled_def)
qed

lemma sql_statement:
  "sql_conc_steps reals s (pool, db) \<Longrightarrow> k < length pool \<Longrightarrow> call_step reals faults now (pool ! k, db) = (call, db') \<Longrightarrow>
    sql_conc_steps reals s (pool[k := call], db')"
  by (rule rtranclp.rtrancl_into_rtrancl) (auto intro: sql_conc_step.statement)

lemma sql_enter: "sql_conc_steps reals s (pool, db) \<Longrightarrow> begins call \<Longrightarrow> sql_conc_steps reals s (pool @ [call], db)"
  by (rule rtranclp.rtrancl_into_rtrancl) (auto intro: sql_conc_step.enter)

section \<open>Properties\<close>

text \<open>
  C16: Commands under interleaved statements. However the statements of concurrent calls interleave
  and whichever of them fail, no command is invented and none is lost: what a poll reads for a
  device was queued for it, with the same action and, through their JSON text, the same
  parameters; and every command that was queued is still pending, or was read by a poll of its
  device, or was acknowledged.
\<close>

theorem sql_commands_accounted:
  assumes "sql_conc_steps reals ([], empty_db) (pool, db)"
    and "\<forall>x \<in> all_completed pool. case x of SqlQueue now dev c \<Rightarrow> map_ok 1 (Params c) | _ \<Rightarrow> True"
  shows "(\<forall>(dev, c) \<in> all_selected pool. \<exists>now. SqlQueue now dev c \<in> all_completed pool) \<and>
    (\<forall>x \<in> all_completed pool. case x of
       SqlQueue now dev c \<Rightarrow>
         c \<in> set (pending_commands dev db) \<or> (dev, c) \<in> all_selected pool \<or>
         (\<exists>t res. SqlAck t dev (CommandID c) res \<in> all_completed pool)
     | _ \<Rightarrow> True)"
proof (intro conjI ballI; clarify?)
  let ?S = "all_selected pool" and ?Q = "all_completed pool"
  have inv: "commands_inv ?S ?Q (commands_table db)" using interleaved_run[OF assms(1)] by (simp add: interleaved_inv_def)
  { fix dev c assume "(dev, c) \<in> ?S"
    then obtain row where row: "row \<in> set (commands_table db)" "cr_device_id row = dev" "scan_command row = c"
      using commands_invD(5)[OF inv] by blast
    from commands_invD(2)[OF inv row(1)] row(2) obtain now c' where q: "SqlQueue now dev c' \<in> ?Q" "row_for dev c' row" by blast
    with assms(2) have "map_ok 1 (Params c')" by fastforce
    with q row(3) show "\<exists>now. SqlQueue now dev c \<in> ?Q" using scan_row_for by blast }
  fix x assume x: "x \<in> ?Q"
  have "c \<in> set (pending_commands dev db) \<or> (dev, c) \<in> ?S \<or> (\<exists>t res. SqlAck t dev (CommandID c) res \<in> ?Q)"
    if q: "SqlQueue now dev c \<in> ?Q" for now dev c
  proof -
    obtain row where row: "row \<in> set (commands_table db)" "row_for dev c row" using commands_invD(4)[OF inv q] by blast
    have "scan_command row = c" using assms(2) q row(2) scan_row_for by fastforce
    moreover have "cr_device_id row = dev" "cr_command_id row = CommandID c" using row(2) by (simp_all add: row_for_def)
    ultimately show ?thesis
      using commands_invD(3)[OF inv row(1)] row(1) by (force simp: accounted_def pending_commands_def pending_row_def)
  qed
  with x show "case x of SqlQueue now dev c \<Rightarrow>
         c \<in> set (pending_commands dev db) \<or> (dev, c) \<in> ?S \<or> (\<exists>t res. SqlAck t dev (CommandID c) res \<in> ?Q)
     | _ \<Rightarrow> True"
    by (auto split: sql_op.split)
qed

text \<open>Two polls of a device and the acknowledgement of the command that both have read.\<close>

definition race_command :: device_command where
  "race_command = \<lparr>CommandID = ''cmd-1'', Action = ''REBOOT'', Params = None\<rparr>"

definition race_row :: "gostring \<Rightarrow> time option \<Rightarrow> time option \<Rightarrow> command_row" where
  "race_row status sent acked = (new_command_row 0 ''D'' race_command)\<lparr>cr_status := status, cr_sent_at := sent, cr_acked_at := acked\<rparr>"

abbreviation race_db :: "gostring \<Rightarrow> time option \<Rightarrow> time option \<Rightarrow> sql_db" where
  "race_db status sent acked \<equiv> empty_db\<lparr>commands_table := [race_row status sent acked]\<rparr>"

lemma race_statements:
  "sql_exec reals no_faults (SqlQueue 0 ''D'' race_command) empty_db = (Ok (), race_db ''PENDING'' None None)"
  "call_step reals no_faults t (Selecting ''D'', race_db ''PENDING'' None None) =
     (Marking ''D'' t [race_command] [''cmd-1''], race_db ''PENDING'' None None)"
  "mark_sent t ''cmd-1'' (race_db status sent acked) = race_db ''SENT'' (Some t) acked"
  "sql_exec reals no_faults (SqlAck t ''D'' ''cmd-1'' res) (race_db status sent acked) = (Ok (), race_db ''ACKED'' sent (Some t))"
proof -
  have row: "cr_device_id (race_row status sent acked) = ''D''" "cr_command_id (race_row status sent acked) = ''cmd-1''"
    "cr_status (race_row status sent acked) = status" for status sent acked
    by (simp_all add: race_row_def new_command_row_def race_command_def)
  have "scan_command (race_row status sent acked) = race_command" for status sent acked
    by (rule scan_row_for[where dev = "''D''"]) (simp_all add: row_for_def race_row_def new_command_row_def race_command_def map_ok_def)
  then show "call_step reals no_faults t (Selecting ''D'', race_db ''PENDING'' None None) =
     (Marking ''D'' t [race_command] [''cmd-1''], race_db ''PENDING'' None None)"
    by (simp add: no_faults_def pending_row_def row) (simp add: race_command_def)
  show "sql_exec reals no_faults (SqlQueue 0 ''D'' race_command) empty_db = (Ok (), race_db ''PENDING'' None None)"
    by (simp add: sql_QueueCommand_def exec_def no_faults_def empty_db_def race_row_def new_command_row_def)
  show "mark_sent t ''cmd-1'' (race_db status sent acked) = race_db ''SENT'' (Some t) acked"
    by (simp add: mark_sent_def row) (simp add: race_row_def)
  show "sql_exec reals no_faults (SqlAck t ''D'' ''cmd-1'' res) (race_db status sent acked) = (Ok (), race_db ''ACKED'' sent (Some t))"
    by (simp add: sql_AckCommand_def exec_def no_faults_def row) (simp add: race_row_def)
qed

lemma race_queued:
  "sql_conc_steps reals ([], empty_db) ([Over (SqlQueue 0 ''D'' race_command) (Ok ())], race_db ''PENDING'' None None)"
proof -
  have "sql_conc_steps reals ([], empty_db) ([] @ [Single (SqlQueue 0 ''D'' race_command)], empty_db)"
    by (rule sql_enter) (simp_all add: begins_def)
  from sql_statement[OF this, of 0 no_faults 0 "Over (SqlQueue 0 ''D'' race_command) (Ok ())"] show ?thesis
    by (simp add: race_statements(1) del: sql_exec.simps)
qed

theorem sql_commands_accounted_witness:
  "\<exists>pool db. sql_conc_steps demo_reals ([], empty_db) (pool, db) \<and> SqlQueue 0 ''D'' race_command \<in> all_completed pool \<and>
    (race_command \<in> set (pending_commands ''D'' db) \<or> (''D'', race_command) \<in> all_selected pool \<or>
     (\<exists>t res. SqlAck t ''D'' (CommandID race_command) res \<in> all_completed pool))"
proof -
  let ?pool = "[Over (SqlQueue 0 ''D'' race_command) (Ok ())]"
  have done1: "all_completed ?pool = {SqlQueue 0 ''D'' race_command}" by (simp add: all_completed_def)
  have ok: "\<forall>x \<in> all_completed ?pool. case x of SqlQueue now dev c \<Rightarrow> map_ok 1 (Params c) | _ \<Rightarrow> True"
    by (simp add: done1) (simp add: race_command_def map_ok_def)
  note run = race_queued[where reals = demo_reals]
  from sql_commands_accounted[OF run ok] run show ?thesis
    by (intro exI[of _ ?pool] exI conjI) (auto simp: done1)
qed

text \<open>
  C17: At most once, up to overlapping polls. Once a poll has marked a command that it read, no
  poll whose SELECT comes later returns it again, whatever the statements of the other calls and
  their failures. (The in-memory repository delivers a command until it is acknowledged.)
\<close>

theorem sql_delivers_once:
  assumes "sql_conc_steps reals ([], empty_db) (pool, db)"
    and "k < length pool" and "pool ! k = Marking dev t cmds (cid # cids)" and "faults (MarkSent cid) = None"
    and "call_step reals faults now (pool ! k, db) = (call, db')"
    and "sql_conc_steps reals (pool[k := call], db') (pool', db'')"
    and "fst (call_step reals faults' now' (Selecting dev', db'')) = Marking dev' t' cmds' cids'"
  shows "cid \<notin> CommandID ` set cmds'"
proof -
  have inv: "interleaved_inv pool db" by (rule interleaved_run[OF assms(1)])
  have db': "db' = mark_sent t cid db" using assms(3-5) by (simp add: exec_def)
  have "Pair dev ` set cmds \<subseteq> all_selected pool" "cid \<in> CommandID ` set cmds"
    using inv nth_mem[OF assms(2)] assms(3) by (force simp: interleaved_inv_def pool_ok_def all_selected_def)+
  then obtain c where c: "(dev, c) \<in> all_selected pool" "CommandID c = cid" by blast
  have "commands_inv (all_selected pool) (all_completed pool) (commands_table db)" using inv by (simp add: interleaved_inv_def)
  from commands_invD(5)[OF this c(1)] c(2) have "cid \<in> cr_command_id ` set (commands_table db)"
    by (auto simp: scan_command_def)
  then have "settled cid db'" unfolding db' by (rule mark_settles)
  moreover have "interleaved_inv (pool[k := call]) db'"
    using sql_conc_step.statement[OF assms(2,5)] inv by (rule interleaved_step)
  ultimately have "settled cid db''" using settled_conc[OF assms(6)] by blast
  moreover have "cmds' = polled_commands faults' dev' db''"
    using assms(7) by (auto simp: polled_commands_def Let_def split: option.splits)
  ultimately show ?thesis using settled_not_pending polled_pending by blast
qed

theorem sql_delivers_once_witness:
  "\<exists>call db. call_step demo_reals no_faults 8 (Marking ''D'' 5 [race_command] [''cmd-1''], race_db ''PENDING'' None None) = (call, db) \<and>
    (\<forall>t' cmds' cids'. fst (call_step demo_reals no_faults 9 (Selecting ''D'', db)) = Marking ''D'' t' cmds' cids' \<longrightarrow>
       ''cmd-1'' \<notin> CommandID ` set cmds')"
proof -
  let ?q = "Over (SqlQueue 0 ''D'' race_command) (Ok ())" and ?m = "Marking ''D'' 5 [race_command] [''cmd-1'']"
  have "sql_conc_steps demo_reals ([], empty_db) ([?q] @ [Selecting ''D''], race_db ''PENDING'' None None)"
    using race_queued by (rule sql_enter) (simp add: begins_def)
  from sql_statement[OF this, of 1 no_faults 5] have run:
    "sql_conc_steps demo_reals ([], empty_db) ([?q, ?m], race_db ''PENDING'' None None)"
    by (simp add: race_statements(2) del: call_step.simps(2))
  obtain call db where step: "call_step demo_reals no_faults 8 ([?q, ?m] ! 1, race_db ''PENDING'' None None) = (call, db)" by fastforce
  have "''cmd-1'' \<notin> CommandID ` set cmds'"
    if "fst (call_step demo_reals no_faults 9 (Selecting ''D'', db)) = Marking ''D'' t' cmds' cids'" for t' cmds' cids'
    by (rule sql_delivers_once[OF run _ _ _ step rtranclp.rtrancl_refl that]) (simp_all add: no_faults_def)
  with step show ?thesis by auto
qed

text \<open>
  C18: The race between polls. Two polls of a device can both read the same pending command before
  either marks it, so that both deliver it; and when the device acknowledges it after the first
  answer, the UPDATE of the second poll turns the acknowledged command back into a sent one.
\<close>

theorem sql_poll_race:
  "\<exists>pool db row. sql_conc_steps reals ([], empty_db) (pool, db) \<and>
     pool = [Over (SqlQueue 0 ''D'' race_command) (Ok ()), Polled ''D'' (Ok [race_command]), Polled ''D'' (Ok [race_command]),
       Over (SqlAck 7 ''D'' (CommandID race_command) ''OK'') (Ok ())] \<and>
     commands_table db = [row] \<and> cr_status row = ''SENT'' \<and> cr_acked_at row = Some 7"
proof -
  let ?run = "\<lambda>pool status sent acked. sql_conc_steps reals ([], empty_db) (pool, race_db status sent acked)"
  let ?q = "Over (SqlQueue 0 ''D'' race_command) (Ok ())" and ?sel = "Selecting ''D''" and ?got = "Polled ''D'' (Ok [race_command])"
  let ?mark = "\<lambda>t cids. Marking ''D'' t [race_command] cids"
  let ?ack = "SqlAck 7 ''D'' ''cmd-1'' ''OK''"
  note step = race_statements exec_def no_faults_def
  have "?run ([?q] @ [?sel]) ''PENDING'' None None"
    using race_queued by (rule sql_enter) (simp add: begins_def)
  then have "?run (([?q] @ [?sel]) @ [?sel]) ''PENDING'' None None"
    by (rule sql_enter) (simp add: begins_def)
  from sql_statement[OF this, of 1 no_faults 5] have "?run [?q, ?mark 5 [''cmd-1''], ?sel] ''PENDING'' None None"
    by (simp add: race_statements(2) del: call_step.simps(2))
  from sql_statement[OF this, of 2 no_faults 6] have "?run [?q, ?mark 5 [''cmd-1''], ?mark 6 [''cmd-1'']] ''PENDING'' None None"
    by (simp add: race_statements(2) del: call_step.simps(2))
  from sql_statement[OF this, of 1 no_faults 0] have "?run [?q, ?mark 5 [], ?mark 6 [''cmd-1'']] ''SENT'' (Some 5) None"
    by (simp add: race_statements(3) exec_def no_faults_def)
  from sql_statement[OF this, of 1 no_faults 0] have "?run [?q, ?got, ?mark 6 [''cmd-1'']] ''SENT'' (Some 5) None" by simp
  then have "?run ([?q, ?got, ?mark 6 [''cmd-1'']] @ [Single ?ack]) ''SENT'' (Some 5) None"
    by (rule sql_enter) (simp add: begins_def)
  from sql_statement[OF this, of 3 no_faults 0] have "?run [?q, ?got, ?mark 6 [''cmd-1''], Over ?ack (Ok ())] ''ACKED'' (Some 5) (Some 7)"
    by (simp add: race_statements(4) numeral_3_eq_3 del: sql_exec.simps)
  from sql_statement[OF this, of 2 no_faults 0] have "?run [?q, ?got, ?mark 6 [], Over ?ack (Ok ())] ''SENT'' (Some 6) (Some 7)"
    by (simp add: race_statements(3) exec_def no_faults_def numeral_2_eq_2)
  from sql_statement[OF this, of 2 no_faults 0] have "?run [?q, ?got, ?got, Over ?ack (Ok ())] ''SENT'' (Some 6) (Some 7)"
    by (simp add: numeral_2_eq_2)
  moreover have "commands_table (race_db status sent acked) = [race_row status sent acked]"
    "cr_status (race_row status sent acked) = status" "cr_acked_at (race_row status sent acked) = acked" for status sent acked
    by (simp_all add: race_row_def)
  moreover have "CommandID race_command = ''cmd-1''" by (simp add: race_command_def)
  ultimately show ?thesis by fastforce
qed

end
