(* ===== verification/Edge_Json.thy ===== *)
theory Edge_Json
  imports Proto_Encoder Json_Roundtrip
begin

text \<open>
  The JSON serializer of the edge, edge/middleware/serializer/telemetry\_serializer.c: one call of
  \<^verbatim>\<open>snprintf\<close>. Floats are promoted to double and printed with two decimals, rounded from the exact
  value to the nearest, ties to even, as the C library does. Strings are copied as they are: for
  those without characters that JSON escapes, and finite floats, the text is JSON, and the server
  reads it as the payload with the floats at two decimals. The interval is not part of it.
\<close>

section \<open>The text\<close>

abbreviation dquote :: gostring where
  "dquote \<equiv> [CHR 0x22]"

definition named_value :: "gostring \<Rightarrow> gostring \<Rightarrow> gostring" where
  "named_value name v = dquote @ name @ dquote @ '':'' @ v"

text \<open>\<^verbatim>\<open>%.2f\<close>, which differs from Go's only on infinities and NaNs.\<close>

definition c_fixed2 :: "f32 \<Rightarrow> gostring" where
  "c_fixed2 x =
     (let d = f32_to_f64 x
      in if f64_finite d then show_f64 2 d
         else (if f64_neg d then ''-'' else []) @ (if f64_is_nan d then ''nan'' else ''inf''))"

definition c_decimal :: "int \<Rightarrow> gostring" where
  "c_decimal i = (if i < 0 then ''-'' else []) @ show_nat (nat \<bar>i\<bar>)"

definition edge_json :: "telemetry_data \<Rightarrow> gostring" where
  "edge_json d =
     [CHR 0x7B] @
       named_value ''header'' ([CHR 0x7B] @
         named_value ''device_id'' (dquote @ c_default ''UNKNOWN'' (td_device_id d) @ dquote) @ '','' @
         named_value ''timestamp'' (c_decimal (uint (td_timestamp d))) @ '','' @
         named_value ''seq_no'' (c_decimal (uint (td_seq_no d))) @ '','' @
         named_value ''firmware_version'' (dquote @ c_default ''1.0.0'' (td_firmware_version d) @ dquote) @ '','' @
         named_value ''boot_count'' (c_decimal (uint (td_boot_count d))) @ [CHR 0x7D]) @ '','' @
       named_value ''metrics'' ([CHR 0x7B] @
         named_value ''temperature'' (c_fixed2 (td_temperature d)) @ '','' @
         named_value ''humidity'' (c_fixed2 (td_humidity d)) @ '','' @
         named_value ''battery_voltage'' (c_fixed2 (td_battery_voltage d)) @ '','' @
         named_value ''battery_level_pct'' (c_decimal (uint (td_battery_level_pct d))) @ '','' @
         named_value ''rssi'' (c_decimal (sint (td_rssi d))) @ [CHR 0x7D]) @ '','' @
       named_value ''status'' ([CHR 0x7B] @
         named_value ''state'' (dquote @ c_default ''NORMAL'' (td_state d) @ dquote) @ '','' @
         named_value ''uptime_sec'' (c_decimal (uint (td_uptime_sec d))) @ '','' @
         named_value ''free_heap_bytes'' (c_decimal (uint (td_free_heap_bytes d))) @ [CHR 0x7D]) @
     [CHR 0x7D]"

text \<open>The returned \<^verbatim>\<open>int\<close> and the string left in \<open>out_buffer\<close>: what does not fit is cut off, and
  then the result is -1. \<open>data\<close> is None for a null pointer, \<open>out\<close> says that \<open>out_buffer\<close> is not null.\<close>

definition serialize_telemetry_json ::
  "telemetry_data option \<Rightarrow> bool \<Rightarrow> nat \<Rightarrow> int \<times> gostring" where
  "serialize_telemetry_json data out buffer_size =
     (case data of
        None \<Rightarrow> (-1, [])
      | Some d \<Rightarrow>
          if \<not> out \<or> buffer_size = 0 then (-1, [])
          else let written = length (edge_json d)
               in if buffer_size \<le> written then (-1, take (buffer_size - 1) (edge_json d))
                  else (int written, edge_json d))"

section \<open>The text as JSON\<close>

text \<open>A float at two decimals: its hundredths, and the JSON number printed for them.\<close>

definition hundredths :: "f32 \<Rightarrow> nat" where
  "hundredths x = round_half_even (mag_value 52 (f64_mag (f32_to_f64 x)) * 100) (2 ^ 1074)"

definition fixed2_number :: "f32 \<Rightarrow> json_number" where
  "fixed2_number x = \<lparr>num_neg = f64_neg (f32_to_f64 x), num_int = show_nat (hundredths x div 100),
     num_frac = Some (pad_zeros 2 (show_nat (hundredths x mod 100))), num_exp = None\<rparr>"

text \<open>The float that the server reads for it: the one nearest to the decimal.\<close>

definition two_decimals :: "f32 \<Rightarrow> f64" where
  "two_decimals x = f64_round (f64_neg (f32_to_f64 x)) (hundredths x * 2 ^ 1074) 100"

definition tree_edge :: "telemetry_data \<Rightarrow> json_tree" where
  "tree_edge d = TObj
     [(''header'', TObj
        [(''device_id'', TStr (c_default ''UNKNOWN'' (td_device_id d))), (''timestamp'', tree_u32 (td_timestamp d)),
         (''seq_no'', tree_u32 (td_seq_no d)), (''firmware_version'', TStr (c_default ''1.0.0'' (td_firmware_version d))),
         (''boot_count'', tree_u32 (td_boot_count d))]),
      (''metrics'', TObj
        [(''temperature'', TNum (fixed2_number (td_temperature d))), (''humidity'', TNum (fixed2_number (td_humidity d))),
         (''battery_voltage'', TNum (fixed2_number (td_battery_voltage d))),
         (''battery_level_pct'', tree_u32 (td_battery_level_pct d)), (''rssi'', tree_i32 (td_rssi d))]),
      (''status'', TObj
        [(''state'', TStr (c_default ''NORMAL'' (td_state d))), (''uptime_sec'', tree_u32 (td_uptime_sec d)),
         (''free_heap_bytes'', tree_u32 (td_free_heap_bytes d))])]"

definition plain_char :: "char \<Rightarrow> bool" where
  "plain_char c \<longleftrightarrow> 0x20 \<le> byte_of c \<and> byte_of c < 0x80 \<and> c \<notin> {CHR 0x22, CHR 0x5C, CHR ''<'', CHR ''>'', CHR ''&''}"

abbreviation plain :: "gostring \<Rightarrow> bool" where
  "plain \<equiv> list_all plain_char"

definition edge_ok :: "telemetry_data \<Rightarrow> bool" where
  "edge_ok d \<longleftrightarrow> plain (c_default ''UNKNOWN'' (td_device_id d)) \<and> plain (c_default ''1.0.0'' (td_firmware_version d)) \<and>
     plain (c_default ''NORMAL'' (td_state d)) \<and>
     f32_finite (td_temperature d) \<and> f32_finite (td_humidity d) \<and> f32_finite (td_battery_voltage d)"

lemma escape_plain_char:
  assumes "plain_char c"
  shows "byte_of c < 0x80" "escape_char c = [c]"
proof -
  show "byte_of c < 0x80" using assms by (simp add: plain_char_def)
  have "byte_of CHR 0x08 = 8" "byte_of CHR 0x0C = 12" "byte_of CHR 0x0A = 10" "byte_of CHR 0x0D = 13" "byte_of CHR 0x09 = 9"
    by simp_all
  moreover have low: "0x20 \<le> byte_of c" using assms by (simp add: plain_char_def)
  ultimately have "c \<noteq> CHR 0x08" "c \<noteq> CHR 0x0C" "c \<noteq> CHR 0x0A" "c \<noteq> CHR 0x0D" "c \<noteq> CHR 0x09" by fastforce+
  moreover have "c \<noteq> CHR 0x22" "c \<noteq> CHR 0x5C" "c \<noteq> CHR ''<''" "c \<noteq> CHR ''>''" "c \<noteq> CHR ''&''"
    using assms by (simp_all add: plain_char_def)
  ultimately show "escape_char c = [c]" using low by (simp only: escape_char_def if_False simp_thms not_le[symmetric])
qed

lemma escape_plain: "plain s \<Longrightarrow> escape s = s"
  by (induction s) (simp_all add: escape_plain_char escape.simps(2))

lemma plain_valid: "plain s \<Longrightarrow> valid_utf8 s"
  by (rule valid_ascii) (auto simp: list_all_iff plain_char_def)

lemma c_decimal_text: "c_decimal i = number_text (int_number i)"
  by (simp add: c_decimal_def number_text_def int_number_def)

lemma c_fixed2_text: "f32_finite x \<Longrightarrow> c_fixed2 x = number_text (fixed2_number x)"
  using f32_to_f64_finite[of x] f64_finite_not_nan[of "f32_to_f64 x"]
  by (simp add: c_fixed2_def show_f64_def number_text_def fixed2_number_def hundredths_def Let_def)

lemma escape_names:
  "escape ''header'' = ''header''" "escape ''metrics'' = ''metrics''" "escape ''status'' = ''status''"
  "escape ''device_id'' = ''device_id''" "escape ''timestamp'' = ''timestamp''" "escape ''seq_no'' = ''seq_no''"
  "escape ''firmware_version'' = ''firmware_version''" "escape ''boot_count'' = ''boot_count''"
  "escape ''temperature'' = ''temperature''" "escape ''humidity'' = ''humidity''"
  "escape ''battery_voltage'' = ''battery_voltage''" "escape ''battery_level_pct'' = ''battery_level_pct''"
  "escape ''rssi'' = ''rssi''" "escape ''state'' = ''state''" "escape ''uptime_sec'' = ''uptime_sec''"
  "escape ''free_heap_bytes'' = ''free_heap_bytes''"
  by (simp_all add: escape_plain plain_char_def)

lemma edge_json_text: "edge_ok d \<Longrightarrow> edge_json d = json_text (tree_edge d)"
  by (simp add: edge_ok_def edge_json_def tree_edge_def json_text_def named_value_def escape_names escape_plain
      c_decimal_text c_fixed2_text)

section \<open>What the server reads\<close>

text \<open>The decimal digits of the hundredths.\<close>

lemma fixed2_digits:
  "nat_of_digits (num_int (fixed2_number x) @ frac_digits (fixed2_number x)) = hundredths x"
  "number_ok (fixed2_number x)"
proof -
  let ?h = "hundredths x div 100" and ?l = "hundredths x mod 100"
  have l: "length (pad_zeros 2 (show_nat ?l)) = 2" "nat_of_digits (pad_zeros 2 (show_nat ?l)) = ?l" "digits (pad_zeros 2 (show_nat ?l))"
    using length_show_nat[of ?l 2] digits_show_nat[of ?l] by (simp_all add: pad_zeros_def nat_of_digits_append digits_def is_digit_def set_replicate_conv_if)
  show "nat_of_digits (num_int (fixed2_number x) @ frac_digits (fixed2_number x)) = hundredths x"
    by (simp add: fixed2_number_def frac_digits_def nat_of_digits_append l)
  have "hd (show_nat ?h) = CHR ''0'' \<Longrightarrow> show_nat ?h = ''0''"
    using hd_show_nat[of ?h] by (cases "?h = 0") (simp_all add: show_nat.simps)
  then show "number_ok (fixed2_number x)"
    using digits_show_nat l(3) by (simp add: number_ok_def fixed2_number_def)
qed

lemma hundredths_le:
  assumes "f32_finite x"
  shows "hundredths x \<le> 100 * 2 ^ 128"
proof -
  define b :: nat where "b = 2 ^ 1074"
  let ?v = "mag_value 52 (f64_mag (f32_to_f64 x))"
  have "f32_mag x < 255 * 2 ^ 23" using assms by (simp add: f32_finite_def)
  then have "?v = mag_value 23 (f32_mag x) * 2 ^ 925" "mag_value 23 (f32_mag x) < mag_value 23 (255 * 2 ^ 23)"
    unfolding f32_to_f64_fields by (simp only: widen_mag_value, simp only: mag_value_less_iff)
  moreover have "mag_value 23 (255 * 2 ^ 23) * 2 ^ 925 = 2 ^ 128 * b" unfolding b_def by (simp add: mag_value_def)
  ultimately have "?v < 2 ^ 128 * b" by (metis mult_less_cancel2 zero_less_power zero_less_numeral)
  then have "?v * 100 \<le> 100 * 2 ^ 128 * b" by simp
  then show ?thesis unfolding hundredths_def b_def[symmetric] by (intro half_even_le) (simp_all add: b_def)
qed

lemma hundredths_bound:
  assumes "f32_finite x"
  shows "nearest_mag (hundredths x * 2 ^ 1074) 100 < f64_inf_mag"
proof -
  define b :: nat where "b = 2 ^ 1074"
  have top: "mag_value 52 (1151 * 2 ^ 52) = 2 ^ 128 * b" unfolding b_def by (simp add: mag_value_def)
  have "hundredths x * b \<le> 100 * 2 ^ 128 * b" using hundredths_le[OF assms] by (rule mult_right_mono) simp
  also have "\<dots> = mag_value 52 (1151 * 2 ^ 52) * 100" unfolding top by (simp only: ac_simps)
  finally have "nearest_mag (hundredths x * b) 100 \<le> 1151 * 2 ^ 52" by (intro nearest_mag_le) simp_all
  also have "\<dots> < f64_inf_mag" by (simp add: f64_inf_mag_def)
  finally show ?thesis unfolding b_def .
qed

lemma hundredths_mag: "decimal_mag m (- 2) = nearest_mag (m * 2 ^ 1074) 100"
proof -
  have "\<not> (0 :: int) \<le> - 2" "nat (- (- 2)) = 2" "(10 :: nat) ^ 2 = 100" by simp_all
  then show ?thesis by (simp only: decimal_mag_def if_False)
qed

lemma ParseFloat_fixed2:
  assumes "f32_finite x"
  shows "ParseFloat (fixed2_number x) = Some (two_decimals x)"
proof -
  have "length (pad_zeros 2 (show_nat (hundredths x mod 100))) = 2"
    using length_show_nat[of "hundredths x mod 100" 2] by (simp add: pad_zeros_def)
  then have "number_exp (fixed2_number x) - int (length (frac_digits (fixed2_number x))) = - 2"
    by (simp add: fixed2_number_def number_exp_def frac_digits_def)
  then show ?thesis
    unfolding ParseFloat_def Let_def fixed2_digits(1) two_decimals_def f64_round_def
    using hundredths_bound[OF assms] by (simp only: hundredths_mag if_True) (simp add: fixed2_number_def)
qed

definition edge_payload :: "telemetry_data \<Rightarrow> telemetry_payload" where
  "edge_payload d =
    \<lparr>Header = \<lparr>DeviceID = c_default ''UNKNOWN'' (td_device_id d), Timestamp = ucast (td_timestamp d),
       SeqNo = td_seq_no d, FirmwareVersion = c_default ''1.0.0'' (td_firmware_version d),
       BootCount = td_boot_count d\<rparr>,
     Metrics = \<lparr>Temperature = two_decimals (td_temperature d), Humidity = two_decimals (td_humidity d),
       BatteryVoltage = two_decimals (td_battery_voltage d),
       BatteryLevelPct = td_battery_level_pct d, RSSI = td_rssi d, IntervalSec = 0, CustomValues = None\<rparr>,
     Status = Some \<lparr>State = c_default ''NORMAL'' (td_state d), UptimeSec = td_uptime_sec d,
       FreeHeapBytes = td_free_heap_bytes d\<rparr>\<rparr>"

lemma tree_edge_ok: "edge_ok d \<Longrightarrow> tree_ok 0 (tree_edge d)"
  by (simp add: tree_edge_def edge_ok_def max_nesting_def plain_valid number_ok_int fixed2_digits valid_ascii)

lemma unmarshal_edge_json:
  assumes "edge_ok d"
  shows "json_Unmarshal err payload_member empty_payload (string_to_bytes (edge_json d)) = Ok (edge_payload d)"
proof -
  have f: "dec_float (TNum (fixed2_number x)) old = Some (two_decimals x)" if "f32_finite x" for x old
    using that by (simp add: dec_float_def ParseFloat_fixed2)
  have "dec_i64 (TNum (int_number (uint t))) old = Some (ucast t)" for t :: u32 and old
  proof -
    have "- (2 ^ 63) \<le> uint t" by (rule order_trans[of _ 0]) simp_all
    moreover have "uint t < 2 ^ 63" using uint_bounded[of t] by simp
    ultimately have "ParseInt 64 (int_number (uint t)) = Some (uint t)" by (intro ParseInt_int) simp_all
    then show ?thesis by (simp add: dec_i64_def)
  qed
  then have "dec_struct payload_member (tree_edge d) empty_payload = Some (edge_payload d)"
    using assms f by (simp add: edge_ok_def tree_edge_def dec_struct_fill payload_member_def reading header_members
      metrics_member_def status_member_def empty_payload_def zero_header_def zero_metrics_def zero_status_def edge_payload_def
      dec_pointer_def)
  then show ?thesis
    by (simp add: json_Unmarshal_def edge_json_text[OF assms] json_parse_text[OF tree_edge_ok[OF assms]])
qed

section \<open>The size of the text\<close>

lemma c_decimal_length: "\<bar>i\<bar> < 10 ^ n \<Longrightarrow> 0 < n \<Longrightarrow> length (c_decimal i) \<le> n + (if i < 0 then 1 else 0)"
  using length_show_nat[of "nat \<bar>i\<bar>" n] by (cases "i < 0") (simp_all add: c_decimal_def nat_less_iff)

lemma c_u32_length: "length (c_decimal (uint (x :: u32))) \<le> 10"
proof -
  have "uint x < 10 ^ 10" by (rule order_less_le_trans[OF uint_bounded[of x]]) simp
  moreover have "0 \<le> uint x" by simp
  ultimately show ?thesis using c_decimal_length[of "uint x" 10] by (simp del: uint_ge_0 add: linorder_not_less[symmetric])
qed

lemma c_i32_length: "length (c_decimal (sint (x :: i32))) \<le> 11"
proof -
  have "- (2 ^ 31) \<le> sint x" "sint x < 2 ^ 31" using sint_ge[of x] sint_lt[of x] by simp_all
  then have "\<bar>sint x\<bar> < 10 ^ 10" by (simp add: abs_less_iff)
  with c_decimal_length[of "sint x" 10] show ?thesis by (simp split: if_splits)
qed

lemma c_fixed2_length: "length (c_fixed2 x) \<le> 43"
proof (cases "f32_finite x")
  case True
  have "hundredths x div 100 \<le> 2 ^ 128" using hundredths_le[OF True] by simp
  then have "hundredths x div 100 < 10 ^ 39" by (rule order_le_less_trans) simp
  then have "length (show_nat (hundredths x div 100)) \<le> 39" using length_show_nat[of _ 39] by simp
  moreover have "length (show_nat (hundredths x mod 100)) \<le> 2" using length_show_nat[of "hundredths x mod 100" 2] by simp
  ultimately show ?thesis
    by (simp add: c_fixed2_text[OF True] number_text_def fixed2_number_def pad_zeros_def)
next
  case False
  then have "255 \<le> f32_mag x div 2 ^ 23" by (simp add: f32_finite_def)
  moreover have "f32_mag x < 2 ^ 31" by (simp add: f32_mag_def)
  ultimately have "f32_mag x div 2 ^ 23 = 255" by simp
  then have "\<not> f64_finite (f32_to_f64 x)"
    by (simp add: f64_finite_def f32_to_f64_fields widen_mag_def widen_fields_def f64_inf_mag_def)
  then show ?thesis by (simp add: c_fixed2_def Let_def)
qed

definition short_strings :: "telemetry_data \<Rightarrow> bool" where
  "short_strings d \<longleftrightarrow> length (c_default ''UNKNOWN'' (td_device_id d)) \<le> 31 \<and>
     length (c_default ''1.0.0'' (td_firmware_version d)) \<le> 15 \<and> length (c_default ''NORMAL'' (td_state d)) \<le> 15"

lemma edge_json_length:
  assumes "short_strings d"
  shows "length (edge_json d) < 512"
proof -
  note u = c_u32_length[of "td_timestamp d"] c_u32_length[of "td_seq_no d"] c_u32_length[of "td_boot_count d"]
    c_u32_length[of "td_battery_level_pct d"] c_u32_length[of "td_uptime_sec d"] c_u32_length[of "td_free_heap_bytes d"]
  note f = c_fixed2_length[of "td_temperature d"] c_fixed2_length[of "td_humidity d"] c_fixed2_length[of "td_battery_voltage d"]
  show ?thesis
    using assms u f c_i32_length[of "td_rssi d"]
    by (simp add: edge_json_def named_value_def short_strings_def)
qed

lemma serialize_fits:
  "short_strings d \<Longrightarrow> serialize_telemetry_json (Some d) True 512 = (int (length (edge_json d)), edge_json d)"
  using edge_json_length[of d] by (simp add: serialize_telemetry_json_def)

end
