(* ===== verification/Edge_Buffer.thy ===== *)
theory Edge_Buffer
  imports Proto_Encoder
begin

text \<open>
  The offline buffer of the edge, edge/middleware/telemetry/telemetry\_buffer.c: a ring of 32
  records, each with storage of its own for its strings, in which the oldest record makes room for a
  new one. A non-null string member of a slot points to the storage of that slot. The buffer of the
  application is static, so only the record that is pushed may be a null pointer.
\<close>

section \<open>The ring\<close>

definition TELEMETRY_BUFFER_CAPACITY :: nat where
  "TELEMETRY_BUFFER_CAPACITY = 32"

record telemetry_ring_buffer =
  rb_items :: "telemetry_data list"
  device_id_storage :: "gostring list"
  fw_version_storage :: "gostring list"
  state_storage :: "gostring list"
  rb_head :: nat
  rb_tail :: nat
  rb_count :: nat

definition zero_data :: telemetry_data where
  "zero_data = \<lparr>td_device_id = None, td_timestamp = 0, td_seq_no = 0, td_firmware_version = None, td_boot_count = 0,
     td_temperature = 0, td_humidity = 0, td_battery_voltage = 0, td_battery_level_pct = 0, td_rssi = 0,
     td_interval_sec = 0, td_state = None, td_uptime_sec = 0, td_free_heap_bytes = 0\<rparr>"

definition telemetry_buffer_init :: telemetry_ring_buffer where
  "telemetry_buffer_init =
     \<lparr>rb_items = replicate TELEMETRY_BUFFER_CAPACITY zero_data,
      device_id_storage = replicate TELEMETRY_BUFFER_CAPACITY [],
      fw_version_storage = replicate TELEMETRY_BUFFER_CAPACITY [],
      state_storage = replicate TELEMETRY_BUFFER_CAPACITY [],
      rb_head = 0, rb_tail = 0, rb_count = 0\<rparr>"

text \<open>\<^verbatim>\<open>strncpy\<close> of all but the last byte of a storage, which stays NUL from the start.\<close>

definition strncpy_to :: "gostring list \<Rightarrow> nat \<Rightarrow> nat \<Rightarrow> cstring \<Rightarrow> gostring list" where
  "strncpy_to storage idx n src = (case src of None \<Rightarrow> storage | Some s \<Rightarrow> storage[idx := take n s])"

definition telemetry_buffer_push ::
  "telemetry_data option \<Rightarrow> telemetry_ring_buffer \<Rightarrow> bool \<times> telemetry_ring_buffer" where
  "telemetry_buffer_push data buf =
     (case data of
        None \<Rightarrow> (False, buf)
      | Some d \<Rightarrow>
          let buf1 = (if rb_count buf = TELEMETRY_BUFFER_CAPACITY
                      then buf\<lparr>rb_head := (rb_head buf + 1) mod TELEMETRY_BUFFER_CAPACITY, rb_count := rb_count buf - 1\<rparr>
                      else buf);
              idx = rb_tail buf1
          in (True, buf1\<lparr>
               rb_items := (rb_items buf1)[idx := d],
               device_id_storage := strncpy_to (device_id_storage buf1) idx 31 (td_device_id d),
               fw_version_storage := strncpy_to (fw_version_storage buf1) idx 15 (td_firmware_version d),
               state_storage := strncpy_to (state_storage buf1) idx 15 (td_state d),
               rb_tail := (idx + 1) mod TELEMETRY_BUFFER_CAPACITY,
               rb_count := rb_count buf1 + 1\<rparr>))"

text \<open>A record with its strings as they are read through the pointers of its slot.\<close>

definition pointed_to :: "gostring \<Rightarrow> cstring \<Rightarrow> cstring" where
  "pointed_to storage ptr = (case ptr of None \<Rightarrow> None | Some _ \<Rightarrow> Some storage)"

definition slot :: "telemetry_ring_buffer \<Rightarrow> nat \<Rightarrow> telemetry_data" where
  "slot buf i = (rb_items buf ! i)\<lparr>
     td_device_id := pointed_to (device_id_storage buf ! i) (td_device_id (rb_items buf ! i)),
     td_firmware_version := pointed_to (fw_version_storage buf ! i) (td_firmware_version (rb_items buf ! i)),
     td_state := pointed_to (state_storage buf ! i) (td_state (rb_items buf ! i))\<rparr>"

definition telemetry_buffer_peek :: "telemetry_ring_buffer \<Rightarrow> telemetry_data option" where
  "telemetry_buffer_peek buf = (if rb_count buf = 0 then None else Some (slot buf (rb_head buf)))"

definition telemetry_buffer_pop :: "telemetry_ring_buffer \<Rightarrow> bool \<times> telemetry_ring_buffer" where
  "telemetry_buffer_pop buf =
     (if rb_count buf = 0 then (False, buf)
      else (True, buf\<lparr>rb_head := (rb_head buf + 1) mod TELEMETRY_BUFFER_CAPACITY, rb_count := rb_count buf - 1\<rparr>))"

definition telemetry_buffer_count :: "telemetry_ring_buffer \<Rightarrow> nat" where
  "telemetry_buffer_count buf = rb_count buf"

definition telemetry_buffer_is_empty :: "telemetry_ring_buffer \<Rightarrow> bool" where
  "telemetry_buffer_is_empty buf \<longleftrightarrow> rb_count buf = 0"

section \<open>The contract of an offline buffer\<close>

text \<open>The operations that the application calls, as a record, and what it relies on: a queue that
  keeps the newest \<open>capacity\<close> records, their strings cut to the size of the storage.\<close>

record 'b buffer_ops =
  buffer_push :: "telemetry_data option \<Rightarrow> 'b \<Rightarrow> bool \<times> 'b"
  buffer_peek :: "'b \<Rightarrow> telemetry_data option"
  buffer_pop :: "'b \<Rightarrow> bool \<times> 'b"
  buffer_count :: "'b \<Rightarrow> nat"
  buffer_is_empty :: "'b \<Rightarrow> bool"

definition cut :: "telemetry_data \<Rightarrow> telemetry_data" where
  "cut d = d\<lparr>td_device_id := map_option (take 31) (td_device_id d),
     td_firmware_version := map_option (take 15) (td_firmware_version d),
     td_state := map_option (take 15) (td_state d)\<rparr>"

definition newest_records :: "nat \<Rightarrow> 'a list \<Rightarrow> 'a list" where
  "newest_records n xs = drop (length xs - n) xs"

locale offline_buffer =
  fixes ops :: "'b buffer_ops" and buffer_inv :: "'b \<Rightarrow> bool" and contents :: "'b \<Rightarrow> telemetry_data list" and capacity :: nat
  assumes push: "buffer_inv b \<Longrightarrow> fst (buffer_push ops (Some d) b) \<and> buffer_inv (snd (buffer_push ops (Some d) b)) \<and>
      contents (snd (buffer_push ops (Some d) b)) = newest_records capacity (contents b @ [cut d])"
    and peek: "buffer_inv b \<Longrightarrow> buffer_peek ops b = (case contents b of [] \<Rightarrow> None | x # xs \<Rightarrow> Some x)"
    and pop: "buffer_inv b \<Longrightarrow> buffer_inv (snd (buffer_pop ops b)) \<and> contents (snd (buffer_pop ops b)) = tl (contents b)"
    and count: "buffer_inv b \<Longrightarrow> buffer_count ops b = length (contents b)"
    and empty: "buffer_inv b \<Longrightarrow> buffer_is_empty ops b \<longleftrightarrow> contents b = []"
    and bounded: "buffer_inv b \<Longrightarrow> length (contents b) \<le> capacity"

section \<open>The ring is such a buffer\<close>

definition ring_ops :: "telemetry_ring_buffer buffer_ops" where
  "ring_ops = \<lparr>buffer_push = telemetry_buffer_push, buffer_peek = telemetry_buffer_peek, buffer_pop = telemetry_buffer_pop,
     buffer_count = telemetry_buffer_count, buffer_is_empty = telemetry_buffer_is_empty\<rparr>"

definition ring_inv :: "telemetry_ring_buffer \<Rightarrow> bool" where
  "ring_inv buf \<longleftrightarrow> length (rb_items buf) = TELEMETRY_BUFFER_CAPACITY \<and>
     length (device_id_storage buf) = TELEMETRY_BUFFER_CAPACITY \<and> length (fw_version_storage buf) = TELEMETRY_BUFFER_CAPACITY \<and>
     length (state_storage buf) = TELEMETRY_BUFFER_CAPACITY \<and>
     rb_head buf < TELEMETRY_BUFFER_CAPACITY \<and> rb_count buf \<le> TELEMETRY_BUFFER_CAPACITY \<and>
     rb_tail buf = (rb_head buf + rb_count buf) mod TELEMETRY_BUFFER_CAPACITY"

definition ring_contents :: "telemetry_ring_buffer \<Rightarrow> telemetry_data list" where
  "ring_contents buf = map (\<lambda>k. slot buf ((rb_head buf + k) mod TELEMETRY_BUFFER_CAPACITY)) [0..<rb_count buf]"

lemma ring_init: "ring_inv telemetry_buffer_init" "ring_contents telemetry_buffer_init = []"
  by (simp_all add: ring_inv_def ring_contents_def telemetry_buffer_init_def TELEMETRY_BUFFER_CAPACITY_def)

lemma ring_pop:
  assumes "ring_inv buf"
  shows "ring_inv (snd (telemetry_buffer_pop buf))" "ring_contents (snd (telemetry_buffer_pop buf)) = tl (ring_contents buf)"
proof -
  have slot: "slot (buf\<lparr>rb_head := h, rb_count := c\<rparr>) = slot buf" for h c by (simp add: slot_def fun_eq_iff)
  have cap: "0 < TELEMETRY_BUFFER_CAPACITY" by (simp add: TELEMETRY_BUFFER_CAPACITY_def)
  show "ring_inv (snd (telemetry_buffer_pop buf))"
    using assms cap by (cases "rb_count buf") (auto simp: telemetry_buffer_pop_def ring_inv_def mod_simps)
  show "ring_contents (snd (telemetry_buffer_pop buf)) = tl (ring_contents buf)"
  proof (cases "rb_count buf")
    case (Suc n)
    then have "[0..<rb_count buf] = 0 # map Suc [0..<n]" by (simp add: upt_conv_Cons map_Suc_upt del: upt_Suc)
    then show ?thesis
      using Suc by (simp add: telemetry_buffer_pop_def ring_contents_def slot mod_simps comp_def del: map_Suc_upt upt_Suc)
  qed (simp add: telemetry_buffer_pop_def ring_contents_def)
qed

lemma slot_stored:
  assumes "ring_inv buf" and "rb_tail buf = idx"
  shows "slot (buf\<lparr>rb_items := (rb_items buf)[idx := d],
               device_id_storage := strncpy_to (device_id_storage buf) idx 31 (td_device_id d),
               fw_version_storage := strncpy_to (fw_version_storage buf) idx 15 (td_firmware_version d),
               state_storage := strncpy_to (state_storage buf) idx 15 (td_state d),
               rb_tail := t, rb_count := c\<rparr>) i =
    (if i = idx then cut d else slot buf i)"
  using assms
  by (auto simp: slot_def cut_def strncpy_to_def pointed_to_def ring_inv_def TELEMETRY_BUFFER_CAPACITY_def split: option.splits)

lemma slots_differ: "k < n \<Longrightarrow> n < c \<Longrightarrow> (h + k) mod c \<noteq> (h + n) mod c" for h k n c :: nat
proof
  assume k: "k < n" and n: "n < c" and "(h + k) mod c = (h + n) mod c"
  then have "(h + n) mod c = (h + k) mod c" "h + k \<le> h + n" by simp_all
  then have "c dvd (h + n) - (h + k)" by (simp only: mod_eq_dvd_iff_nat)
  moreover have "(h + n) - (h + k) = n - k" "0 < n - k" "n - k < c" using k n by simp_all
  ultimately show False using nat_dvd_not_less by metis
qed

lemma ring_push:
  assumes "ring_inv buf"
  shows "fst (telemetry_buffer_push (Some d) buf)" "ring_inv (snd (telemetry_buffer_push (Some d) buf))"
    "ring_contents (snd (telemetry_buffer_push (Some d) buf)) =
       newest_records TELEMETRY_BUFFER_CAPACITY (ring_contents buf @ [cut d])"
proof -
  define buf1 where "buf1 = (if rb_count buf = TELEMETRY_BUFFER_CAPACITY then snd (telemetry_buffer_pop buf) else buf)"
  have cap: "0 < TELEMETRY_BUFFER_CAPACITY" by (simp add: TELEMETRY_BUFFER_CAPACITY_def)
  have inv1: "ring_inv buf1" using assms ring_pop(1) by (simp add: buf1_def)
  have room: "rb_count buf1 < TELEMETRY_BUFFER_CAPACITY"
    using assms cap by (auto simp: buf1_def telemetry_buffer_pop_def ring_inv_def)
  have old: "ring_contents buf1 = newest_records (TELEMETRY_BUFFER_CAPACITY - 1) (ring_contents buf)"
    using assms cap ring_pop(2)[OF assms]
    by (auto simp: buf1_def newest_records_def ring_inv_def ring_contents_def drop_Suc)
  let ?idx = "rb_tail buf1"
  let ?buf2 = "buf1\<lparr>rb_items := (rb_items buf1)[?idx := d],
               device_id_storage := strncpy_to (device_id_storage buf1) ?idx 31 (td_device_id d),
               fw_version_storage := strncpy_to (fw_version_storage buf1) ?idx 15 (td_firmware_version d),
               state_storage := strncpy_to (state_storage buf1) ?idx 15 (td_state d),
               rb_tail := (?idx + 1) mod TELEMETRY_BUFFER_CAPACITY, rb_count := rb_count buf1 + 1\<rparr>"
  have push: "telemetry_buffer_push (Some d) buf = (True, ?buf2)"
    using cap by (simp add: telemetry_buffer_push_def telemetry_buffer_pop_def buf1_def Let_def)
  show "fst (telemetry_buffer_push (Some d) buf)" by (simp add: push)
  show "ring_inv (snd (telemetry_buffer_push (Some d) buf))"
    using inv1 room unfolding push by (auto simp: ring_inv_def strncpy_to_def mod_simps split: option.split)
  have tail: "?idx = (rb_head buf1 + rb_count buf1) mod TELEMETRY_BUFFER_CAPACITY" using inv1 by (simp add: ring_inv_def)
  have "ring_contents ?buf2 = ring_contents buf1 @ [cut d]"
    using slots_differ[OF _ room, of _ "rb_head buf1"]
    by (auto simp: ring_contents_def slot_stored[OF inv1 tail] tail)
  moreover have "newest_records TELEMETRY_BUFFER_CAPACITY (ring_contents buf @ [cut d]) =
      newest_records (TELEMETRY_BUFFER_CAPACITY - 1) (ring_contents buf) @ [cut d]"
    using cap by (simp add: newest_records_def)
  ultimately show "ring_contents (snd (telemetry_buffer_push (Some d) buf)) =
       newest_records TELEMETRY_BUFFER_CAPACITY (ring_contents buf @ [cut d])"
    by (simp add: push old)
qed

interpretation ring: offline_buffer ring_ops ring_inv ring_contents TELEMETRY_BUFFER_CAPACITY
proof
  fix b d assume b: "ring_inv b"
  show "fst (buffer_push ring_ops (Some d) b) \<and> ring_inv (snd (buffer_push ring_ops (Some d) b)) \<and>
      ring_contents (snd (buffer_push ring_ops (Some d) b)) = newest_records TELEMETRY_BUFFER_CAPACITY (ring_contents b @ [cut d])"
    using ring_push[OF b] by (simp add: ring_ops_def)
  show "buffer_peek ring_ops b = (case ring_contents b of [] \<Rightarrow> None | x # xs \<Rightarrow> Some x)"
    using b by (cases "rb_count b")
      (simp_all add: ring_ops_def telemetry_buffer_peek_def ring_contents_def ring_inv_def upt_conv_Cons del: upt_Suc)
  show "ring_inv (snd (buffer_pop ring_ops b)) \<and> ring_contents (snd (buffer_pop ring_ops b)) = tl (ring_contents b)"
    using ring_pop[OF b] by (simp add: ring_ops_def)
  show "buffer_count ring_ops b = length (ring_contents b)" "buffer_is_empty ring_ops b \<longleftrightarrow> ring_contents b = []"
    by (simp_all add: ring_ops_def telemetry_buffer_count_def telemetry_buffer_is_empty_def ring_contents_def)
  show "length (ring_contents b) \<le> TELEMETRY_BUFFER_CAPACITY"
    using b by (simp add: ring_contents_def ring_inv_def)
qed

end
