(* ===== verification/Edge_App.thy ===== *)
theory Edge_App
  imports Edge_Json Edge_Buffer
begin

text \<open>
  The application of the edge firmware, edge/app/src/app\_state\_machine.c: on the boot event it takes
  a reading, connects, flushes the offline buffer, sends the reading, and goes to sleep; what cannot
  be sent is kept in the buffer. The hardware abstraction layer is a record of functions on the
  world, the operations of the buffer are those of \<open>buffer_ops\<close>, and the event queue of the OS
  abstraction layer is a list. Log lines, and the wake-up cause, which is only logged, are left
  out. Nothing but the application itself sends
  events here, so receiving from an empty queue blocks for ever.
\<close>

section \<open>Float arithmetic of the reading\<close>

text \<open>The \<^verbatim>\<open>float\<close> nearest to the quotient of two naturals, ties to even.\<close>

definition f32_of_quotient :: "nat \<Rightarrow> nat \<Rightarrow> f32" where
  "f32_of_quotient a b =
     (let k = msb_pos (a * 2 ^ 149 div b) - 23
      in word_of_nat (min (k * 2 ^ 23 + round_half_even (a * 2 ^ 149) (b * 2 ^ k)) (255 * 2 ^ 23)))"

text \<open>\<^verbatim>\<open>(float)mv / 1000.0f\<close>\<close>

definition battery_volts :: "u32 \<Rightarrow> f32" where
  "battery_volts mv = f32_of_quotient (mag_value 23 (f32_mag (f32_of_quotient (unat mv) 1))) (mag_value 23 (f32_mag 0x447A0000))"

definition battery_percent :: "u32 \<Rightarrow> u32" where
  "battery_percent mv = (if 4000 < mv then 100 else if 3300 < mv then (mv - 3300) * 100 div 700 else 0)"

section \<open>State\<close>

datatype app_state =
    STATE_BOOT | STATE_SENSING | STATE_CONNECTING | STATE_TRANSMITTING | STATE_OTA_PROCESSING
  | STATE_PREPARE_SLEEP | STATE_SLEEPING

datatype app_event_type =
    EVENT_TYPE_NONE | EVENT_TYPE_WAKEUP_TIMER | EVENT_TYPE_GPIO_INTERRUPT | EVENT_TYPE_NETWORK_CONNECTED
  | EVENT_TYPE_NETWORK_DISCONNECTED | EVENT_TYPE_TELEMETRY_TX_DONE | EVENT_TYPE_OTA_AVAILABLE | EVENT_TYPE_SYSTEM_ERROR

text \<open>The payload of an event is never read, and not modelled.\<close>

record app_event =
  event_type :: app_event_type
  event_timestamp :: u32

datatype osal_status =
    OSAL_OK | OSAL_ERROR | OSAL_ERR_TIMEOUT | OSAL_ERR_INVALID_PARAM | OSAL_ERR_NO_MEMORY
  | OSAL_ERR_RESOURCE_BUSY | OSAL_ERR_NOT_SUPPORTED

text \<open>The static variables; the queue is None while the handle is NULL.\<close>

record 'b edge_app =
  current_state :: app_state
  event_queue :: "app_event list option"
  offline_records :: 'b
  next_seq_no :: u32
  s_boot_count :: u32
  next_sleep_sec :: u32

text \<open>The hardware: the results of a call, None or False for an error, and the world after it.\<close>

record 'w hal =
  osal_get_time_ms :: "'w \<Rightarrow> u32 \<times> 'w"
  hal_init :: "'w \<Rightarrow> 'w"
  hal_adc_read_voltage_mv :: "'w \<Rightarrow> u32 option \<times> 'w"
  hal_network_get_rssi :: "'w \<Rightarrow> i32 option \<times> 'w"
  hal_network_connect :: "'w \<Rightarrow> bool \<times> 'w"
  hal_https_post :: "gostring \<Rightarrow> gostring \<Rightarrow> u8 list \<Rightarrow> 'w \<Rightarrow> (bool \<times> int) \<times> 'w"
  hal_network_disconnect :: "'w \<Rightarrow> 'w"
  hal_sleep_enable_timer_wakeup :: "u32 \<Rightarrow> 'w \<Rightarrow> 'w"
  hal_sleep_enable_gpio_wakeup :: "'w \<Rightarrow> 'w"
  hal_sleep_enter_deep :: "'w \<Rightarrow> 'w"

section \<open>Operations\<close>

definition EVENT_QUEUE_LEN :: nat where
  "EVENT_QUEUE_LEN = 16"

definition app_start :: "'b \<Rightarrow> 'b edge_app" where
  "app_start buf0 = \<lparr>current_state = STATE_BOOT, event_queue = None, offline_records = buf0, next_seq_no = 1,
     s_boot_count = 1, next_sleep_sec = 30\<rparr>"

text \<open>\<open>mem\<close> says that the queue could be allocated, \<open>buf0\<close> is an empty buffer.\<close>

definition app_state_machine_init :: "bool \<Rightarrow> 'b \<Rightarrow> 'b edge_app \<Rightarrow> osal_status \<times> 'b edge_app" where
  "app_state_machine_init mem buf0 app =
     (if \<not> mem then (OSAL_ERR_NO_MEMORY, app)
      else (OSAL_OK, app\<lparr>event_queue := Some [], offline_records := buf0, current_state := STATE_BOOT\<rparr>))"

definition transition_to :: "app_state \<Rightarrow> 'b edge_app \<Rightarrow> 'b edge_app" where
  "transition_to next_state app = app\<lparr>current_state := next_state\<rparr>"

definition app_state_machine_dispatch :: "app_event option \<Rightarrow> 'b edge_app \<Rightarrow> osal_status \<times> 'b edge_app" where
  "app_state_machine_dispatch event app =
     (case (event_queue app, event) of
        (Some q, Some e) \<Rightarrow>
          if length q = EVENT_QUEUE_LEN then (OSAL_ERR_TIMEOUT, app)
          else (OSAL_OK, app\<lparr>event_queue := Some (q @ [e])\<rparr>)
      | _ \<Rightarrow> (OSAL_ERR_INVALID_PARAM, app))"

definition transmit_telemetry_item :: "'w hal \<Rightarrow> telemetry_data \<Rightarrow> 'w \<Rightarrow> bool \<times> 'w" where
  "transmit_telemetry_item hal item w =
     (let (payload_len, payload) = serialize_telemetry_json (Some item) True 512
      in if payload_len \<le> 0 then (False, w)
         else let ((tx_ok, status_code), w') =
                    hal_https_post hal ''https://127.0.0.1:8443/api/v1/telemetry'' ''application/json'' (string_to_bytes payload) w
              in (tx_ok \<and> status_code = 200, w'))"

text \<open>The reading. An error of the converter or of the radio leaves a zero.\<close>

definition take_reading :: "'w hal \<Rightarrow> 'b edge_app \<Rightarrow> 'w \<Rightarrow> telemetry_data \<times> 'b edge_app \<times> 'w" where
  "take_reading hal app w =
     (let (now_ms, w1) = osal_get_time_ms hal w;
          (up_ms, w2) = osal_get_time_ms hal w1;
          (adc, w3) = hal_adc_read_voltage_mv hal w2;
          mv = (case adc of None \<Rightarrow> 0 | Some v \<Rightarrow> v);
          (radio, w4) = hal_network_get_rssi hal w3
      in (\<lparr>td_device_id = Some ''DEV-ESP32-001'', td_timestamp = now_ms div 1000, td_seq_no = next_seq_no app,
           td_firmware_version = Some ''1.0.0'', td_boot_count = s_boot_count app,
           td_temperature = 0x41CB3333, td_humidity = 0x4268CCCD, td_battery_voltage = battery_volts mv,
           td_battery_level_pct = battery_percent mv, td_rssi = (case radio of None \<Rightarrow> 0 | Some r \<Rightarrow> r),
           td_interval_sec = 0, td_state = Some ''NORMAL'', td_uptime_sec = up_ms div 1000, td_free_heap_bytes = 48000\<rparr>,
          app\<lparr>next_seq_no := next_seq_no app + 1\<rparr>, w4))"

text \<open>The flush: \<^verbatim>\<open>while (!is_empty) if (peek(&old_item)) if (transmit(&old_item)) pop(); else break;\<close>\<close>

partial_function (option) flush ::
  "'b buffer_ops \<Rightarrow> (telemetry_data \<Rightarrow> 'w \<Rightarrow> bool \<times> 'w) \<Rightarrow> 'b \<Rightarrow> 'w \<Rightarrow> ('b \<times> 'w) option"
where
  "flush ops transmit buf w =
     (if buffer_is_empty ops buf then Some (buf, w)
      else case buffer_peek ops buf of
             None \<Rightarrow> flush ops transmit buf w
           | Some old_item \<Rightarrow>
               if fst (transmit old_item w) then flush ops transmit (snd (buffer_pop ops buf)) (snd (transmit old_item w))
               else Some (buf, snd (transmit old_item w)))"

definition send_readings ::
  "'w hal \<Rightarrow> 'b buffer_ops \<Rightarrow> telemetry_data \<Rightarrow> 'b edge_app \<Rightarrow> 'w \<Rightarrow> ('b edge_app \<times> 'w) option"
where
  "send_readings hal ops current app w =
     (let transmit = transmit_telemetry_item hal in
      case (if 0 < buffer_count ops (offline_records app) then flush ops transmit (offline_records app) w
            else Some (offline_records app, w)) of
        None \<Rightarrow> None
      | Some (buf, w1) \<Rightarrow>
          let (sent, w2) = transmit current w1
          in Some (app\<lparr>offline_records := (if sent then buf else snd (buffer_push ops (Some current) buf))\<rparr>, w2))"

definition boot_event :: "'w hal \<Rightarrow> 'b buffer_ops \<Rightarrow> 'b edge_app \<Rightarrow> 'w \<Rightarrow> ('b edge_app \<times> 'w) option" where
  "boot_event hal ops app w =
     (let (current, app1, w1) = take_reading hal (transition_to STATE_SENSING app) (hal_init hal w);
          (up, w2) = hal_network_connect hal w1;
          app2 = transition_to STATE_CONNECTING app1
      in case (if up then send_readings hal ops current (transition_to STATE_TRANSMITTING app2) w2
               else Some (app2\<lparr>offline_records := snd (buffer_push ops (Some current) (offline_records app2))\<rparr>, w2)) of
           None \<Rightarrow> None
         | Some (app3, w3) \<Rightarrow>
             let w4 = hal_network_disconnect hal w3;
                 w5 = hal_sleep_enable_gpio_wakeup hal (hal_sleep_enable_timer_wakeup hal (next_sleep_sec app3) w4)
             in Some (transition_to STATE_SLEEPING (transition_to STATE_PREPARE_SLEEP app3), hal_sleep_enter_deep hal w5))"

partial_function (option) event_loop :: "'w hal \<Rightarrow> 'b buffer_ops \<Rightarrow> 'b edge_app \<Rightarrow> 'w \<Rightarrow> ('b edge_app \<times> 'w) option" where
  "event_loop hal ops app w =
     (case event_queue app of
        Some (e # q) \<Rightarrow>
          let w1 = snd (osal_get_time_ms hal w); app1 = app\<lparr>event_queue := Some q\<rparr>
          in if current_state app1 = STATE_BOOT then boot_event hal ops app1 w1 else event_loop hal ops app1 w1
      | _ \<Rightarrow> event_loop hal ops app w)"

definition app_main_event_loop :: "'w hal \<Rightarrow> 'b buffer_ops \<Rightarrow> 'b edge_app \<Rightarrow> 'w \<Rightarrow> ('b edge_app \<times> 'w) option" where
  "app_main_event_loop hal ops app w =
     (let (ms, w1) = osal_get_time_ms hal w;
          boot_evt = \<lparr>event_type = EVENT_TYPE_WAKEUP_TIMER, event_timestamp = ms div 1000\<rparr>
      in event_loop hal ops (snd (app_state_machine_dispatch (Some boot_evt) app)) w1)"

section \<open>The flush of a buffer that keeps its contract\<close>

text \<open>Sending a list of records in order, up to the first failure: what is left, and the world.\<close>

fun send_all :: "('a \<Rightarrow> 'w \<Rightarrow> bool \<times> 'w) \<Rightarrow> 'a list \<Rightarrow> 'w \<Rightarrow> 'a list \<times> 'w" where
  "send_all transmit [] w = ([], w)"
| "send_all transmit (x # xs) w =
     (let (ok, w') = transmit x w in if ok then send_all transmit xs w' else (x # xs, w'))"

lemma send_all_suffix: "send_all transmit xs w = (ys, w') \<Longrightarrow> suffix ys xs"
  by (induction xs arbitrary: w) (auto simp: case_prod_beta intro: suffix_ConsI split: if_splits)

context offline_buffer
begin

lemma flush_sends:
  assumes "buffer_inv b"
  shows "\<exists>b'. flush ops transmit b w = Some (b', snd (send_all transmit (contents b) w)) \<and>
    buffer_inv b' \<and> contents b' = fst (send_all transmit (contents b) w)"
  using assms
proof (induction "contents b" arbitrary: b w)
  case Nil
  then have "contents b = []" by simp
  then show ?case using Nil empty[of b] by (simp add: flush.simps)
next
  case (Cons x xs)
  note b = Cons.prems Cons.hyps(2)[symmetric]
  have peek_x: "\<not> buffer_is_empty ops b" "buffer_peek ops b = Some x" using empty[OF b(1)] peek[OF b(1)] b(2) by simp_all
  obtain ok w' where t: "transmit x w = (ok, w')" by fastforce
  show ?case
  proof (cases ok)
    case True
    let ?b = "snd (buffer_pop ops b)"
    have popped: "buffer_inv ?b" "contents ?b = xs" using pop[OF b(1)] b(2) by simp_all
    have "flush ops transmit b w = flush ops transmit ?b w'" using peek_x t True by (subst flush.simps) simp
    with Cons.hyps(1)[of ?b w'] popped b(2) t True show ?thesis by simp
  next
    case False
    then have "flush ops transmit b w = Some (b, w')" using peek_x t by (subst flush.simps) simp
    with b t False show ?thesis by simp
  qed
qed

lemma send_readings_sends:
  fixes app w current hal
  defines "sent \<equiv> send_all (transmit_telemetry_item hal) (contents (offline_records app)) w"
  defines "live \<equiv> transmit_telemetry_item hal current (snd sent)"
  assumes "buffer_inv (offline_records app)"
  shows "\<exists>buf. send_readings hal ops current app w = Some (app\<lparr>offline_records := buf\<rparr>, snd live) \<and> buffer_inv buf \<and>
    contents buf = (if fst live then fst sent else newest_records capacity (fst sent @ [cut current]))"
proof -
  let ?t = "transmit_telemetry_item hal" and ?b = "offline_records app"
  have "\<exists>b'. (if 0 < buffer_count ops ?b then flush ops ?t ?b w else Some (?b, w)) = Some (b', snd sent) \<and>
      buffer_inv b' \<and> contents b' = fst sent"
    using flush_sends[OF assms(3), of ?t w] count[OF assms(3)] assms(3) by (cases "contents ?b") (auto simp: sent_def)
  then obtain b' where b': "(if 0 < buffer_count ops ?b then flush ops ?t ?b w else Some (?b, w)) = Some (b', snd sent)"
    "buffer_inv b'" "contents b' = fst sent" by blast
  then show ?thesis
    using push[OF b'(2), of current] by (auto simp: send_readings_def Let_def case_prod_beta live_def simp del: if_split)
qed

end

section \<open>The wake-up cycle\<close>

lemma event_loop_boot: "event_loop hal ops app w = Some r \<Longrightarrow> current_state app = STATE_BOOT"
proof (rule event_loop.raw_induct[where P = "\<lambda>hal ops app w r. current_state app = STATE_BOOT"])
  fix loop hal ops app w r
  assume hyp: "\<And>hal ops app w r. loop hal ops app w = Some r \<Longrightarrow> current_state app = STATE_BOOT"
    and "(case event_queue app of
        Some (e # q) \<Rightarrow>
          (let w1 = snd (osal_get_time_ms hal w); app1 = app\<lparr>event_queue := Some q\<rparr>
          in if current_state app1 = STATE_BOOT then boot_event hal ops app1 w1 else loop hal ops app1 w1)
      | _ \<Rightarrow> loop hal ops app w) = Some r"
  then show "current_state app = STATE_BOOT"
    by (auto simp: Let_def split: option.splits list.splits if_splits dest!: hyp)
qed

text \<open>What a cycle does to a bounded queue of records: the records in \<open>records\<close> are sent up to the
  first failure, then the reading; a reading that is not sent is kept.\<close>

definition cycle_spec ::
  "'w hal \<Rightarrow> nat \<Rightarrow> telemetry_data list \<Rightarrow> telemetry_data \<Rightarrow> 'w \<Rightarrow> telemetry_data list \<times> 'w" where
  "cycle_spec hal capacity records current w =
     (let transmit = transmit_telemetry_item hal; (up, w1) = hal_network_connect hal w in
      if up then
        let (rest, w2) = send_all transmit records w1; (sent, w3) = transmit current w2
        in (if sent then rest else newest_records capacity (rest @ [cut current]), w3)
      else (newest_records capacity (records @ [cut current]), w1))"

definition go_to_sleep :: "'w hal \<Rightarrow> u32 \<Rightarrow> 'w \<Rightarrow> 'w" where
  "go_to_sleep hal sec w =
     hal_sleep_enter_deep hal (hal_sleep_enable_gpio_wakeup hal (hal_sleep_enable_timer_wakeup hal sec (hal_network_disconnect hal w)))"

text \<open>The application after its initialisation, and the world when it takes the reading.\<close>

definition booted :: "'b edge_app \<Rightarrow> bool" where
  "booted app \<longleftrightarrow> current_state app = STATE_BOOT \<and> event_queue app = Some []"

definition awake :: "'w hal \<Rightarrow> 'w \<Rightarrow> 'w" where
  "awake hal w = hal_init hal (snd (osal_get_time_ms hal (snd (osal_get_time_ms hal w))))"

lemma main_loop_boot:
  assumes "booted app"
  shows "app_main_event_loop hal ops app w =
    boot_event hal ops app (snd (osal_get_time_ms hal (snd (osal_get_time_ms hal w))))"
proof -
  have same: "app\<lparr>event_queue := Some []\<rparr> = app" using assms by (cases app) (simp add: booted_def)
  show ?thesis
    using assms by (simp add: same booted_def app_main_event_loop_def app_state_machine_dispatch_def EVENT_QUEUE_LEN_def Let_def
      case_prod_beta event_loop.simps)
qed

lemma take_reading_app: "fst (snd (take_reading hal app w)) = app\<lparr>next_seq_no := next_seq_no app + 1\<rparr>"
  by (simp add: take_reading_def Let_def case_prod_beta)

lemma take_reading_transition:
  "fst (take_reading hal (app\<lparr>current_state := s\<rparr>) w) = fst (take_reading hal app w)"
  "snd (snd (take_reading hal (app\<lparr>current_state := s\<rparr>) w)) = snd (snd (take_reading hal app w))"
  by (simp_all add: take_reading_def Let_def case_prod_beta)

context offline_buffer
begin

lemma cycle:
  fixes app w hal
  defines "current \<equiv> fst (take_reading hal app (awake hal w))"
    and "w1 \<equiv> snd (snd (take_reading hal app (awake hal w)))"
  assumes "booted app" and "buffer_inv (offline_records app)"
  shows "\<exists>app'. app_main_event_loop hal ops app w =
      Some (app', go_to_sleep hal (next_sleep_sec app) (snd (cycle_spec hal capacity (contents (offline_records app)) current w1))) \<and>
    current_state app' = STATE_SLEEPING \<and> event_queue app' = Some [] \<and> next_seq_no app' = next_seq_no app + 1 \<and>
    buffer_inv (offline_records app') \<and>
    contents (offline_records app') = fst (cycle_spec hal capacity (contents (offline_records app)) current w1)"
proof -
  note t = take_reading_transition take_reading_app
  let ?b = "offline_records app" and ?w = "snd (hal_network_connect hal w1)"
  let ?app = "app\<lparr>next_seq_no := next_seq_no app + 1, current_state := STATE_TRANSMITTING\<rparr>"
  show ?thesis
  proof (cases "fst (hal_network_connect hal w1)")
    case True
    from send_readings_sends[of ?app hal current ?w] assms(4)
    obtain buf where buf: "send_readings hal ops current ?app ?w =
        Some (?app\<lparr>offline_records := buf\<rparr>, snd (cycle_spec hal capacity (contents ?b) current w1))" "buffer_inv buf"
      "contents buf = fst (cycle_spec hal capacity (contents ?b) current w1)"
      using True by (auto simp: cycle_spec_def Let_def case_prod_beta)
    have "boot_event hal ops app (snd (osal_get_time_ms hal (snd (osal_get_time_ms hal w)))) =
        Some (?app\<lparr>offline_records := buf, current_state := STATE_SLEEPING\<rparr>,
          go_to_sleep hal (next_sleep_sec app) (snd (cycle_spec hal capacity (contents ?b) current w1)))"
      using True buf(1)
      by (simp add: boot_event_def Let_def case_prod_beta t awake_def[symmetric] current_def[symmetric] w1_def[symmetric]
          transition_to_def go_to_sleep_def)
    then show ?thesis using assms(3) buf by (simp add: main_loop_boot booted_def)
  next
    case False
    have "boot_event hal ops app (snd (osal_get_time_ms hal (snd (osal_get_time_ms hal w)))) =
        Some (app\<lparr>current_state := STATE_SLEEPING, next_seq_no := next_seq_no app + 1,
            offline_records := snd (buffer_push ops (Some current) ?b)\<rparr>,
          go_to_sleep hal (next_sleep_sec app) ?w)"
      using False
      by (simp add: boot_event_def Let_def case_prod_beta t awake_def[symmetric] current_def[symmetric] w1_def[symmetric]
          transition_to_def go_to_sleep_def)
    then show ?thesis using False assms(3) push[OF assms(4), of current]
      by (simp add: main_loop_boot booted_def cycle_spec_def Let_def case_prod_beta)
  qed
qed

end

section \<open>The records of the application\<close>

lemma f32_of_quotient_le:
  assumes "0 < b" and "a \<le> 2 ^ j * b"
  shows "f32_mag (f32_of_quotient a b) \<le> (j + 128) * 2 ^ 23"
    and "j \<le> 100 \<Longrightarrow> f32_finite (f32_of_quotient a b)"
proof -
  define k where "k = msb_pos (a * 2 ^ 149 div b) - 23"
  define r where "r = round_half_even (a * 2 ^ 149) (b * 2 ^ k)"
  define q where "q = a * 2 ^ 149 div b"
  have "a * 2 ^ 149 \<le> 2 ^ (j + 149) * b" using assms(2) by (simp add: power_add)
  then have q_le: "q \<le> 2 ^ (j + 149)" unfolding q_def by (metis assms(1) div_le_mono nonzero_mult_div_cancel_right less_numeral_extra(3))
  have msb: "q < 2 ^ Suc (msb_pos q)" "msb_pos q \<le> j + 149"
  proof -
    show "q < 2 ^ Suc (msb_pos q)" using msb_pos_bounds[of q] by (cases "q = 0") simp_all
    show "msb_pos q \<le> j + 149"
    proof (cases "q = 0")
      case False
      then have "2 ^ msb_pos q \<le> q" using msb_pos_bounds[of q] by simp
      then have "(2 :: nat) ^ msb_pos q \<le> 2 ^ (j + 149)" using q_le by (rule order_trans)
      then show ?thesis by (simp only: power_increasing_iff one_less_numeral_iff semiring_norm)
    qed (simp add: msb_pos.simps)
  qed
  have k: "k = msb_pos q - 23" by (simp add: k_def q_def)
  have "a * 2 ^ 149 < (q + 1) * b" unfolding q_def using assms(1) by (simp add: dividend_less_div_times)
  also have "\<dots> \<le> 2 ^ (24 + k) * b"
  proof (rule mult_right_mono)
    have "q < 2 ^ (24 + k)" by (rule order_less_le_trans[OF msb(1)], rule power_increasing) (simp_all add: k)
    then show "q + 1 \<le> 2 ^ (24 + k)" by simp
  qed simp
  finally have "a * 2 ^ 149 \<le> 2 ^ 24 * (b * 2 ^ k)" by (simp add: power_add ac_simps)
  then have r: "r \<le> 2 ^ 24" unfolding r_def using assms(1) by (intro half_even_le) simp_all
  have k_le: "k \<le> j + 126" using msb(2) by (simp add: k)
  then have "k * 2 ^ 23 + r \<le> (j + 128) * 2 ^ 23" using r by simp
  moreover have "f32_mag (f32_of_quotient a b) = min (k * 2 ^ 23 + r) (255 * 2 ^ 23)"
  proof -
    have "min (k * 2 ^ 23 + r) (255 * 2 ^ 23) < 2 ^ 31" by (rule order_le_less_trans[OF min.cobounded2]) simp
    then show ?thesis
      by (simp add: f32_of_quotient_def Let_def f32_mag_def k_def r_def unat_of_nat take_bit_nat_eq_self del: min_less_iff_disj)
  qed
  ultimately show mag: "f32_mag (f32_of_quotient a b) \<le> (j + 128) * 2 ^ 23" by simp
  show "f32_finite (f32_of_quotient a b)" if "j \<le> 100" using mag that by (simp add: f32_finite_def)
qed

lemma battery_volts_finite: "f32_finite (battery_volts mv)"
proof -
  have mv: "unat mv \<le> 2 ^ 32 * 1" using unsigned_less[of mv, where 'a = nat] by simp
  have "mag_value 23 (f32_mag (f32_of_quotient (unat mv) 1)) \<le> mag_value 23 (160 * 2 ^ 23)"
    using f32_of_quotient_le(1)[OF _ mv] by (simp add: linorder_not_less[symmetric])
  also have "\<dots> \<le> 2 ^ 30 * mag_value 23 (f32_mag 0x447A0000)" by (simp add: mag_value_def f32_mag_def)
  finally have "mag_value 23 (f32_mag (f32_of_quotient (unat mv) 1)) \<le> 2 ^ 30 * mag_value 23 (f32_mag 0x447A0000)" .
  moreover have "0 < mag_value 23 (f32_mag 0x447A0000)" by (simp add: mag_value_def f32_mag_def)
  ultimately show ?thesis unfolding battery_volts_def by (intro f32_of_quotient_le(2)[of _ _ 30]) simp_all
qed

definition edge_record :: "telemetry_data \<Rightarrow> bool" where
  "edge_record d \<longleftrightarrow> td_device_id d = Some ''DEV-ESP32-001'' \<and> td_firmware_version d = Some ''1.0.0'' \<and>
     td_state d = Some ''NORMAL'' \<and>
     f32_finite (td_temperature d) \<and> f32_finite (td_humidity d) \<and> f32_finite (td_battery_voltage d)"

lemma edge_record_ok:
  assumes "edge_record d"
  shows "edge_ok d" "short_strings d" "cut d = d"
  using assms by (cases d; simp add: edge_record_def edge_ok_def short_strings_def cut_def c_default_def plain_char_def)+

lemma reading_constants: "f32_finite 0x41CB3333" "f32_finite 0x4268CCCD"
  by (simp_all add: f32_finite_def f32_mag_def)

lemma take_reading_record: "edge_record (fst (take_reading hal app w))"
  by (simp add: take_reading_def Let_def case_prod_beta edge_record_def battery_volts_finite reading_constants)

end
