(* ===== verification/Edge_Server.thy ===== *)
theory Edge_Server
  imports Edge_App Json_Server
begin

text \<open>
  The application of the firmware against the Go server: its HTTPS client reaches the edge listener.
  The application passes no credentials (\<^verbatim>\<open>.tls_creds = NULL\<close>), so the request has no client
  certificate. Against a listener that demands one, a real handshake already fails; in the model the
  middleware answers 401. For the application both are a failed transmission.
\<close>

section \<open>The connection\<close>

text \<open>The world is the rest of the board, the state of the server and the number of requests so far.\<close>

definition on_board :: "('l \<Rightarrow> 'a \<times> 'l) \<Rightarrow> 'l \<times> 'w \<Rightarrow> 'a \<times> 'l \<times> 'w" where
  "on_board f = (\<lambda>(l, w). let (r, l') = f l in (r, l', w))"

definition connected ::
  "'l hal \<Rightarrow> 's server \<Rightarrow> (nat \<Rightarrow> nat \<Rightarrow> time) \<Rightarrow> ('l \<times> 's api_state \<times> nat) hal"
where
  "connected board srv clk =
     \<lparr>osal_get_time_ms = on_board (osal_get_time_ms board),
      hal_init = map_prod (hal_init board) id,
      hal_adc_read_voltage_mv = on_board (hal_adc_read_voltage_mv board),
      hal_network_get_rssi = on_board (hal_network_get_rssi board),
      hal_network_connect = on_board (hal_network_connect board),
      hal_https_post = (\<lambda>url ctype body (l, w).
        let (r, w') = http_send edge_url (\<lambda>n. edge_serve srv (clk n)) None ''POST'' ctype body url w
        in (case r of Inl e \<Rightarrow> (False, 0) | Inr resp \<Rightarrow> (True, int (ReplyStatus resp)), l, w')),
      hal_network_disconnect = map_prod (hal_network_disconnect board) id,
      hal_sleep_enable_timer_wakeup = (\<lambda>sec. map_prod (hal_sleep_enable_timer_wakeup board sec) id),
      hal_sleep_enable_gpio_wakeup = map_prod (hal_sleep_enable_gpio_wakeup board) id,
      hal_sleep_enter_deep = map_prod (hal_sleep_enter_deep board) id\<rparr>"

lemma connected_local:
  "snd (snd (osal_get_time_ms (connected board srv clk) w)) = snd w"
  "snd (hal_init (connected board srv clk) w) = snd w"
  "snd (snd (hal_adc_read_voltage_mv (connected board srv clk) w)) = snd w"
  "snd (snd (hal_network_get_rssi (connected board srv clk) w)) = snd w"
  "snd (snd (hal_network_connect (connected board srv clk) w)) = snd w"
  "snd (hal_network_disconnect (connected board srv clk) w) = snd w"
  "snd (hal_sleep_enable_timer_wakeup (connected board srv clk) sec w) = snd w"
  "snd (hal_sleep_enable_gpio_wakeup (connected board srv clk) w) = snd w"
  "snd (hal_sleep_enter_deep (connected board srv clk) w) = snd w"
  by (simp_all add: connected_def on_board_def case_prod_beta Let_def)

lemma local_keeps_server:
  "snd (snd (snd (take_reading (connected board srv clk) app w))) = snd w"
  "snd (awake (connected board srv clk) w) = snd w"
  "snd (go_to_sleep (connected board srv clk) sec w) = snd w"
  by (simp_all add: take_reading_def awake_def go_to_sleep_def connected_local Let_def case_prod_beta)

section \<open>One transmission\<close>

definition edge_request :: "telemetry_data \<Rightarrow> http_request" where
  "edge_request d = client_request ''POST'' ''application/json'' (string_to_bytes (edge_json d)) None ''/api/v1/telemetry''"

lemma edge_request_fields:
  "Method (edge_request d) = ''POST''" "Path (edge_request d) = ''/api/v1/telemetry''"
  "ContentType (edge_request d) = ''application/json''" "Body (edge_request d) = Ok (string_to_bytes (edge_json d))"
  "peer_certificate (edge_request d) = None"
  by (simp_all add: edge_request_def client_request_def url_path_def peer_certificate_def)

lemma transmit_request:
  assumes "edge_record d"
  shows "transmit_telemetry_item (connected board srv clk) d (l, st, n) =
    (let (r, st') = reply (edge_serve srv (clk n) (edge_request d) st) st
     in (case r of Inl e \<Rightarrow> False | Inr resp \<Rightarrow> ReplyStatus resp = 200, l, st', Suc n))"
proof -
  have len: "0 < length (edge_json d)" by (simp add: edge_json_def)
  have url: "prefix edge_url ''https://127.0.0.1:8443/api/v1/telemetry''"
    "drop (length edge_url) ''https://127.0.0.1:8443/api/v1/telemetry'' = ''/api/v1/telemetry''"
    by (simp_all add: edge_url_def)
  show ?thesis
    using len url
    by (simp add: transmit_telemetry_item_def serialize_fits[OF edge_record_ok(2)[OF assms]] connected_def http_send_def
        edge_request_def Let_def case_prod_beta split: sum.split)
qed

lemma transmit_refused:
  assumes "requireMTLS srv" and "edge_record d"
  shows "transmit_telemetry_item (connected board srv clk) d (l, st, n) = (False, l, st, Suc n)"
  using assms
  by (simp add: transmit_request edge_serve_def edge_request_fields edge_telemetry_route middleware_cases reply_def json_response_def)

lemma transmit_stored:
  assumes "edge_record d"
  shows "\<exists>st'. transmit_telemetry_item (connected board (json_server order alloc oor sha err url False fs) clk) d (l, st, n) = (True, l, st', Suc n) \<and>
    (\<forall>dev. slice_of (telemetries (repo_state st')) dev = slice_of (telemetries (repo_state st)) dev @
       (if dev = ''DEV-ESP32-001'' then [edge_payload d] else []))"
proof -
  let ?env = "json_env alloc oor sha err" and ?ctx = "background_context\<lparr>DeviceIDKey := Some ''DEV-ESP32-001''\<rparr>"
  have id: "payload_id (edge_payload d) = ''DEV-ESP32-001''"
    using assms by (simp add: edge_payload_def edge_record_def c_default_def)
  have "submits ?env ?ctx (edge_request d) (edge_payload d)"
    using demo_not_binary id unmarshal_edge_json[OF edge_record_ok(1)[OF assms]]
    by (simp add: submits_def edge_request_fields decode_telemetry_body_def authenticated_id_def GetAuthenticatedDeviceID_def)
  from mem_telemetry[OF this, where order = order and url = url and clk = "clk n" and st = st]
  obtain resp s' st' where h: "HandleTelemetry (mem_api order ?env url) ?env (clk n) ?ctx (edge_request d) st =
      Some (Ok (answer resp), st')" "repo_state st' = s'"
    "s' = (snd (mem_SaveTelemetry (clk n 0) (edge_payload d) (repo_state st)))\<lparr>events := events s'\<rparr>" by fastforce
  have "slice_of (telemetries s') dev = slice_of (telemetries (repo_state st)) dev @
      (if dev = ''DEV-ESP32-001'' then [edge_payload d] else [])" for dev
    by (subst h(3)) (simp add: save_tables id)
  moreover have "edge_serve (json_server order alloc oor sha err url False fs) (clk n) (edge_request d) st = Some (Ok (answer resp), st')"
    using h(1) by (simp add: mem_server_def edge_serve_def edge_request_fields edge_telemetry_route middleware_cases
        serve_endpoint_def)
  ultimately show ?thesis using h(2)
    by (simp add: transmit_request[OF assms] reply_def json_response_def Let_def)
qed

section \<open>A list of records\<close>

lemma send_all_refused:
  assumes "requireMTLS srv" and "list_all edge_record ds"
  shows "\<exists>n'. send_all (transmit_telemetry_item (connected board srv clk)) ds (l, st, n) = (ds, l, st, n')"
  using assms(2) transmit_refused[OF assms(1), of _ board clk l st n] by (cases ds) auto

lemma send_all_stored:
  assumes "list_all edge_record ds"
  shows "\<exists>st'. send_all (transmit_telemetry_item (connected board (json_server order alloc oor sha err url False fs) clk)) ds (l, st, n) =
      ([], l, st', n + length ds) \<and>
    (\<forall>dev. slice_of (telemetries (repo_state st')) dev = slice_of (telemetries (repo_state st)) dev @
       (if dev = ''DEV-ESP32-001'' then map edge_payload ds else []))"
  using assms
proof (induction ds arbitrary: st n)
  case (Cons d ds)
  from transmit_stored[where order = order and alloc = alloc and oor = oor and sha = sha and err = err and url = url and fs = fs
      and board = board and clk = clk and l = l and st = st and n = n and d = d] Cons.prems
  obtain st1 where d: "transmit_telemetry_item (connected board (json_server order alloc oor sha err url False fs) clk) d (l, st, n) =
      (True, l, st1, Suc n)"
    "\<forall>dev. slice_of (telemetries (repo_state st1)) dev = slice_of (telemetries (repo_state st)) dev @
       (if dev = ''DEV-ESP32-001'' then [edge_payload d] else [])" by auto
  from Cons.IH[of st1 "Suc n"] Cons.prems
  obtain st' where ds: "send_all (transmit_telemetry_item (connected board (json_server order alloc oor sha err url False fs) clk)) ds (l, st1, Suc n) =
      ([], l, st', Suc n + length ds)"
    "\<forall>dev. slice_of (telemetries (repo_state st')) dev = slice_of (telemetries (repo_state st1)) dev @
       (if dev = ''DEV-ESP32-001'' then map edge_payload ds else [])" by auto
  show ?case using d ds by (intro exI[of _ st']) simp
qed simp

section \<open>What is never sent\<close>

lemma asleep_never_returns:
  assumes "current_state app \<noteq> STATE_BOOT"
  shows "app_main_event_loop hal ops app w = None"
proof (cases "app_main_event_loop hal ops app w")
  case (Some r)
  define app1 where "app1 = snd (app_state_machine_dispatch
    (Some \<lparr>event_type = EVENT_TYPE_WAKEUP_TIMER, event_timestamp = fst (osal_get_time_ms hal w) div 1000\<rparr>) app)"
  have "current_state app1 = current_state app" by (simp add: app1_def app_state_machine_dispatch_def split: option.split)
  moreover have "event_loop hal ops app1 (snd (osal_get_time_ms hal w)) = Some r"
    using Some by (simp add: app_main_event_loop_def Let_def case_prod_beta app1_def)
  ultimately show ?thesis using event_loop_boot assms by metis
qed

section \<open>A cycle of the application against the server\<close>

text \<open>The record of the cycle, as the board measures it.\<close>

definition reading :: "'l hal \<Rightarrow> 'b edge_app \<Rightarrow> 'l \<Rightarrow> telemetry_data" where
  "reading board app l = fst (take_reading board app (awake board l))"

lemma connected_reading:
  "fst (take_reading (connected board srv clk) app (awake (connected board srv clk) w)) = reading board app (fst w)"
  by (cases w) (simp add: reading_def take_reading_def awake_def connected_def on_board_def Let_def case_prod_beta)

lemma connected_network: "fst (hal_network_connect (connected board srv clk) w) = fst (hal_network_connect board (fst w))"
  by (simp add: connected_def on_board_def case_prod_beta Let_def)

lemma reading_record: "edge_record (reading board app l)" "cut (reading board app l) = reading board app l"
  by (simp_all add: reading_def take_reading_record edge_record_ok)

section \<open>A board and an application with one buffered record\<close>

definition demo_board :: "nat hal" where
  "demo_board = \<lparr>osal_get_time_ms = (\<lambda>t. (of_nat t, t)), hal_init = id, hal_adc_read_voltage_mv = Pair (Some 3700),
     hal_network_get_rssi = Pair (Some (- 65)), hal_network_connect = Pair True, hal_https_post = (\<lambda>url ctype body. Pair (False, 0)),
     hal_network_disconnect = id, hal_sleep_enable_timer_wakeup = (\<lambda>sec t. t + 1000 * unat sec), hal_sleep_enable_gpio_wakeup = id,
     hal_sleep_enter_deep = id\<rparr>"

definition demo_app :: "telemetry_ring_buffer edge_app" where
  "demo_app =
     (let app0 = snd (app_state_machine_init True telemetry_buffer_init (app_start telemetry_buffer_init));
          (d, app1, t) = take_reading demo_board app0 60000
      in app1\<lparr>offline_records := snd (telemetry_buffer_push (Some d) (offline_records app1))\<rparr>)"

lemma demo_app_ready:
  "booted demo_app" "ring_inv (offline_records demo_app)"
  "ring_contents (offline_records demo_app) = [reading demo_board (app_start telemetry_buffer_init) 60000]"
proof -
  let ?d = "fst (take_reading demo_board (app_start telemetry_buffer_init) 60000)"
  have d: "reading demo_board (app_start telemetry_buffer_init) 60000 = ?d"
    by (simp add: reading_def awake_def demo_board_def take_reading_def Let_def app_start_def)
  have app: "demo_app = (app_start telemetry_buffer_init)\<lparr>event_queue := Some [], next_seq_no := 2,
      offline_records := snd (telemetry_buffer_push (Some ?d) telemetry_buffer_init)\<rparr>"
    by (simp add: demo_app_def Let_def app_state_machine_init_def take_reading_def app_start_def case_prod_beta)
  show "booted demo_app" by (simp add: app booted_def app_start_def)
  show "ring_inv (offline_records demo_app)" by (simp add: app ring_push(2)[OF ring_init(1)])
  show "ring_contents (offline_records demo_app) = [reading demo_board (app_start telemetry_buffer_init) 60000]"
    using take_reading_record[of demo_board "app_start telemetry_buffer_init" 60000]
    by (simp add: app d ring_push(3)[OF ring_init(1)] ring_init(2) newest_records_def edge_record_ok TELEMETRY_BUFFER_CAPACITY_def)
qed

lemma demo_records: "list_all edge_record (ring_contents (offline_records demo_app))"
  by (simp add: demo_app_ready reading_record)

lemma demo_fields:
  "td_seq_no (reading demo_board app t) = next_seq_no app" "td_battery_level_pct (reading demo_board app t) = 57"
  "td_rssi (reading demo_board app t) = - 65"
  by (simp_all add: reading_def take_reading_def Let_def case_prod_beta demo_board_def battery_percent_def)

lemma demo_app_seq: "next_seq_no demo_app = 2"
  by (simp add: demo_app_def Let_def app_state_machine_init_def take_reading_def app_start_def case_prod_beta)

text \<open>
  C39: With a listener that asks for no client certificate, an initialised application whose network
  connects, and whose ring is well-formed and holds records of its own making (its identity, version
  and state, finite floats), ends its cycle: for the device of the firmware, the in-memory server's
  history gains the buffered records, oldest first, and then the record of this cycle, as the server
  reads their JSON, and every other device's history is as before; one request is made for each
  record, the buffer is left empty and the application sleeps.
\<close>

theorem edge_cycle_delivers:
  assumes "booted app" and "ring_inv (offline_records app)"
    and "list_all edge_record (ring_contents (offline_records app))"
    and "\<forall>l. fst (hal_network_connect board l)"
  shows "\<exists>app' l' st'. app_main_event_loop (connected board (json_server order alloc oor sha err url False fs) clk) ring_ops app (l, st, n) =
      Some (app', l', st', n + telemetry_buffer_count (offline_records app) + 1) \<and>
    current_state app' = STATE_SLEEPING \<and> ring_contents (offline_records app') = [] \<and>
    (\<forall>dev. slice_of (telemetries (repo_state st')) dev = slice_of (telemetries (repo_state st)) dev @
       (if dev = ''DEV-ESP32-001''
        then map edge_payload (ring_contents (offline_records app)) @ [edge_payload (reading board app l)] else []))"
proof -
  let ?hal = "connected board (json_server order alloc oor sha err url False fs) clk"
    and ?old = "ring_contents (offline_records app)" and ?new = "reading board app l"
  let ?w = "snd (snd (take_reading ?hal app (awake ?hal (l, st, n))))"
  have "snd (snd (hal_network_connect ?hal ?w)) = (st, n)" by (simp only: connected_local local_keeps_server snd_conv)
  then obtain l1 where up: "snd (hal_network_connect ?hal ?w) = (l1, st, n)" by (metis surj_pair snd_conv)
  have "fst (hal_network_connect ?hal ?w)" using assms(4) by (simp add: connected_network)
  note up = up this
  obtain st1 where old: "send_all (transmit_telemetry_item ?hal) ?old (l1, st, n) = ([], l1, st1, n + length ?old)"
    "\<forall>dev. slice_of (telemetries (repo_state st1)) dev = slice_of (telemetries (repo_state st)) dev @
       (if dev = ''DEV-ESP32-001'' then map edge_payload ?old else [])"
    using send_all_stored[OF assms(3)] by meson
  obtain st2 where new: "transmit_telemetry_item ?hal ?new (l1, st1, n + length ?old) = (True, l1, st2, Suc (n + length ?old))"
    "\<forall>dev. slice_of (telemetries (repo_state st2)) dev = slice_of (telemetries (repo_state st1)) dev @
       (if dev = ''DEV-ESP32-001'' then [edge_payload ?new] else [])"
    using transmit_stored[OF reading_record(1)] by meson
  have spec: "cycle_spec ?hal TELEMETRY_BUFFER_CAPACITY ?old ?new ?w = ([], l1, st2, Suc (n + length ?old))"
    using up old(1) new(1) by (simp add: cycle_spec_def Let_def case_prod_beta)
  from ring.cycle[OF assms(1,2), of ?hal "(l, st, n)"]
  obtain app' where app': "app_main_event_loop ?hal ring_ops app (l, st, n) =
      Some (app', go_to_sleep ?hal (next_sleep_sec app) (l1, st2, Suc (n + length ?old)))"
    "current_state app' = STATE_SLEEPING" "ring_contents (offline_records app') = []"
    by (auto simp: connected_reading spec)
  moreover obtain l' where "go_to_sleep ?hal (next_sleep_sec app) (l1, st2, Suc (n + length ?old)) =
      (l', st2, Suc (n + length ?old))"
    using local_keeps_server(3) by (metis surj_pair snd_conv)
  ultimately show ?thesis
    using old(2) new(2) ring.count[OF assms(2)] by (intro exI[of _ app'] exI[of _ l'] exI[of _ st2]) (simp add: ring_ops_def)
qed

theorem edge_cycle_delivers_witness:
  "\<exists>app' l' st'. app_main_event_loop
      (connected demo_board (json_server rev 1024 (\<lambda>_. 0) id (\<lambda>_. EOF) [] False (\<lambda>_ _. http_Error 404 ''404 page not found''))
         (\<lambda>n k. int n)) ring_ops demo_app (120000, initial_state NewInMemoryRepository, 0) = Some (app', l', st', 2) \<and>
    current_state app' = STATE_SLEEPING \<and> ring_contents (offline_records app') = [] \<and>
    map (\<lambda>p. (SeqNo (Header p), BatteryLevelPct (Metrics p), RSSI (Metrics p)))
      (slice_of (telemetries (repo_state st')) ''DEV-ESP32-001'') = [(1, 57, - 65), (2, 57, - 65)] \<and>
    slice_of (telemetries (repo_state st')) ''DEV-STM32-002'' = []"
proof -
  have up: "\<forall>l. fst (hal_network_connect demo_board l)" by (simp add: demo_board_def)
  have none: "slice_of (telemetries (repo_state (initial_state NewInMemoryRepository))) dev = []" for dev
    by (simp add: initial_state_def NewInMemoryRepository_def slice_of_def)
  have one: "telemetry_buffer_count (offline_records demo_app) = 1"
    using ring.count[OF demo_app_ready(2)] by (simp add: ring_ops_def demo_app_ready(3))
  from edge_cycle_delivers[where order = rev and alloc = 1024 and oor = "\<lambda>_. 0" and sha = id and err = "\<lambda>_. EOF" and url = "[]"
      and fs = "\<lambda>_ _. http_Error 404 ''404 page not found''" and clk = "\<lambda>n k. int n" and l = 120000 and n = 0
      and st = "initial_state NewInMemoryRepository", OF demo_app_ready(1,2) demo_records up]
  obtain app' l' st' where run: "app_main_event_loop
      (connected demo_board (json_server rev 1024 (\<lambda>_. 0) id (\<lambda>_. EOF) [] False (\<lambda>_ _. http_Error 404 ''404 page not found''))
         (\<lambda>n k. int n)) ring_ops demo_app (120000, initial_state NewInMemoryRepository, 0) = Some (app', l', st', 2)"
    "current_state app' = STATE_SLEEPING" "ring_contents (offline_records app') = []"
    and hist: "\<And>dev. slice_of (telemetries (repo_state st')) dev = (if dev = ''DEV-ESP32-001''
      then [edge_payload (reading demo_board (app_start telemetry_buffer_init) 60000), edge_payload (reading demo_board demo_app 120000)]
      else [])"
    unfolding one none demo_app_ready(3) by auto
  have "next_seq_no (app_start telemetry_buffer_init) = 1" by (simp add: app_start_def)
  then show ?thesis
    using run by (intro exI[of _ app'] exI[of _ l'] exI[of _ st']) (simp add: hist edge_payload_def demo_fields demo_app_seq)
qed

text \<open>
  C40: For an initialised application with such a ring, where the network does not connect, or the
  listener demands the client certificate that the application does not give, a cycle ends with the
  server as it was and the record of the cycle in the buffer, behind the newest 31 of the older ones.
  These records are lost: the application is asleep, and when its loop is entered again it never
  returns, on any hardware and with any buffer, and leaving that state by initialising the application
  empties the buffer.
\<close>

theorem edge_records_lost:
  assumes "booted app" and "ring_inv (offline_records app)"
    and "list_all edge_record (ring_contents (offline_records app))"
    and "requireMTLS srv \<or> (\<forall>l. \<not> fst (hal_network_connect board l))"
  shows "\<exists>app' l' n'. app_main_event_loop (connected board srv clk) ring_ops app (l, st, n) = Some (app', l', st, n') \<and>
    ring_contents (offline_records app') =
      newest_records 31 (ring_contents (offline_records app)) @ [reading board app l] \<and>
    (\<forall>board' ops w. app_main_event_loop (board' :: 'w hal) ops app' w = None) \<and>
    (let (status, app'') = app_state_machine_init True telemetry_buffer_init app' in
       status = OSAL_OK \<and> booted app'' \<and> ring_contents (offline_records app'') = [])"
proof -
  let ?hal = "connected board srv clk" and ?old = "ring_contents (offline_records app)" and ?new = "reading board app l"
  let ?w = "snd (snd (take_reading ?hal app (awake ?hal (l, st, n))))" and ?all = "newest_records TELEMETRY_BUFFER_CAPACITY"
  have keeps: "snd (snd (hal_network_connect ?hal ?w)) = (st, n)" by (simp only: connected_local local_keeps_server snd_conv)
  have spec: "fst (cycle_spec ?hal TELEMETRY_BUFFER_CAPACITY ?old ?new ?w) = ?all (?old @ [?new]) \<and>
      fst (snd (snd (cycle_spec ?hal TELEMETRY_BUFFER_CAPACITY ?old ?new ?w))) = st"
  proof (cases "fst (hal_network_connect ?hal ?w)")
    case True
    then have "requireMTLS srv" using assms(4) by (auto simp: connected_network)
    note refused = transmit_refused[OF this] send_all_refused[OF this assms(3)]
    obtain l1 where up: "snd (hal_network_connect ?hal ?w) = (l1, st, n)" using keeps by (metis surj_pair snd_conv)
    obtain n1 where "send_all (transmit_telemetry_item ?hal) ?old (l1, st, n) = (?old, l1, st, n1)" using refused(2) by meson
    then show ?thesis
      using up True by (simp add: cycle_spec_def Let_def case_prod_beta reading_record refused(1))
  next
    case False
    then show ?thesis using keeps by (simp add: cycle_spec_def Let_def case_prod_beta reading_record)
  qed
  have newest: "?all (?old @ [?new]) = newest_records 31 ?old @ [?new]"
    by (simp add: newest_records_def TELEMETRY_BUFFER_CAPACITY_def)
  from ring.cycle[OF assms(1,2), of ?hal "(l, st, n)"]
  obtain app' where app': "app_main_event_loop ?hal ring_ops app (l, st, n) =
      Some (app', go_to_sleep ?hal (next_sleep_sec app) (snd (cycle_spec ?hal TELEMETRY_BUFFER_CAPACITY ?old ?new ?w)))"
    "current_state app' = STATE_SLEEPING" "ring_contents (offline_records app') = newest_records 31 ?old @ [?new]"
    using spec by (auto simp: connected_reading newest)
  moreover obtain l' n' where "go_to_sleep ?hal (next_sleep_sec app)
      (snd (cycle_spec ?hal TELEMETRY_BUFFER_CAPACITY ?old ?new ?w)) = (l', st, n')"
    using spec local_keeps_server(3) by (metis surj_pair fst_conv snd_conv)
  ultimately show ?thesis
    by (intro exI[of _ app'] exI[of _ l'] exI[of _ n'])
      (simp add: asleep_never_returns app_state_machine_init_def booted_def ring_init)
qed

theorem edge_records_lost_witness:
  "\<exists>app' l' n'. app_main_event_loop
      (connected demo_board (json_server rev 1024 (\<lambda>_. 0) id (\<lambda>_. EOF) [] True (\<lambda>_ _. http_Error 404 ''404 page not found''))
         (\<lambda>n k. int n)) ring_ops demo_app (120000, initial_state NewInMemoryRepository, 0) =
      Some (app', l', initial_state NewInMemoryRepository, n') \<and>
    map td_seq_no (ring_contents (offline_records app')) = [1, 2] \<and>
    app_main_event_loop demo_board ring_ops app' l' = None"
proof -
  have mtls: "requireMTLS (json_server rev 1024 (\<lambda>_. 0) id (\<lambda>_. EOF) [] True (\<lambda>_ _. http_Error 404 ''404 page not found'')) \<or>
      (\<forall>l. \<not> fst (hal_network_connect demo_board l))" by (simp add: mem_server_def)
  from edge_records_lost[where clk = "\<lambda>n k. int n" and l = 120000 and n = 0 and st = "initial_state NewInMemoryRepository"
      and 'w = nat, OF demo_app_ready(1,2) demo_records mtls]
  show ?thesis by (force simp: demo_app_ready(3) newest_records_def demo_fields demo_app_seq app_start_def)
qed

end
