(* ===== verification/Spec2Isabelle.thy ===== *)
theory Spec2Isabelle
  imports Start_Up Json_Server E2e_Properties Concurrent_Properties Sql_Concurrent Edge_Server
begin

text \<open>
  A model of the IoT platform: the Go server under server/, the device simulator and the
  end-to-end runner under tools/, and the application of the firmware under edge/ with its two
  serializers and its offline buffer.

  \<^bold>\<open>The program.\<close> Devices post telemetry, as JSON or as protobuf, over mutual TLS to the edge
  listener. A handler decodes the body, compares the device id with the one of the client
  certificate, stores the payload in a repository, lets the rule engine look at it (which
  records events and starts webhook calls), and answers with an update offer, a sleep interval
  and the pending commands. A second listener without authentication serves the dashboard: it
  lists devices and histories and queues commands. The simulator is a device in Go: it reports,
  installs the offered update and executes commands in a loop. The runner starts the server and
  two simulators and checks what the server then answers. The application of the firmware is a
  device in C: it wakes up, takes a reading, sends what its offline buffer holds and then the reading
  as JSON, keeps what could not be sent, and goes to sleep. The parts and their theories:

  \<^item> The prelude. \<^theory_text>\<open>Go_Base\<close>: machine integers are words, strings are lists of bytes, a call that
    returns an error or panics has an \<open>outcome\<close>; the lemma collections are here. \<^theory_text>\<open>Go_Float\<close>: floats
    as IEEE 754 bit patterns with their exact values. \<^theory_text>\<open>Go_Arith\<close>: correctly rounded arithmetic on
    them. \<^theory_text>\<open>Go_Decimal\<close>: the conversions of strconv and their round trips.
  \<^item> \<^theory_text>\<open>Models\<close>: the structs of server/storage/models/types.go as records. \<^theory_text>\<open>Json_Values\<close>: which of them
    encoding/json can marshal.
  \<^item> JSON as bytes. \<^theory_text>\<open>Json_Text\<close> and \<^theory_text>\<open>Json_Parser\<close>: the text of a tree and the parser, inverse to each
    other; \<^theory_text>\<open>Json_Wellformed\<close>: what the parser can return. \<^theory_text>\<open>Json_Decode\<close>: how encoding/json fills the
    structs; \<^theory_text>\<open>Json_Typing\<close>: what a decoded struct can hold. \<^theory_text>\<open>Json_Encode\<close>: what is written for a
    struct; \<^theory_text>\<open>Json_Roundtrip\<close>: payloads and histories read back.
  \<^item> \<^theory_text>\<open>Byte_Reader\<close>: bytes.Reader, ReadUvarint, ReadFull and Seek. \<^theory_text>\<open>Proto_Decoder\<close>:
    server/core/telemetry/proto\_decoder.go, with the locale \<open>wire_switch\<close> for the contract of the
    field switches of the three sub-messages. \<^theory_text>\<open>Proto_Encoder\<close>: the C serializer
    edge/middleware/serializer/protobuf\_serializer.c and its round trip through the decoder.
  \<^item> \<^theory_text>\<open>Repository\<close>: the interface of server/storage/repository.go as a record of methods, and its
    contract as the locale \<open>repository_contract\<close>. \<^theory_text>\<open>Memory_Repo\<close>: InMemoryRepository, with the device
    entries in a heap because the code hands out pointers to them, its invariant \<open>mem_inv\<close> and the
    interpretation of the contract. \<^theory_text>\<open>Memory_Refinement\<close>: an abstract specification that reads every
    answer off the sequence of operations, and the refinement.
  \<^item> \<^theory_text>\<open>Sql_Repo\<close>: SQLRepository of server/storage/sql\_repository.go over its four tables, with every
    call of the engine that may fail, also between the rows of a result, its invariant \<open>sql_inv\<close> and the interpretation of the same
    contract. \<^theory_text>\<open>Sql_Properties\<close>: runs of its operations under failing calls. \<^theory_text>\<open>Sql_Refinement\<close>: they
    leave what the in-memory repository holds after the operations that succeeded.
    \<^theory_text>\<open>Sql_Concurrent\<close>: concurrent calls, interleaved statement by statement.
  \<^item> \<^theory_text>\<open>Rule_Engine\<close>: package server/core/alerting. \<^theory_text>\<open>Http\<close>: requests, responses and
    server/api/middleware/mtls\_auth.go. \<^theory_text>\<open>Api_Handler\<close>: every handler of
    server/api/handlers/telemetry\_handler.go. \<^theory_text>\<open>Handler_Laws\<close>: what the handlers keep on every repository
    that satisfies the contract, proved inside its locale. \<^theory_text>\<open>Memory_Handlers\<close>: whole requests, and
    sequences of them, on the in-memory repository.
  \<^item> \<^theory_text>\<open>Config\<close>: server/config/config.go. \<^theory_text>\<open>Server\<close>: the routes and listeners of server/main.go and
    the runs of the server, an inductive relation over the requests served. \<^theory_text>\<open>Start_Up\<close>: its function
    main, from the configuration to the exit.
  \<^item> \<^theory_text>\<open>Concurrent\<close>: the requests of the server handled at the same time. A handler is cut into the
    points between its accesses to the state behind locks, and the run of the server is a step
    relation over a pool of goroutines; \<^theory_text>\<open>Concurrent_Properties\<close>: its invariant and what follows.
  \<^item> \<^theory_text>\<open>Simulator\<close>: tools/simulator/main.go over an environment of its HTTP client, clock and random
    numbers. \<^theory_text>\<open>Simulator_Properties\<close>: its readings, updates and runs. \<^theory_text>\<open>Simulator_Json\<close>: its structs and
    their JSON. \<^theory_text>\<open>Device_Session\<close> connects the client to the listener, with the bytes in between;
    \<^theory_text>\<open>Device_Runs\<close>: whole runs. \<^theory_text>\<open>Fleet\<close>: several simulators at once, a step relation whose steps are the
    cycles. \<^theory_text>\<open>Json_Server\<close>: the server on JSON bodies.
  \<^item> \<^theory_text>\<open>E2e_Runner\<close>: tools/test\_runner/run\_e2e.go. \<^theory_text>\<open>E2e_Properties\<close>: the runner against the server and a
    fleet of two.
  \<^item> The firmware. \<^theory_text>\<open>Edge_Json\<close>: edge/middleware/serializer/telemetry\_serializer.c, its text as JSON and
    what the server reads. \<^theory_text>\<open>Edge_Buffer\<close>: the ring of edge/middleware/telemetry/telemetry\_buffer.c, and
    its contract as the locale \<open>offline_buffer\<close>, a queue of the newest records. \<^theory_text>\<open>Edge_App\<close>:
    edge/app/src/app\_state\_machine.c over the hardware abstraction layer as a record of functions, its
    flush and its cycle proved inside that locale. \<^theory_text>\<open>Edge_Server\<close>: the application against the listener.

  \<^bold>\<open>What is shown.\<close> A simulator, or any number of them in any order of their cycles, ends up on the
  new firmware with its commands executed and its reports stored (\<^theory_text>\<open>Device_Runs\<close>, \<^theory_text>\<open>Fleet\<close>), and then the
  end-to-end runner passes (\<^theory_text>\<open>E2e_Properties\<close>). However the steps of concurrent requests
  interleave, the repository refines its specification, every stored payload was vouched for by a
  certificate, and every request ends (\<^theory_text>\<open>Concurrent_Properties\<close>). A telemetry
  request either stores exactly its payload and is answered in full, or changes nothing; commands
  are delivered until acknowledged; configuration updates take effect (\<^theory_text>\<open>Memory_Handlers\<close>). What JSON
  bodies store is well-formed, and reports and histories survive the wire (\<^theory_text>\<open>Json_Server\<close>). The SQL
  tables stay consistent, a save is all or nothing whatever calls fail, and they agree with the
  in-memory repository (\<^theory_text>\<open>Sql_Properties\<close>, \<^theory_text>\<open>Sql_Refinement\<close>); under interleaved statements no
  command is lost or altered, but overlapping polls deliver one twice (\<^theory_text>\<open>Sql_Concurrent\<close>). The rules raise
  the alerts of the table in docs/03, but for a battery of 0 percent, and every alert is recorded once
  (\<^theory_text>\<open>Rule_Engine\<close>). What the edge serializes, the server decodes (\<^theory_text>\<open>Proto_Encoder\<close>); the decoder
  returns, and does not panic, on inputs without huge varints (\<^theory_text>\<open>Proto_Decoder\<close>). The firmware's JSON reports and the records of its offline buffer are stored, in order, by a server that
  asks for no certificate (\<^theory_text>\<open>Edge_Server\<close>). The theorems also locate where the code falls short:
  the input on which the decoder never returns, the buffer that overflows, the report that empties
  the device list, the certificate that is not checked, the run that never ends, the buffered records
  that are never sent.

  \<^bold>\<open>Bounds.\<close> There is no fuel. The decoder loops, the loop of the simulator and those of the firmware
  are partial functions into \<open>option\<close>, where None is a call that does not return. The parsers nest at most
  \<open>max_nesting\<close> deep, as encoding/json does. \<open>max_alloc\<close> is the largest buffer the run time can
  allocate, and the clock is a function from the number of a reading to its value.

  \<^bold>\<open>Not modelled.\<close> Where requests run concurrently, a repository method is one step, as the lock
  of the in-memory repository makes it; the statements of the SQL methods interleave in
  \<^theory_text>\<open>Sql_Concurrent\<close> only, apart from the handlers. The entries that ListDevices hands out are read in
  one go. Simulators take turns cycle by cycle. The texts of decoder errors, the network behind the webhook, the TLS handshake, sockets
  and their timeouts, the SQL engine, the operating system, the processes of the runner and the
  file server are parameters. URLs have no percent-escapes and redirects are not followed. Log
  lines and pauses are left out. The drivers, the OS abstraction layer and the update client of
  the firmware (which its application never calls), the program of the ESP32 board (edge/platform/esp32/main.cpp,
  which has a loop and a buffer of its own), the PHP package and the static pages are not modelled.
\<close>

end
